(* ===== verification/GoPrelude.thy ===== *)
theory GoPrelude
  imports Main
    "HOL-Library.Char_ord" "HOL-Library.List_Lexorder" "HOL-Library.Product_Lexorder"
    "HOL-Library.Multiset" "HOL-Library.Mapping" "HOL-Library.Word" "HOL-Library.Sublist"
begin

text \<open>
  The part of the Go language and of its standard library that the program uses, and the lemmas
  the components share.

  \<^item> Integers. Go's \<open>int\<close> and \<open>int64\<close> are 64-bit two's complement. They are modelled by \<open>int\<close>;
    every operation of the source that can overflow is wrapped with \<open>wrap64\<close>.
  \<^item> Time. A \<open>time.Time\<close> is the number of nanoseconds since Go's zero time, so \<open>IsZero\<close> is
    \<open>= 0\<close>; a \<open>time.Duration\<close> is a number of nanoseconds.
  \<^item> Strings and byte slices are lists of bytes (\<open>string\<close>), ordered lexicographically as Go's
    \<open><\<close> does.
  \<^item> \<open>sort.Slice\<close> and \<open>sort.Strings\<close> are given by a locale, since Go only promises a sorted
    permutation and leaves the order of equal keys open.
\<close>

named_theorems go_simps \<open>definitions of the Go primitives, for evaluation\<close>

section \<open>Machine integers\<close>

type_synonym go_int = int
type_synonym duration = int
type_synonym time = int
type_synonym bytes = string

definition wrap64 :: "int \<Rightarrow> int" where
  "wrap64 x = (x + 2 ^ 63) mod 2 ^ 64 - 2 ^ 63"

definition int64 :: "int \<Rightarrow> bool" where
  "int64 x \<longleftrightarrow> - (2 ^ 63) \<le> x \<and> x < 2 ^ 63"

lemma wrap64_id: "int64 x \<Longrightarrow> wrap64 x = x"
  by (simp add: wrap64_def int64_def)

lemma int64_wrap64 [simp]: "int64 (wrap64 x)"
  by (simp add: wrap64_def int64_def)

lemma wrap64_small [simp]: "0 \<le> x \<Longrightarrow> x < 2 ^ 63 \<Longrightarrow> wrap64 x = x"
  by (simp add: wrap64_id int64_def)

lemma wrap64_word: "wrap64 x = sint (word_of_int x :: 64 word)"
  by (simp add: wrap64_def signed_take_bit_eq_take_bit_shift take_bit_eq_mod sint_sbintrunc')

lemma wrap64_mod_eq: "x mod 2 ^ 64 = y mod 2 ^ 64 \<Longrightarrow> wrap64 x = wrap64 y"
  unfolding wrap64_def by (metis mod_add_left_eq)

lemma wrap64_mod: "wrap64 x mod 2 ^ 64 = x mod 2 ^ 64"
  unfolding wrap64_def by (simp add: mod_diff_left_eq)

lemma wrap64_add_left: "wrap64 (wrap64 x + y) = wrap64 (x + y)"
  by (rule wrap64_mod_eq) (metis mod_add_left_eq wrap64_mod)

lemma wrap64_add_right: "wrap64 (x + wrap64 y) = wrap64 (x + y)"
  by (metis add.commute wrap64_add_left)

section \<open>Time and durations\<close>

abbreviation millisecond :: duration where "millisecond \<equiv> 1000000"
abbreviation second :: duration where "second \<equiv> 1000000000"
abbreviation minute :: duration where "minute \<equiv> 60000000000"

definition time_zero :: time where "time_zero = 0"

definition time_is_zero :: "time \<Rightarrow> bool" where
  "time_is_zero t \<longleftrightarrow> t = time_zero"

definition time_add :: "time \<Rightarrow> duration \<Rightarrow> time" where
  "time_add t d = t + d"

definition time_before :: "time \<Rightarrow> time \<Rightarrow> bool" where
  "time_before t u \<longleftrightarrow> t < u"

definition time_after :: "time \<Rightarrow> time \<Rightarrow> bool" where
  "time_after t u \<longleftrightarrow> u < t"

text \<open>\<open>Time.Sub\<close> saturates at the largest and smallest durations.\<close>

definition time_sub :: "time \<Rightarrow> time \<Rightarrow> duration" where
  "time_sub t u = max (- (2 ^ 63)) (min (2 ^ 63 - 1) (t - u))"

lemmas time_defs [go_simps] =
  time_zero_def time_is_zero_def time_add_def time_before_def time_after_def time_sub_def

lemma int64_time_sub: "int64 (time_sub t u)"
  by (simp add: time_sub_def int64_def)

section \<open>Maps with zero values\<close>

text \<open>Reading a missing key of a Go map gives the zero value of the element type.\<close>

definition map_get :: "'v \<Rightarrow> ('k \<rightharpoonup> 'v) \<Rightarrow> 'k \<Rightarrow> 'v" where
  "map_get z m k = (case m k of None \<Rightarrow> z | Some v \<Rightarrow> v)"

lemma map_get_upd [simp]: "map_get z (m(k \<mapsto> v)) k' = (if k' = k then v else map_get z m k')"
  by (simp add: map_get_def)

lemma map_get_empty [simp]: "map_get z Map.empty k = z"
  by (simp add: map_get_def)

lemma map_get_Some: "m k = Some v \<Longrightarrow> map_get z m k = v"
  by (simp add: map_get_def)

section \<open>Sorting\<close>

text \<open>
  What \<open>sort.Slice\<close> promises: the slice is permuted so that the keys ascend. The sort is not
  stable, so nothing is said of equal keys; where the keys are distinct the result is
  determined, and does not depend on the order in which the slice was filled.
\<close>

locale slice_sorter =
  fixes sorter :: "('a \<Rightarrow> 'k::linorder) \<Rightarrow> 'a list \<Rightarrow> 'a list"
  assumes sorter_mset: "mset (sorter key xs) = mset xs"
    and sorter_sorted: "sorted (map key (sorter key xs))"
begin

lemma sorter_set: "set (sorter key xs) = set xs"
  by (rule mset_eq_setD) (rule sorter_mset)

lemma sorter_length: "length (sorter key xs) = length xs"
  by (rule mset_eq_length) (rule sorter_mset)

lemma sorter_distinct: "distinct (map key (sorter key xs)) \<longleftrightarrow> distinct (map key xs)"
  by (metis mset_eq_imp_distinct_iff mset_map sorter_mset)

lemma sorter_unique:
  assumes "mset ys = mset xs" and "sorted (map key ys)" and "distinct (map key xs)"
  shows "sorter key xs = ys"
proof (rule map_sorted_distinct_set_unique [where f = key])
  show "inj_on key (set (sorter key xs) \<union> set ys)"
    using assms by (metis distinct_map mset_eq_setD sorter_set sup.idem)
  show "sorted (map key (sorter key xs))" by (rule sorter_sorted)
  show "distinct (map key (sorter key xs))" using assms(3) by (simp add: sorter_distinct)
  show "sorted (map key ys)" by (rule assms(2))
  show "distinct (map key ys)" using assms by (metis mset_eq_imp_distinct_iff mset_map)
  show "set (sorter key xs) = set ys" using assms(1) by (metis mset_eq_setD sorter_set)
qed

lemma sorter_schedule_independent:
  assumes "mset xs = mset ys" and "distinct (map key xs)"
  shows "sorter key xs = sorter key ys"
  by (rule sorter_unique) (use assms sorter_mset sorter_sorted in \<open>auto\<close>)

end

definition sort_slice :: "('a \<Rightarrow> 'k::linorder) \<Rightarrow> 'a list \<Rightarrow> 'a list" where
  "sort_slice key xs = sort_key key xs"

definition sort_strings :: "string list \<Rightarrow> string list" where
  "sort_strings xs = sort_slice (\<lambda>x. x) xs"

interpretation slices: slice_sorter sort_slice
  by unfold_locales (simp_all add: sort_slice_def)

lemmas sort_slice_facts [simp] = slices.sorter_mset slices.sorter_sorted slices.sorter_set
  slices.sorter_length

lemma sort_strings_facts [simp]:
  shows "mset (sort_strings xs) = mset xs" and "set (sort_strings xs) = set xs"
    and "length (sort_strings xs) = length xs" and "sorted (sort_strings xs)"
  using slices.sorter_sorted [of "\<lambda>x. x" xs] by (simp_all add: sort_strings_def)

lemma distinct_sort_strings [simp]: "distinct (sort_strings xs) = distinct xs"
  by (rule mset_eq_imp_distinct_iff) simp

lemma sort_strings_empty [simp]: "sort_strings xs = [] \<longleftrightarrow> xs = []"
  by (metis length_0_conv sort_strings_facts(3))

lemma sort_strings_cong: "mset xs = mset ys \<Longrightarrow> sort_strings xs = sort_strings ys"
  by (metis properties_for_sort sort_strings_facts(1) sort_strings_facts(4))

end
