(* ===== verification/GoStrings.thy ===== *)
theory GoStrings
  imports GoPrelude
begin

text \<open>
  The functions of Go's packages \<open>strings\<close>, \<open>strconv\<close> and \<open>fmt\<close> that the program calls, on byte
  strings. \<open>ToLower\<close> is exact on ASCII and on the two other code points whose lower case is an
  ASCII letter (U+0130 and U+212A); the remaining letters outside ASCII are left as they are.
  \<open>TrimSpace\<close> knows every Unicode space in its UTF-8 form. \<open>%q\<close> is exact on ASCII and keeps other
  bytes, as it does for printable code points.
\<close>

section \<open>Prefixes, substrings, trimming\<close>

definition has_prefix :: "string \<Rightarrow> string \<Rightarrow> bool" where
  "has_prefix s p \<longleftrightarrow> take (length p) s = p"

lemma has_prefix_iff: "has_prefix s p \<longleftrightarrow> (\<exists>t. s = p @ t)"
  by (metis append_eq_conv_conj append_take_drop_id has_prefix_def)

definition trim_prefix :: "string \<Rightarrow> string \<Rightarrow> string" where
  "trim_prefix s p = (if has_prefix s p then drop (length p) s else s)"

fun str_contains :: "string \<Rightarrow> string \<Rightarrow> bool" where
  "str_contains [] p \<longleftrightarrow> p = []"
| "str_contains (c # s) p \<longleftrightarrow> has_prefix (c # s) p \<or> str_contains s p"

lemma str_contains_iff: "str_contains s p \<longleftrightarrow> (\<exists>a b. s = a @ p @ b)"
proof (induction s)
  case Nil
  then show ?case by auto
next
  case (Cons c s)
  have "(\<exists>a b. c # s = a @ p @ b) \<longleftrightarrow> has_prefix (c # s) p \<or> (\<exists>a b. s = a @ p @ b)"
    by (auto simp: has_prefix_iff Cons_eq_append_conv)
  with Cons.IH show ?case by simp
qed

definition byte_string :: "nat list \<Rightarrow> string" where
  "byte_string = map (char_of :: nat \<Rightarrow> char)"

definition space_codes :: "string list" where
  "space_codes = map byte_string
     ([[9], [10], [11], [12], [13], [32], [194, 133], [194, 160], [225, 154, 128]]
      @ map (\<lambda>i. [226, 128, 128 + i]) [0..<11]
      @ [[226, 128, 168], [226, 128, 169], [226, 128, 175], [226, 129, 159], [227, 128, 128]])"

lemma space_codes_nonempty: "p \<in> set space_codes \<Longrightarrow> p \<noteq> []"
  by (auto simp: space_codes_def byte_string_def)

function trim_codes :: "string list \<Rightarrow> string \<Rightarrow> string" where
  "trim_codes ps s = (case find (\<lambda>p. p \<noteq> [] \<and> has_prefix s p) ps of
     None \<Rightarrow> s | Some p \<Rightarrow> trim_codes ps (drop (length p) s))"
  by pat_completeness auto
termination
proof (relation "measure (\<lambda>(ps, s). length s)", goal_cases)
  case (2 ps s p)
  from \<open>find (\<lambda>p. p \<noteq> [] \<and> has_prefix s p) ps = Some p\<close>
  have "p \<noteq> []" and "has_prefix s p" by (auto simp: find_Some_iff)
  then show ?case by (auto simp: has_prefix_iff)
qed simp

declare trim_codes.simps [simp del]

definition trim_space :: "string \<Rightarrow> string" where
  "trim_space s = rev (trim_codes (map rev space_codes) (rev (trim_codes space_codes s)))"

lemma trim_codes_Nil [simp]: "trim_codes ps [] = []"
  by (subst trim_codes.simps) (auto split: option.splits simp: find_Some_iff has_prefix_iff)

lemma trim_codes_free:
  "find (\<lambda>p. p \<noteq> [] \<and> has_prefix s p) ps = None \<Longrightarrow> trim_codes ps s = s"
  by (subst trim_codes.simps) simp

lemma trim_codes_fixed: "find (\<lambda>p. p \<noteq> [] \<and> has_prefix (trim_codes ps s) p) ps = None"
proof (induction ps s rule: trim_codes.induct)
  case (1 ps s)
  show ?case
  proof (cases "find (\<lambda>p. p \<noteq> [] \<and> has_prefix s p) ps")
    case None
    then show ?thesis by (simp add: trim_codes_free)
  next
    case (Some p)
    then have "trim_codes ps s = trim_codes ps (drop (length p) s)"
      by (subst trim_codes.simps) simp
    with 1 [OF Some] show ?thesis by simp
  qed
qed

lemma trim_codes_idem [simp]: "trim_codes ps (trim_codes ps s) = trim_codes ps s"
  by (rule trim_codes_free) (rule trim_codes_fixed)

lemma trim_codes_suffix: "suffix (trim_codes ps s) s"
proof (induction ps s rule: trim_codes.induct)
  case (1 ps s)
  then show ?case
    by (subst trim_codes.simps)
      (auto split: option.splits intro: suffix_order.trans [OF _ suffix_drop])
qed

text \<open>Plain text (no byte starts or ends a space code) is left alone by \<open>TrimSpace\<close>.\<close>

definition graphic :: "char \<Rightarrow> bool" where
  "graphic c \<longleftrightarrow> 33 \<le> (of_char c :: nat) \<and> (of_char c :: nat) < 127"

lemma space_code_not_graphic: "p \<in> set space_codes \<Longrightarrow> c \<in> set p \<Longrightarrow> \<not> graphic c"
  by (auto simp: space_codes_def byte_string_def graphic_def)

lemma trim_codes_graphic:
  assumes "s = [] \<or> graphic (hd s)" and "\<And>p c. p \<in> set ps \<Longrightarrow> c \<in> set p \<Longrightarrow> \<not> graphic c"
  shows "trim_codes ps s = s"
proof (rule trim_codes_free)
  have "\<not> has_prefix s p" if "p \<in> set ps" and "p \<noteq> []" for p
  proof
    assume "has_prefix s p"
    with that(2) have "s \<noteq> []" and "hd s \<in> set p"
      by (auto simp: has_prefix_iff neq_Nil_conv)
    with assms that(1) show False by blast
  qed
  then show "find (\<lambda>p. p \<noteq> [] \<and> has_prefix s p) ps = None"
    by (auto simp: find_None_iff)
qed

lemma trim_space_graphic:
  assumes "s = [] \<or> graphic (hd s) \<and> graphic (last s)"
  shows "trim_space s = s"
proof -
  have "trim_codes space_codes s = s"
    by (rule trim_codes_graphic) (use assms space_code_not_graphic in auto)
  moreover have "trim_codes (map rev space_codes) (rev s) = rev s"
    by (rule trim_codes_graphic)
      (use assms space_code_not_graphic in \<open>auto simp: hd_rev\<close>)
  ultimately show ?thesis by (simp add: trim_space_def)
qed

section \<open>Case\<close>

definition lower_char :: "char \<Rightarrow> char" where
  "lower_char c = (let n = (of_char c :: nat) in if 65 \<le> n \<and> n \<le> 90 then char_of (n + 32) else c)"

definition dotted_capital_i :: string where "dotted_capital_i = byte_string [196, 176]"
definition kelvin_sign :: string where "kelvin_sign = byte_string [226, 132, 170]"

function to_lower :: "string \<Rightarrow> string" where
  "to_lower s =
     (if s = [] then []
      else if has_prefix s dotted_capital_i then CHR ''i'' # to_lower (drop 2 s)
      else if has_prefix s kelvin_sign then CHR ''k'' # to_lower (drop 3 s)
      else lower_char (hd s) # to_lower (tl s))"
  by pat_completeness auto
termination by (relation "measure length") (auto simp: length_greater_0_conv)

declare to_lower.simps [simp del]

lemma to_lower_Nil [simp]: "to_lower [] = []"
  by (subst to_lower.simps) simp

lemma to_lower_ascii_Cons:
  assumes "(of_char c :: nat) < 128"
  shows "to_lower (c # s) = lower_char c # to_lower s"
  using assms
  by (subst to_lower.simps)
    (auto simp: has_prefix_def dotted_capital_i_def kelvin_sign_def byte_string_def)

definition ascii :: "string \<Rightarrow> bool" where
  "ascii s \<longleftrightarrow> (\<forall>c \<in> set s. (of_char c :: nat) < 128)"

lemma to_lower_ascii: "ascii s \<Longrightarrow> to_lower s = map lower_char s"
  by (induction s) (auto simp: ascii_def to_lower_ascii_Cons)

lemma lower_char_idem [simp]: "lower_char (lower_char c) = lower_char c"
  by (auto simp: lower_char_def Let_def)

section \<open>Numbers as text\<close>

definition digit :: "nat \<Rightarrow> char" where
  "digit d = char_of (48 + d)"

fun decimal :: "nat \<Rightarrow> string" where
  "decimal n = (if n < 10 then [digit n] else decimal (n div 10) @ [digit (n mod 10)])"

declare decimal.simps [simp del]

definition itoa :: "int \<Rightarrow> string" where
  "itoa n = (if n < 0 then CHR ''-'' # decimal (nat (- n)) else decimal (nat n))"

text \<open>\<open>fmt.Sprintf("%04d", n)\<close> for the non-negative numbers the program formats.\<close>

definition fmt_04d :: "nat \<Rightarrow> string" where
  "fmt_04d n = replicate (4 - length (decimal n)) CHR ''0'' @ decimal n"

definition undecimal :: "string \<Rightarrow> nat" where
  "undecimal s = foldl (\<lambda>v c. 10 * v + (of_char c - 48)) 0 s"

lemma of_char_digit [simp]: "d < 10 \<Longrightarrow> (of_char (digit d) :: nat) = 48 + d"
  by (simp add: digit_def)

lemma undecimal_snoc [simp]: "undecimal (s @ [c]) = 10 * undecimal s + (of_char c - 48)"
  by (simp add: undecimal_def)

lemma undecimal_decimal [simp]: "undecimal (decimal n) = n"
proof (induction n rule: decimal.induct)
  case (1 n)
  show ?case
  proof (cases "n < 10")
    case True
    then show ?thesis by (subst decimal.simps) (simp add: undecimal_def)
  next
    case False
    with 1 show ?thesis by (subst decimal.simps) simp
  qed
qed

lemma decimal_digits: "c \<in> set (decimal n) \<Longrightarrow> \<exists>d < 10. c = digit d"
proof (induction n rule: decimal.induct)
  case (1 n)
  show ?case
  proof (cases "n < 10")
    case True
    with "1.prems" show ?thesis by (subst (asm) decimal.simps) auto
  next
    case False
    then have "c \<in> set (decimal (n div 10)) \<or> c = digit (n mod 10)"
      using "1.prems" by (subst (asm) decimal.simps) auto
    with 1(1) [OF False] show ?thesis by (metis mod_less_divisor zero_less_numeral)
  qed
qed

lemma undecimal_zeros [simp]: "undecimal (replicate k CHR ''0'' @ s) = undecimal s"
  by (induction k) (simp_all add: undecimal_def)

lemma undecimal_fmt_04d [simp]: "undecimal (fmt_04d n) = n"
  by (simp add: fmt_04d_def)

lemma fmt_04d_inj: "fmt_04d m = fmt_04d n \<Longrightarrow> m = n"
  by (metis undecimal_fmt_04d)

lemma digit_not_underscore: "d < 10 \<Longrightarrow> digit d \<noteq> CHR ''_''"
proof
  assume "d < 10" and "digit d = CHR ''_''"
  then have "48 + d = (of_char CHR ''_'' :: nat)" by (metis of_char_digit)
  with \<open>d < 10\<close> show False by simp
qed

lemma fmt_04d_no_underscore: "CHR ''_'' \<notin> set (fmt_04d n)"
  using digit_not_underscore by (fastforce simp: fmt_04d_def dest!: decimal_digits split: if_splits)

lemma takeWhile_no_char:
  "c \<notin> set s \<Longrightarrow> takeWhile (\<lambda>x. x \<noteq> c) (s @ c # t) = s"
  by (induction s) auto

lemma fmt_04d_tag_inj: "fmt_04d m @ ''_'' @ s = fmt_04d n @ ''_'' @ t \<Longrightarrow> m = n \<and> s = t"
proof -
  assume eq: "fmt_04d m @ ''_'' @ s = fmt_04d n @ ''_'' @ t"
  have "fmt_04d m = takeWhile (\<lambda>x. x \<noteq> CHR ''_'') (fmt_04d m @ ''_'' @ s)"
    using takeWhile_no_char [OF fmt_04d_no_underscore, of m s] by simp
  also have "\<dots> = fmt_04d n"
    unfolding eq using takeWhile_no_char [OF fmt_04d_no_underscore, of n t] by simp
  finally have "m = n" by (rule fmt_04d_inj)
  with eq show ?thesis by simp
qed

section \<open>Quoting\<close>

definition hex_digit :: "nat \<Rightarrow> char" where
  "hex_digit d = (if d < 10 then char_of (48 + d) else char_of (87 + d))"

definition quote_char :: "char \<Rightarrow> string" where
  "quote_char c = (let n = (of_char c :: nat) in
     if n = 34 then byte_string [92, 34]
     else if n = 92 then byte_string [92, 92]
     else if n = 7 then byte_string [92] @ ''a''
     else if n = 8 then byte_string [92] @ ''b''
     else if n = 12 then byte_string [92] @ ''f''
     else if n = 10 then byte_string [92] @ ''n''
     else if n = 13 then byte_string [92] @ ''r''
     else if n = 9 then byte_string [92] @ ''t''
     else if n = 11 then byte_string [92] @ ''v''
     else if n < 32 \<or> n = 127 then byte_string [92] @ ''x'' @ [hex_digit (n div 16), hex_digit (n mod 16)]
     else [c])"

definition fmt_q :: "string \<Rightarrow> string" where
  "fmt_q s = byte_string [34] @ concat (map quote_char s) @ byte_string [34]"

end
