(* ===== verification/GoErrors.thy ===== *)
theory GoErrors
  imports GoStrings
begin

text \<open>
  Go's error values: the sentinel variables of the packages, errors made by \<open>fmt.Errorf\<close> and
  \<open>errors.New\<close> at the point of return, and \<open>retry.AgentError\<close>
  (\<open>src/internal/retry/errors.go\<close>), with \<open>errors.Is\<close> and \<open>errors.As\<close> over their chains.

  Go compares sentinels by address. A sentinel is therefore a constructor of its own; \<open>UserErr\<close>
  stands for the variables of the code that embeds the router. An error built when a function
  returns has a fresh address, so it equals no target. \<open>AgentError\<close> is a struct and is compared
  by value.
\<close>

datatype sentinel =
    ErrAgentTimeout | ErrCircuitOpen | ErrAgentPanic | ErrInvalidPayload
  | ErrEmptyAgentID | ErrNilAgentFunc | ErrDuplicateAgentID
  | ErrManifestEmptyAgents | ErrManifestEmptyPipeline
  | ErrMissingAPIKey | ErrEmptyPrompt
  | CtxCanceled | CtxDeadlineExceeded
  | UserErr nat string

fun sentinel_text :: "sentinel \<Rightarrow> string" where
  "sentinel_text ErrAgentTimeout = ''agent timeout''"
| "sentinel_text ErrCircuitOpen = ''circuit breaker open''"
| "sentinel_text ErrAgentPanic = ''agent panicked''"
| "sentinel_text ErrInvalidPayload = ''invalid agent payload''"
| "sentinel_text ErrEmptyAgentID = ''agent id is empty''"
| "sentinel_text ErrNilAgentFunc = ''agent func is nil''"
| "sentinel_text ErrDuplicateAgentID = ''agent id already registered''"
| "sentinel_text ErrManifestEmptyAgents = ''manifest: agents list is empty''"
| "sentinel_text ErrManifestEmptyPipeline = ''manifest: pipeline is empty''"
| "sentinel_text ErrMissingAPIKey = ''missing api key''"
| "sentinel_text ErrEmptyPrompt = ''prompt is empty''"
| "sentinel_text CtxCanceled = ''context canceled''"
| "sentinel_text CtxDeadlineExceeded = ''context deadline exceeded''"
| "sentinel_text (UserErr _ t) = t"

datatype goerr =
    Sentinel sentinel
  | Errorf string
  | WrapErr string goerr string
  | AgentError (Cause: "goerr option") (Retryable: bool)

type_synonym 'a result = "goerr + 'a"

text \<open>\<open>Error()\<close>. \<open>WrapErr pre e post\<close> is \<open>fmt.Errorf\<close> of a text with one \<open>%w\<close> between \<open>pre\<close> and \<open>post\<close>.\<close>

fun err_text :: "goerr \<Rightarrow> string" where
  "err_text (Sentinel s) = sentinel_text s"
| "err_text (Errorf t) = t"
| "err_text (WrapErr pre e post) = pre @ err_text e @ post"
| "err_text (AgentError None _) = ''agent error''"
| "err_text (AgentError (Some c) _) = ''agent error: '' @ err_text c"

fun err_unwrap :: "goerr \<Rightarrow> goerr option" where
  "err_unwrap (WrapErr _ e _) = Some e"
| "err_unwrap (AgentError c _) = c"
| "err_unwrap _ = None"

fun same_error :: "goerr \<Rightarrow> goerr \<Rightarrow> bool" where
  "same_error (Sentinel a) (Sentinel b) \<longleftrightarrow> a = b"
| "same_error (AgentError None r) (AgentError None r') \<longleftrightarrow> r = r'"
| "same_error (AgentError (Some c) r) (AgentError (Some c') r') \<longleftrightarrow> r = r' \<and> same_error c c'"
| "same_error _ _ \<longleftrightarrow> False"

fun errors_is :: "goerr \<Rightarrow> goerr \<Rightarrow> bool" where
  "errors_is (WrapErr pre e post) t \<longleftrightarrow> same_error (WrapErr pre e post) t \<or> errors_is e t"
| "errors_is (AgentError (Some c) r) t \<longleftrightarrow> same_error (AgentError (Some c) r) t \<or> errors_is c t"
| "errors_is e t \<longleftrightarrow> same_error e t"

text \<open>\<open>errors.As(err, &ae)\<close> for \<open>ae\<close> of type \<open>retry.AgentError\<close>: the first one in the chain.\<close>

fun errors_as_agent :: "goerr \<Rightarrow> goerr option" where
  "errors_as_agent (AgentError c r) = Some (AgentError c r)"
| "errors_as_agent (WrapErr _ e _) = errors_as_agent e"
| "errors_as_agent _ = None"

definition NonRetryable :: "goerr option \<Rightarrow> goerr option" where
  "NonRetryable e = (case e of None \<Rightarrow> None | Some c \<Rightarrow> Some (AgentError (Some c) False))"

lemma same_error_refl_sentinel [simp]: "same_error (Sentinel s) (Sentinel s)"
  by simp

lemma same_error_WrapErr [simp]: "\<not> same_error (WrapErr p e q) t"
  by (cases t) auto

lemma same_error_Errorf [simp]: "\<not> same_error (Errorf m) t"
  by (cases t) auto

lemma same_error_Sentinel_iff: "same_error (Sentinel s) t \<longleftrightarrow> t = Sentinel s"
  by (cases t) auto

lemma same_error_AgentError_Sentinel [simp]: "\<not> same_error (AgentError c r) (Sentinel s)"
  by (cases c) auto

lemma errors_is_chain:
  "errors_is e t \<longleftrightarrow> same_error e t \<or> (\<exists>e'. err_unwrap e = Some e' \<and> errors_is e' t)"
  by (cases e; cases "Cause e") auto

lemma errors_as_agent_AgentError: "errors_as_agent e = Some a \<Longrightarrow> \<exists>c r. a = AgentError c r"
  by (induction e rule: errors_as_agent.induct) auto

lemma NonRetryable_Some: "NonRetryable (Some e) = Some (AgentError (Some e) False)"
  by (simp add: NonRetryable_def)

end
