(* ===== verification/GoNumbers.thy ===== *)
theory GoNumbers
  imports GoErrors Complex_Main
begin

text \<open>
  Parsing of numbers and durations: \<open>strconv.Atoi\<close> and \<open>time.ParseDuration\<close> of Go's standard
  library, which the configuration code calls. \<open>ParseDuration\<close> computes fractions in \<open>float64\<close>;
  \<open>fl64\<close> is the rounding of a rational to the nearest double, ties to even.
\<close>

section \<open>Atoi\<close>

definition is_digit :: "char \<Rightarrow> bool" where
  "is_digit c \<longleftrightarrow> 48 \<le> (of_char c :: nat) \<and> (of_char c :: nat) \<le> 57"

lemma decimal_all_digits: "list_all is_digit (decimal n)"
  by (auto simp: list_all_iff is_digit_def dest!: decimal_digits)

text \<open>Without the zeros at the end.\<close>

definition strip_zeros :: "string \<Rightarrow> string" where
  "strip_zeros ds = rev (dropWhile (\<lambda>c. c = CHR ''0'') (rev ds))"

definition digit_val :: "char \<Rightarrow> nat" where
  "digit_val c = of_char c - 48"

definition split_sign :: "string \<Rightarrow> bool \<times> string" where
  "split_sign s =
     (case s of
        [] \<Rightarrow> (False, [])
      | c # cs \<Rightarrow> if c = CHR ''-'' then (True, cs) else if c = CHR ''+'' then (False, cs) else (False, s))"

text \<open>\<open>None\<close> stands for a syntax or a range error; the program never looks at which.\<close>

definition atoi :: "string \<Rightarrow> go_int option" where
  "atoi s =
     (case split_sign s of (neg, ds) \<Rightarrow>
      if ds = [] \<or> \<not> list_all is_digit ds then None
      else let v = int (undecimal ds); v = (if neg then - v else v)
           in if int64 v then Some v else None)"

section \<open>Doubles\<close>

fun bit_len :: "nat \<Rightarrow> nat" where
  "bit_len n = (if n = 0 then 0 else Suc (bit_len (n div 2)))"

declare bit_len.simps [simp del]

definition pow2 :: "int \<Rightarrow> rat" where
  "pow2 k = (if 0 \<le> k then 2 ^ nat k else 1 / 2 ^ nat (- k))"

text \<open>The exponent of the last place of a double close to \<open>x > 0\<close>.\<close>

definition ulp_exp :: "rat \<Rightarrow> int" where
  "ulp_exp x =
     (case quotient_of x of (p, q) \<Rightarrow>
      let k = int (bit_len (nat p)) - int (bit_len (nat q));
          e = (if pow2 k \<le> x then k else k - 1)
      in max (e - 52) (- 1074))"

definition round_even :: "rat \<Rightarrow> int" where
  "round_even x =
     (let n = \<lfloor>x\<rfloor>; f = x - of_int n
      in if f < 1 / 2 then n else if 1 / 2 < f then n + 1 else if even n then n else n + 1)"

definition fl64 :: "rat \<Rightarrow> rat" where
  "fl64 x =
     (if x = 0 then 0
      else if 0 < x then of_int (round_even (x / pow2 (ulp_exp x))) * pow2 (ulp_exp x)
      else - (of_int (round_even (- x / pow2 (ulp_exp (- x)))) * pow2 (ulp_exp (- x))))"

section \<open>ParseDuration\<close>

fun leading_int :: "nat \<Rightarrow> string \<Rightarrow> (nat \<times> string) option" where
  "leading_int x [] = Some (x, [])"
| "leading_int x (c # s) =
     (if \<not> is_digit c then Some (x, c # s)
      else if 2 ^ 63 div 10 < x then None
      else let y = x * 10 + digit_val c
           in if 2 ^ 63 < y then None else leading_int y s)"

fun leading_fraction :: "nat \<Rightarrow> nat \<Rightarrow> bool \<Rightarrow> string \<Rightarrow> nat \<times> nat \<times> string" where
  "leading_fraction x scale overflow [] = (x, scale, [])"
| "leading_fraction x scale overflow (c # s) =
     (if \<not> is_digit c then (x, scale, c # s)
      else if overflow then leading_fraction x scale True s
      else if (2 ^ 63 - 1) div 10 < x then leading_fraction x scale True s
      else let y = x * 10 + digit_val c
           in if 2 ^ 63 < y then leading_fraction x scale True s
              else leading_fraction y (scale * 10) False s)"

definition micro_sign :: string where "micro_sign = byte_string [194, 181]"
definition greek_mu :: string where "greek_mu = byte_string [206, 188]"

definition unit_map :: "string \<rightharpoonup> nat" where
  "unit_map = [''ns'' \<mapsto> 1, ''us'' \<mapsto> 1000, micro_sign @ ''s'' \<mapsto> 1000, greek_mu @ ''s'' \<mapsto> 1000,
     ''ms'' \<mapsto> 1000000, ''s'' \<mapsto> 1000000000, ''m'' \<mapsto> 60000000000, ''h'' \<mapsto> 3600000000000]"

definition time_quote :: "string \<Rightarrow> string" where
  "time_quote s =
     byte_string [34] @
     concat (map (\<lambda>c. let n = (of_char c :: nat) in
       if 128 \<le> n \<or> n < 32 then byte_string [92] @ ''x'' @ [hex_digit (n div 16), hex_digit (n mod 16)]
       else if n = 34 \<or> n = 92 then byte_string [92] @ [c]
       else [c]) s) @
     byte_string [34]"

definition invalid_duration :: "string \<Rightarrow> goerr" where
  "invalid_duration orig = Errorf (''time: invalid duration '' @ time_quote orig)"

definition unit_char :: "char \<Rightarrow> bool" where
  "unit_char c \<longleftrightarrow> c \<noteq> CHR ''.'' \<and> \<not> is_digit c"

text \<open>One number with its unit: its nanoseconds and the rest of the text.\<close>

definition duration_part :: "string \<Rightarrow> string \<Rightarrow> (nat \<times> string) result" where
  "duration_part orig s =
     (if s = [] \<or> unit_char (hd s) then Inl (invalid_duration orig)
      else case leading_int 0 s of
        None \<Rightarrow> Inl (invalid_duration orig)
      | Some (v, s1) \<Rightarrow>
          (let pre = (length s1 \<noteq> length s) in
           case (if s1 \<noteq> [] \<and> hd s1 = CHR ''.''
                 then (case leading_fraction 0 1 False (tl s1) of
                         (f, scale, s2) \<Rightarrow> (f, scale, s2, length s2 \<noteq> length (tl s1)))
                 else (0, 1, s1, False)) of
             (f, scale, s2, post) \<Rightarrow>
               if \<not> pre \<and> \<not> post then Inl (invalid_duration orig)
               else
                 (let u = takeWhile unit_char s2; s3 = dropWhile unit_char s2 in
                  if u = [] then Inl (Errorf (''time: missing unit in duration '' @ time_quote orig))
                  else case unit_map u of
                    None \<Rightarrow> Inl (Errorf (''time: unknown unit '' @ time_quote u @ '' in duration '' @ time_quote orig))
                  | Some unit \<Rightarrow>
                      if 2 ^ 63 div unit < v then Inl (invalid_duration orig)
                      else
                        (let v1 = v * unit;
                             v2 = (if 0 < f
                                   then v1 + nat \<lfloor>fl64 (fl64 (of_nat f) * fl64 (of_nat unit / of_nat scale))\<rfloor>
                                   else v1)
                         in if 0 < f \<and> 2 ^ 63 < v2 then Inl (invalid_duration orig)
                            else Inr (v2, s3)))))"

lemma leading_int_length: "leading_int x s = Some (v, s') \<Longrightarrow> length s' \<le> length s"
  by (induction x s rule: leading_int.induct) (auto simp: Let_def split: if_splits)

lemma leading_fraction_length: "length (snd (snd (leading_fraction x sc o' s))) \<le> length s"
  by (induction s arbitrary: x sc o') (auto simp: Let_def intro: le_SucI)

lemma duration_part_length:
  assumes "duration_part orig s = Inr (v, s')"
  shows "length s' < length s"
proof -
  obtain v0 s1 where s1: "leading_int 0 s = Some (v0, s1)"
    using assms by (auto simp: duration_part_def split: if_splits option.splits)
  define r where "r = (if s1 \<noteq> [] \<and> hd s1 = CHR ''.''
     then (case leading_fraction 0 1 False (tl s1) of
             (f, scale, s2) \<Rightarrow> (f, scale, s2, length s2 \<noteq> length (tl s1)))
     else (0, 1, s1, False))"
  obtain f scale s2 post where r: "r = (f, scale, s2, post)" by (cases r)
  have "length s2 \<le> length s1"
    using r leading_fraction_length [of 0 1 False "tl s1"]
    by (cases s1) (auto simp: r_def split: if_splits prod.splits)
  moreover have "length s1 \<le> length s" by (rule leading_int_length [OF s1])
  moreover have "takeWhile unit_char s2 \<noteq> []" "s' = dropWhile unit_char s2"
    using assms s1 r unfolding duration_part_def r_def
    by (auto simp: Let_def split: if_splits option.splits)
  moreover have "length (takeWhile unit_char s2) + length (dropWhile unit_char s2) = length s2"
    by (metis length_append takeWhile_dropWhile_id)
  ultimately show ?thesis by (cases "takeWhile unit_char s2") auto
qed

function duration_loop :: "string \<Rightarrow> nat \<Rightarrow> string \<Rightarrow> nat result" where
  "duration_loop orig d s =
     (if s = [] then Inr d
      else case duration_part orig s of
        Inl e \<Rightarrow> Inl e
      | Inr (v, s') \<Rightarrow>
          (let d' = (d + v) mod 2 ^ 64
           in if 2 ^ 63 < d' then Inl (invalid_duration orig) else duration_loop orig d' s'))"
  by pat_completeness auto
termination
  by (relation "measure (\<lambda>(_, _, s). length s)") (auto dest: duration_part_length)

declare duration_loop.simps [simp del]

definition parse_duration :: "string \<Rightarrow> duration result" where
  "parse_duration orig =
     (case split_sign orig of (neg, s) \<Rightarrow>
      if s = ''0'' then Inr 0
      else if s = [] then Inl (invalid_duration orig)
      else case duration_loop orig 0 s of
        Inl e \<Rightarrow> Inl e
      | Inr d \<Rightarrow>
          if neg then Inr (wrap64 (- wrap64 (int d)))
          else if 2 ^ 63 - 1 < d then Inl (invalid_duration orig)
          else Inr (int d))"

end
