(* ===== verification/GoFloat.thy ===== *)
theory GoFloat
  imports GoNumbers
begin

text \<open>
  Go's \<open>float64\<close>: IEEE doubles with sign, signed zero, infinities and NaN. Every operation is the exact
  result rounded to the nearest double (\<open>fl64\<close>), with overflow to an infinity.
\<close>

datatype f64 = Fin bool rat | Infinite bool | NotANumber

definition round64 :: "bool \<Rightarrow> rat \<Rightarrow> f64" where
  "round64 neg q = (let r = fl64 q in if 2 ^ 1024 \<le> r then Infinite neg else Fin neg r)"

definition f64_of_int :: "int \<Rightarrow> f64" where
  "f64_of_int n = round64 (n < 0) (of_int \<bar>n\<bar>)"

fun f64_mul :: "f64 \<Rightarrow> f64 \<Rightarrow> f64" where
  "f64_mul (Fin s x) (Fin t y) = round64 (s \<noteq> t) (x * y)"
| "f64_mul (Fin s x) (Infinite t) = (if x = 0 then NotANumber else Infinite (s \<noteq> t))"
| "f64_mul (Infinite s) (Fin t y) = (if y = 0 then NotANumber else Infinite (s \<noteq> t))"
| "f64_mul (Infinite s) (Infinite t) = Infinite (s \<noteq> t)"
| "f64_mul _ _ = NotANumber"

fun f64_div :: "f64 \<Rightarrow> f64 \<Rightarrow> f64" where
  "f64_div (Fin s x) (Fin t y) =
     (if y = 0 then if x = 0 then NotANumber else Infinite (s \<noteq> t) else round64 (s \<noteq> t) (x / y))"
| "f64_div (Fin s x) (Infinite t) = Fin (s \<noteq> t) 0"
| "f64_div (Infinite s) (Fin t y) = Infinite (s \<noteq> t)"
| "f64_div _ _ = NotANumber"

fun f64_negative :: "f64 \<Rightarrow> bool" where
  "f64_negative (Fin s x) \<longleftrightarrow> s \<and> x \<noteq> 0"
| "f64_negative (Infinite s) \<longleftrightarrow> s"
| "f64_negative NotANumber \<longleftrightarrow> False"

fun f64_finite :: "f64 \<Rightarrow> bool" where
  "f64_finite (Fin _ _) \<longleftrightarrow> True"
| "f64_finite _ \<longleftrightarrow> False"

text \<open>The value of a finite double.\<close>

fun f64_val :: "f64 \<Rightarrow> rat" where
  "f64_val (Fin s x) = (if s then - x else x)"
| "f64_val _ = 0"

text \<open>\<open>%.4f\<close>: the exact value rounded to four places, ties to even.\<close>

definition fixed4 :: "rat \<Rightarrow> string" where
  "fixed4 x = (let n = nat (round_even (x * 10000)) in decimal (n div 10000) @ ''.'' @ fmt_04d (n mod 10000))"

fun fmt_4f :: "f64 \<Rightarrow> string" where
  "fmt_4f (Fin s x) = (if s then ''-'' else []) @ fixed4 x"
| "fmt_4f (Infinite s) = (if s then ''-Inf'' else ''+Inf'')"
| "fmt_4f NotANumber = ''NaN''"

section \<open>The rounding error\<close>

lemma bit_len_bounds: "0 < n \<Longrightarrow> 2 ^ (bit_len n - 1) \<le> n \<and> n < 2 ^ bit_len n \<and> 0 < bit_len n"
proof (induction n rule: less_induct)
  case (less n)
  show ?case
  proof (cases "n = 1")
    case True
    then show ?thesis by (simp add: bit_len.simps [of "Suc 0"] bit_len.simps [of 0])
  next
    case False
    with less.prems have half: "0 < n div 2" "n div 2 < n" by auto
    from less.IH [OF half(2,1)] have IH: "2 ^ (bit_len (n div 2) - 1) \<le> n div 2" "n div 2 < 2 ^ bit_len (n div 2)"
      "0 < bit_len (n div 2)" by auto
    have step: "bit_len n = Suc (bit_len (n div 2))" using less.prems by (subst bit_len.simps) simp
    obtain m where m: "bit_len (n div 2) = Suc m" using IH(3) gr0_conv_Suc by blast
    have "2 ^ Suc m \<le> n" using IH(1) by (simp add: m)
    moreover have "n < 2 ^ Suc (Suc m)" using IH(2) by (simp add: m)
    ultimately show ?thesis by (simp add: step m)
  qed
qed

lemma pow2_pos [simp]: "0 < pow2 k"
  by (simp add: pow2_def)

lemma pow2_powr: "real_of_rat (pow2 k) = 2 powr k"
  by (auto simp: pow2_def of_rat_power of_rat_divide powr_realpow powr_minus_divide [symmetric] simp flip: powr_realpow)

lemma pow2_add: "pow2 (j + k) = pow2 j * pow2 k"
proof -
  have "real_of_rat (pow2 (j + k)) = real_of_rat (pow2 j * pow2 k)"
    by (simp add: pow2_powr of_rat_mult powr_add)
  then show ?thesis by simp
qed

lemma pow2_nat: "pow2 (int n) = 2 ^ n"
  by (simp add: pow2_def)

lemma pow2_minus: "pow2 (j - k) = pow2 j / pow2 k"
  using pow2_add [of "j - k" k] by (simp add: field_simps less_imp_neq [OF pow2_pos, symmetric])

lemma pow2_one [simp]: "pow2 1 = 2"
  by (simp add: pow2_def)

lemma ulp_exp_le:
  assumes "pow2 (- 1022) \<le> x"
  shows "pow2 (ulp_exp x) \<le> x * pow2 (- 52)"
proof -
  have pos: "0 < x" using assms pow2_pos [of "- 1022"] by linarith
  obtain p q where pq: "quotient_of x = (p, q)" by fastforce
  have q: "0 < q" and x: "x = of_int p / of_int q"
    using quotient_of_denom_pos [OF pq] quotient_of_div [OF pq] by auto
  with pos have p: "0 < p" by (simp add: zero_less_divide_iff)
  define a b where "a = bit_len (nat p)" and "b = bit_len (nat q)"
  have a: "2 ^ (a - 1) \<le> nat p" "0 < a" and b: "nat q < 2 ^ b"
    using bit_len_bounds [of "nat p"] bit_len_bounds [of "nat q"] p q by (auto simp: a_def b_def)
  have "pow2 (int a - 1) \<le> of_int p"
  proof -
    have "int (2 ^ (a - 1)) \<le> int (nat p)" using a(1) by (rule iffD2 [OF of_nat_le_iff])
    then have "(2 :: int) ^ (a - 1) \<le> p" using p by simp
    then have "(2 :: rat) ^ (a - 1) \<le> of_int p" by (metis of_int_le_iff of_int_numeral of_int_power)
    moreover have "int a - 1 = int (a - 1)" using a(2) by simp
    ultimately show ?thesis by (simp only: pow2_nat)
  qed
  moreover have "of_int q \<le> pow2 (int b)"
  proof -
    have "int (nat q) \<le> int (2 ^ b)" using b by (intro iffD2 [OF of_nat_le_iff]) simp
    then have "q \<le> 2 ^ b" using q by simp
    then have "of_int q \<le> (2 :: rat) ^ b" by (metis of_int_le_iff of_int_numeral of_int_power)
    then show ?thesis by (simp add: pow2_nat)
  qed
  ultimately have "pow2 (int a - 1) / pow2 (int b) \<le> x"
    using q p unfolding x by (intro frac_le) simp_all
  then have low: "pow2 (int a - int b - 1) \<le> x"
    using pow2_minus [of "int a - 1" "int b"] by (simp add: algebra_simps)
  define e where "e = (if pow2 (int a - int b) \<le> x then int a - int b else int a - int b - 1)"
  have "pow2 e \<le> x" using low by (simp add: e_def)
  then have "pow2 (e - 52) \<le> x * pow2 (- 52)"
    using pow2_add [of e "- 52"] pow2_pos [of "- 52"] by simp
  moreover have "pow2 (- 1074) \<le> x * pow2 (- 52)"
    using assms pow2_add [of "- 1022" "- 52"] pow2_pos [of "- 52"] by simp
  moreover have "ulp_exp x = max (e - 52) (- 1074)"
    by (simp add: ulp_exp_def pq a_def b_def e_def Let_def)
  ultimately show ?thesis by (simp add: max_def)
qed

lemma round_even_error: "\<bar>of_int (round_even y) - y\<bar> \<le> 1 / 2"
proof -
  define n where "n = \<lfloor>y\<rfloor>"
  have "of_int n \<le> y" "y < of_int n + 1" unfolding n_def by linarith+
  then show ?thesis unfolding round_even_def Let_def n_def [symmetric] by (auto simp: abs_if)
qed

lemma fl64_error:
  assumes "pow2 (- 1022) \<le> x"
  shows "\<bar>fl64 x - x\<bar> \<le> x * pow2 (- 53)"
proof -
  let ?u = "pow2 (ulp_exp x)"
  have pos: "0 < x" using assms pow2_pos [of "- 1022"] by linarith
  have "fl64 x - x = (of_int (round_even (x / ?u)) - x / ?u) * ?u"
    using pos pow2_pos [of "ulp_exp x"] by (simp add: fl64_def left_diff_distrib less_imp_neq [symmetric])
  then have "\<bar>fl64 x - x\<bar> = \<bar>of_int (round_even (x / ?u)) - x / ?u\<bar> * ?u"
    by (simp add: abs_mult abs_of_pos)
  also have "\<dots> \<le> 1 / 2 * ?u" by (intro mult_right_mono round_even_error) (simp add: less_imp_le)
  also have "\<dots> \<le> x * pow2 (- 53)"
    using ulp_exp_le [OF assms] pow2_minus [of "- 52" 1] by (simp add: mult.assoc)
  finally show ?thesis .
qed

lemma fl64_zero [simp]: "fl64 0 = 0"
  by (simp add: fl64_def)

lemma fl64_nonneg: "0 \<le> x \<Longrightarrow> 0 \<le> fl64 x"
proof (cases "x = 0")
  case False
  assume "0 \<le> x"
  with False have "0 \<le> x / pow2 (ulp_exp x)" by (simp add: less_imp_le)
  then have "0 \<le> round_even (x / pow2 (ulp_exp x))" by (simp add: round_even_def Let_def)
  with \<open>0 \<le> x\<close> False show ?thesis by (simp add: fl64_def less_imp_le)
qed simp

end
