(* ===== verification/Billing.thy ===== *)
theory Billing
  imports GoFloat
begin

text \<open>
  \<open>src/internal/billing/service.go\<close>: a price per thousand invocations and the invoice computed from
  it, in \<open>float64\<close>.
\<close>

record RateCard =
  USDPerThousand :: f64

record Invoice =
  iv_TenantID :: string
  iv_Invocations :: go_int
  iv_USDPerThousand :: f64
  iv_AmountUSD :: f64

definition NewRateCard :: "f64 \<Rightarrow> RateCard result" where
  "NewRateCard usdPerThousand =
     (if f64_negative usdPerThousand then Inl (Errorf ''negative price is invalid'')
      else Inr \<lparr>USDPerThousand = usdPerThousand\<rparr>)"

definition rate_Invoice :: "RateCard \<Rightarrow> string \<Rightarrow> go_int \<Rightarrow> Invoice" where
  "rate_Invoice r tenantID invocations =
     (let amount = f64_mul (f64_div (f64_of_int invocations) (Fin False 1000)) (USDPerThousand r)
      in \<lparr>iv_TenantID = tenantID, iv_Invocations = invocations, iv_USDPerThousand = USDPerThousand r,
          iv_AmountUSD = amount\<rparr>)"

section \<open>The amount of an invoice\<close>

text \<open>One rounded operation in the range where nothing underflows or overflows.\<close>

lemma fl64_relative:
  assumes "pow2 (- 1022) \<le> x"
  shows "x * (1 - pow2 (- 53)) \<le> fl64 x" "fl64 x \<le> x * (1 + pow2 (- 53))"
  using fl64_error [OF assms] by (simp_all add: abs_le_iff algebra_simps)

lemma round64_normal:
  assumes "pow2 (- 1022) \<le> x" and "x \<le> pow2 1000"
  shows "round64 s x = Fin s (fl64 x)"
proof -
  have "fl64 x \<le> x * (1 + pow2 (- 53))" by (rule fl64_relative [OF assms(1)])
  also have "\<dots> \<le> pow2 1000 * 2"
    using assms(2) pow2_pos [of 1000] less_le_trans [OF pow2_pos [of "- 1022"] assms(1)]
    by (intro mult_mono) (simp_all add: pow2_def)
  also have "\<dots> < 2 ^ 1024" by (simp add: pow2_def)
  finally show ?thesis by (simp add: round64_def Let_def)
qed

lemma fl64_between:
  assumes "pow2 (- 1022) \<le> x" and "lo \<le> x" and "x \<le> hi"
  shows "lo * (1 - pow2 (- 53)) \<le> fl64 x" "fl64 x \<le> hi * (1 + pow2 (- 53))"
proof -
  have u: "0 \<le> 1 - pow2 (- 53)" "0 \<le> 1 + pow2 (- 53)" by (simp_all add: pow2_def)
  show "lo * (1 - pow2 (- 53)) \<le> fl64 x"
    using mult_right_mono [OF assms(2) u(1)] fl64_relative(1) [OF assms(1)] by linarith
  show "fl64 x \<le> hi * (1 + pow2 (- 53))"
    using mult_right_mono [OF assms(3) u(2)] fl64_relative(2) [OF assms(1)] by linarith
qed

text \<open>A value well inside the range stays there when it is rounded.\<close>

lemma fl64_inside:
  assumes "lo \<le> x" and "x \<le> hi" and "pow2 (- 1022) \<le> lo"
  shows "lo / 2 \<le> fl64 x" "fl64 x \<le> 2 * hi"
proof -
  have lo: "0 < lo" using assms(3) pow2_pos [of "- 1022"] by linarith
  have u: "lo / 2 \<le> lo * (1 - pow2 (- 53))" "hi * (1 + pow2 (- 53)) \<le> 2 * hi"
    using lo assms(1,2) by (simp_all add: pow2_def)
  with fl64_between [OF order_trans [OF assms(3,1)] assms(1,2)] show "lo / 2 \<le> fl64 x" "fl64 x \<le> 2 * hi" by linarith+
qed

lemma error_cube:
  fixes u v :: rat
  assumes "0 < v" "0 < u" "u \<le> 1 / 16"
  shows "v * (1 + u) * (1 + u) * (1 + u) \<le> v * (1 + 4 * u)" "v * (1 - 4 * u) \<le> v * (1 - u) * (1 - u) * (1 - u)"
proof -
  have u: "u * u \<le> u / 16" "0 \<le> u * u" "u * u * u \<le> u / 256"
    using mult_mono [OF assms(3) order_refl, of u] mult_mono [OF assms(3) assms(3)] mult_mono [of "u * u" "1 / 256" u u] assms by auto
  have "(1 + u) * (1 + u) * (1 + u) = 1 + 3 * u + 3 * (u * u) + u * u * u" by (simp add: algebra_simps)
  also have "\<dots> \<le> 1 + 4 * u" using u assms(2) by linarith
  finally show "v * (1 + u) * (1 + u) * (1 + u) \<le> v * (1 + 4 * u)"
    using assms(1) by (simp add: mult.assoc)
  have "1 - 4 * u \<le> 1 - 3 * u + 3 * (u * u) - u * u * u" using u assms(2) by linarith
  also have "\<dots> = (1 - u) * (1 - u) * (1 - u)" by (simp add: algebra_simps)
  finally show "v * (1 - 4 * u) \<le> v * (1 - u) * (1 - u) * (1 - u)"
    using assms(1) by (simp add: mult.assoc)
qed

lemma amount_range:
  assumes n: "0 < n" "n < 2 ^ 63" and r: "pow2 (- 1000) \<le> r" "r \<le> pow2 900"
  defines "x1 \<equiv> fl64 (of_int n)"
  defines "x2 \<equiv> fl64 (x1 / 1000)"
  shows "pow2 (- 1022) \<le> of_int n" "of_int n \<le> pow2 1000" "pow2 (- 1022) \<le> x1 / 1000" "x1 / 1000 \<le> pow2 1000"
    "pow2 (- 1022) \<le> x2 * r" "x2 * r \<le> pow2 1000"
proof -
  have "n \<le> 2 ^ 63" using n(2) by simp
  then have n1: "(1 :: rat) \<le> of_int n" "of_int n \<le> (2 :: rat) ^ 63"
    using n(1) by (simp, metis of_int_le_iff of_int_numeral of_int_power)
  then show "pow2 (- 1022) \<le> of_int n" "of_int n \<le> pow2 1000"
    using order_trans [OF _ n1(1), of "pow2 (- 1022)"] order_trans [OF n1(2), of "pow2 1000"] by (simp_all add: pow2_def)
  have "1 / 2 \<le> x1" "x1 \<le> 2 * 2 ^ 63"
    using fl64_inside [OF n1] by (simp_all add: x1_def pow2_def)
  then have n2: "1 / 2000 \<le> x1 / 1000" "x1 / 1000 \<le> 2 ^ 64" by simp_all
  then show "pow2 (- 1022) \<le> x1 / 1000" "x1 / 1000 \<le> pow2 1000"
    using order_trans [OF _ n2(1), of "pow2 (- 1022)"] order_trans [OF n2(2), of "pow2 1000"] by (simp_all add: pow2_def)
  have x2: "1 / 4000 \<le> x2" "x2 \<le> 2 ^ 65"
    using fl64_inside [OF n2] by (simp_all add: x2_def pow2_def)
  have "1 / 4000 * pow2 (- 1000) \<le> x2 * r" "x2 * r \<le> 2 ^ 65 * pow2 900"
    using mult_mono [OF x2(1) r(1)] mult_mono [OF x2(2) r(2)] less_le_trans [OF pow2_pos r(1)] x2(1) pow2_pos [of "- 1000"]
    by (simp_all add: less_imp_le)
  then show "pow2 (- 1022) \<le> x2 * r" "x2 * r \<le> pow2 1000"
    using order_trans [of "pow2 (- 1022)" "1 / 4000 * pow2 (- 1000)"] order_trans [of "x2 * r" "2 ^ 65 * pow2 900" "pow2 1000"]
    by (simp_all add: pow2_def)
qed

text \<open>
  C22: An invoice is correct up to rounding. For a positive number of invocations and a price between
  2 to the power -1000 and 2 to the power 900 USD the amount is a finite number that differs from the
  exact product of invocations and price per thousand by at most one part in 2 to the power 51.
\<close>

theorem invoice_amount_accurate:
  assumes n: "0 < n" "n < 2 ^ 63" and r: "pow2 (- 1000) \<le> r" "r \<le> pow2 900"
  shows "\<exists>a. iv_AmountUSD (rate_Invoice \<lparr>USDPerThousand = Fin False r\<rparr> tenant n) = Fin False a
    \<and> \<bar>a - of_int n / 1000 * r\<bar> \<le> of_int n / 1000 * r * pow2 (- 51)"
proof -
  define u where "u = pow2 (- 53)"
  have u: "0 < u" "u \<le> 1 / 16" and u4: "pow2 (- 51) = 4 * u" by (simp_all add: u_def pow2_def)
  have r0: "0 < r" using r(1) pow2_pos [of "- 1000"] by linarith
  define x1 x2 where "x1 = fl64 (of_int n)" and "x2 = fl64 (x1 / 1000)"
  note range = amount_range [OF n r, folded x1_def, folded x2_def]
  let ?v = "of_int n / 1000 * r"
  have v: "0 < ?v" using n(1) r0 by simp
  have "of_int n * (1 - u) \<le> x1" "x1 \<le> of_int n * (1 + u)"
    using fl64_between [OF range(1) order_refl order_refl] by (simp_all add: x1_def u_def)
  then have "of_int n * (1 - u) / 1000 \<le> x1 / 1000" "x1 / 1000 \<le> of_int n * (1 + u) / 1000" by simp_all
  from fl64_between [OF range(3) this]
  have "of_int n * (1 - u) / 1000 * (1 - u) * r \<le> x2 * r" "x2 * r \<le> of_int n * (1 + u) / 1000 * (1 + u) * r"
    using r0 by (simp_all add: x2_def u_def)
  from fl64_between [OF range(5) this]
  have "?v * (1 - u) * (1 - u) * (1 - u) \<le> fl64 (x2 * r)" "fl64 (x2 * r) \<le> ?v * (1 + u) * (1 + u) * (1 + u)"
    by (simp_all add: u_def mult_ac)
  then have "?v * (1 - 4 * u) \<le> fl64 (x2 * r)" "fl64 (x2 * r) \<le> ?v * (1 + 4 * u)"
    using order_trans [OF error_cube(2) [OF v u]] order_trans [OF _ error_cube(1) [OF v u]] by blast+
  then have "\<bar>fl64 (x2 * r) - ?v\<bar> \<le> ?v * (4 * u)" unfolding abs_le_iff right_diff_distrib distrib_left by linarith
  moreover have "iv_AmountUSD (rate_Invoice \<lparr>USDPerThousand = Fin False r\<rparr> tenant n) = Fin False (fl64 (x2 * r))"
    using n(1) round64_normal [OF range(1,2), folded x1_def] round64_normal [OF range(3,4), folded x2_def]
      round64_normal [OF range(5,6)] by (simp add: rate_Invoice_def f64_of_int_def)
  ultimately show ?thesis by (simp add: u4)
qed

theorem invoice_amount_accurate_witness:
  "\<exists>a. iv_AmountUSD (rate_Invoice \<lparr>USDPerThousand = Fin False (1 / 4)\<rparr> ''acme'' 1500) = Fin False a
    \<and> \<bar>a - 3 / 8\<bar> \<le> 3 / 8 * pow2 (- 51)"
  using invoice_amount_accurate [of 1500 "1 / 4" "''acme''"] by (simp add: pow2_def)

end
