(* ===== verification/GoCalendar.thy ===== *)
theory GoCalendar
  imports GoNumbers
begin

text \<open>
  The UTC calendar of Go's package \<open>time\<close>, as far as the monthly billing summary uses it: the year and
  the month of a time, the first moment of a month, \<open>AddDate(0, 1, 0)\<close> on it, and the layout
  \<open>2006-01\<close>. A time counts nanoseconds from 1 January of the year 1, in the proleptic Gregorian calendar.
\<close>

section \<open>Days, months and years\<close>

abbreviation day :: duration where "day \<equiv> 86400000000000"

definition days_before_year :: "int \<Rightarrow> int" where
  "days_before_year y = (let z = y - 1 in 365 * z + z div 4 - z div 100 + z div 400)"

definition leap_year :: "int \<Rightarrow> bool" where
  "leap_year y \<longleftrightarrow> 4 dvd y \<and> (\<not> 100 dvd y \<or> 400 dvd y)"

definition month_lengths :: "int \<Rightarrow> int list" where
  "month_lengths y = [31, if leap_year y then 29 else 28, 31, 30, 31, 30, 31, 31, 30, 31, 30, 31]"

definition days_before_month :: "int \<Rightarrow> nat \<Rightarrow> int" where
  "days_before_month y m = sum_list (take (m - 1) (month_lengths y))"

definition month_start :: "int \<Rightarrow> nat \<Rightarrow> time" where
  "month_start y m = (days_before_year y + days_before_month y m) * day"

definition next_month :: "int \<times> nat \<Rightarrow> int \<times> nat" where
  "next_month ym = (case ym of (y, m) \<Rightarrow> if m = 12 then (y + 1, 1) else (y, m + 1))"

text \<open>The year is estimated from the mean length of a year and corrected by one where needed.\<close>

definition year_of_day :: "int \<Rightarrow> int" where
  "year_of_day d =
     (let y = (400 * d) div 146097 + 1
      in if d < days_before_year y then y - 1
         else if days_before_year (y + 1) \<le> d then y + 1 else y)"

definition month_of_day :: "int \<Rightarrow> int \<Rightarrow> nat" where
  "month_of_day y d =
     length (takeWhile (\<lambda>m. days_before_year y + days_before_month y m \<le> d) [1..<13])"

definition year_month :: "time \<Rightarrow> int \<times> nat" where
  "year_month t = (let d = t div day; y = year_of_day d in (y, month_of_day y d))"

definition in_month :: "int \<times> nat \<Rightarrow> time \<Rightarrow> bool" where
  "in_month ym t \<longleftrightarrow>
     (case (ym, next_month ym) of ((y, m), (y', m')) \<Rightarrow>
        \<not> time_before t (month_start y m) \<and> time_before t (month_start y' m'))"

section \<open>The layout 2006-01\<close>

definition format_month :: "int \<times> nat \<Rightarrow> string" where
  "format_month ym =
     (case ym of (y, m) \<Rightarrow>
        (if y < 0 then ''-'' else []) @ fmt_04d (nat \<bar>y\<bar>) @ ''-'' @ (if m < 10 then ''0'' else []) @ decimal m)"

text \<open>Exactly four digits, a hyphen, two digits, and the month in its range.\<close>

definition parse_month :: "string \<Rightarrow> (int \<times> nat) option" where
  "parse_month s =
     (let y = take 4 s; m = drop 5 s
      in if length s = 7 \<and> list_all is_digit y \<and> s ! 4 = CHR ''-'' \<and> list_all is_digit m
            \<and> 1 \<le> undecimal m \<and> undecimal m \<le> 12
         then Some (int (undecimal y), undecimal m) else None)"

section \<open>Every time lies in exactly one month\<close>

lemma div_bounds:
  fixes x n :: int
  assumes "0 < n"
  shows "n * (x div n) \<le> x" "x < n * (x div n) + n"
  using pos_mod_sign [OF assms, of x] pos_mod_bound [OF assms, of x] mult_div_mod_eq [of n x] by linarith+

lemma div_pred:
  fixes y n :: int
  assumes "0 < n"
  shows "y div n = (y - 1) div n + (if n dvd y then 1 else 0)"
proof (cases "n dvd y")
  case True
  then obtain q where q: "y = n * q" by blast
  have "(y - 1) div n = q - 1"
    by (rule int_div_pos_eq [of _ _ _ "n - 1"]) (use assms q in \<open>auto simp: algebra_simps\<close>)
  with True q assms show ?thesis by simp
next
  case False
  have "0 < y mod n" using False pos_mod_sign [OF assms, of y] by (simp add: dvd_eq_mod_eq_0)
  then have "(y - 1) div n = y div n"
    by (intro int_div_pos_eq [of _ _ _ "y mod n - 1"])
      (use assms pos_mod_bound [OF assms, of y] mult_div_mod_eq [of n y] in linarith)+
  with False show ?thesis by simp
qed

lemma days_before_year_step: "days_before_year (y + 1) = days_before_year y + (if leap_year y then 366 else 365)"
proof -
  define a b c where "a = (y - 1) div 4" and "b = (y - 1) div 100" and "c = (y - 1) div 400"
  obtain P Q R where P: "P = (4 dvd y)" and Q: "Q = (100 dvd y)" and R: "R = (400 dvd y)" by blast
  have "400 dvd y \<Longrightarrow> 100 dvd y" "100 dvd y \<Longrightarrow> 4 dvd y"
    using dvd_trans [of 100 400 y] dvd_trans [of 4 100 y] by simp_all
  then have PQR: "R \<Longrightarrow> Q" "Q \<Longrightarrow> P" by (simp_all add: P Q R)
  have "days_before_year (y + 1) = 365 * y + (a + (if P then 1 else 0)) - (b + (if Q then 1 else 0)) + (c + (if R then 1 else 0))"
    unfolding P Q R a_def b_def c_def div_pred [of 4 y, symmetric, simplified] div_pred [of 100 y, symmetric, simplified]
      div_pred [of 400 y, symmetric, simplified] by (simp add: days_before_year_def)
  also have "\<dots> = 365 * (y - 1) + a - b + c + (if P \<and> (\<not> Q \<or> R) then 366 else 365)"
    using PQR by (cases P; cases Q; cases R) simp_all
  finally show ?thesis
    by (simp add: days_before_year_def leap_year_def a_def b_def c_def Let_def P Q R)
qed

text \<open>The days before a year deviate from the mean by less than two days.\<close>

lemma days_before_year_mean:
  "400 * days_before_year (x + 1) < 146097 * x + 400" "146097 * x - 800 < 400 * days_before_year (x + 1)"
proof -
  define a b c where "a = x div 4" and "b = x div 100" and "c = x div 400"
  have "4 * a \<le> x" "x < 4 * a + 4" "100 * b \<le> x" "x < 100 * b + 100" "400 * c \<le> x" "x < 400 * c + 400"
    unfolding a_def b_def c_def by (rule div_bounds, simp)+
  moreover have "days_before_year (x + 1) = 365 * x + a - b + c" by (simp add: days_before_year_def a_def b_def c_def)
  ultimately show "400 * days_before_year (x + 1) < 146097 * x + 400" "146097 * x - 800 < 400 * days_before_year (x + 1)"
    by linarith+
qed

lemma year_length: "sum_list (month_lengths y) = (if leap_year y then 366 else 365)"
  by (simp add: month_lengths_def)

lemma days_before_year_mono: "y < y' \<Longrightarrow> days_before_year y < days_before_year y'"
proof (induction "nat (y' - y)" arbitrary: y')
  case (Suc n)
  show ?case
  proof (cases "y' = y + 1")
    case True
    then show ?thesis using days_before_year_step [of y] by (simp split: if_splits)
  next
    case False
    with Suc have "days_before_year y < days_before_year (y' - 1)" by simp
    also have "\<dots> < days_before_year y'" using days_before_year_step [of "y' - 1"] by (simp split: if_splits)
    finally show ?thesis .
  qed
qed simp

lemma year_of_day: "days_before_year (year_of_day d) \<le> d" "d < days_before_year (year_of_day d + 1)"
proof -
  define z where "z = (400 * d) div 146097"
  have z: "146097 * z \<le> 400 * d" "400 * d < 146097 * z + 146097"
    unfolding z_def by (rule div_bounds, simp)+
  have lo: "days_before_year z \<le> d" and hi: "d < days_before_year (z + 3)"
    using days_before_year_mean(1) [of "z - 1"] days_before_year_mean(2) [of "z + 2"] z by (simp_all add: add.commute)
  show "days_before_year (year_of_day d) \<le> d" "d < days_before_year (year_of_day d + 1)"
    using lo hi by (auto simp: year_of_day_def Let_def z_def [symmetric] add.assoc)
qed

lemma length_month_lengths: "length (month_lengths y) = 12"
  by (simp add: month_lengths_def)

lemma days_before_month_mono: "m < m' \<Longrightarrow> m' \<le> 13 \<Longrightarrow> 1 \<le> m \<Longrightarrow> days_before_month y m < days_before_month y m'"
proof (induction m' rule: nat_induct)
  case (Suc k)
  have step: "days_before_month y (Suc k) = days_before_month y k + month_lengths y ! (k - 1)"
    using Suc.prems length_month_lengths [of y] by (cases k) (simp_all add: days_before_month_def take_Suc_conv_app_nth)
  have "month_lengths y ! (k - 1) \<in> set (month_lengths y)" using Suc.prems by (intro nth_mem) (simp add: month_lengths_def)
  then have "0 < month_lengths y ! (k - 1)" by (auto simp: month_lengths_def split: if_splits)
  with step Suc show ?case by (cases "m = k") auto
qed simp

lemma days_before_month_ends: "days_before_month y 1 = 0" "days_before_month y 13 = days_before_year (y + 1) - days_before_year y"
  by (simp_all add: days_before_month_def days_before_year_step year_length [symmetric] month_lengths_def)

lemma month_of_day:
  assumes "days_before_year y \<le> d" and "d < days_before_year (y + 1)"
  defines "m \<equiv> month_of_day y d"
  shows "1 \<le> m" "m \<le> 12" "days_before_year y + days_before_month y m \<le> d" "d < days_before_year y + days_before_month y (m + 1)"
proof -
  let ?P = "\<lambda>m. days_before_year y + days_before_month y m \<le> d"
  let ?L = "[1..<13] :: nat list"
  have m: "m = length (takeWhile ?P ?L)" by (simp add: m_def month_of_day_def)
  show m12: "m \<le> 12" using length_takeWhile_le [of ?P ?L] by (simp add: m)
  have "?P 1" using assms(1) days_before_month_ends by simp
  then show m1: "1 \<le> m" unfolding m by (simp add: upt_rec)
  have "takeWhile ?P ?L ! (m - 1) = m"
    using m1 takeWhile_nth [of "m - 1" ?P ?L] m12 unfolding m [symmetric] by simp
  then have "m \<in> set (takeWhile ?P ?L)" 
    using m1 nth_mem [of "m - 1" "takeWhile ?P ?L", folded m] by simp
  then show "?P m" by (blast dest: set_takeWhileD)
  show "d < days_before_year y + days_before_month y (m + 1)"
  proof (cases "m = 12")
    case True
    then show ?thesis using assms(2) days_before_month_ends(2) [of y] by simp
  next
    case False
    then have "length (takeWhile ?P ?L) < length ?L" using m12 unfolding m [symmetric] by simp
    from nth_length_takeWhile [OF this, folded m] show ?thesis using False m12 by simp
  qed
qed

definition valid_month :: "int \<times> nat \<Rightarrow> bool" where
  "valid_month ym \<longleftrightarrow> 1 \<le> snd ym \<and> snd ym \<le> 12"

lemma in_month_days:
  assumes "valid_month (y, m)"
  shows "in_month (y, m) t \<longleftrightarrow> days_before_year y + days_before_month y m \<le> t div day
     \<and> t div day < days_before_year y + days_before_month y (m + 1)"
proof -
  have next_start: "(case next_month (y, m) of (y', m') \<Rightarrow> month_start y' m')
      = (days_before_year y + days_before_month y (m + 1)) * day"
    using assms days_before_month_ends [of y] days_before_month_ends [of "y + 1"]
    by (auto simp: next_month_def month_start_def valid_month_def)
  have "x * day \<le> t \<longleftrightarrow> x \<le> t div day" "t < x * day \<longleftrightarrow> t div day < x" for x
    using div_bounds [of day t] by linarith+
  with next_start show ?thesis
    by (auto simp: in_month_def time_before_def month_start_def split: prod.splits)
qed

lemma in_month_iff:
  assumes "valid_month ym"
  shows "in_month ym t \<longleftrightarrow> year_month t = ym"
proof -
  obtain y m where ym: "ym = (y, m)" by fastforce
  define d where "d = t div day"
  define y' where "y' = year_of_day d"
  note year = year_of_day [of d, folded y'_def]
  note month = month_of_day [OF year]
  have eq: "year_month t = (y', month_of_day y' d)" by (simp add: year_month_def y'_def d_def Let_def)
  have m: "1 \<le> m" "m \<le> 12" using assms by (simp_all add: ym valid_month_def)
  have here: "in_month (y, m) t \<longleftrightarrow> days_before_year y + days_before_month y m \<le> d \<and> d < days_before_year y + days_before_month y (m + 1)"
    using in_month_days assms by (simp add: ym d_def)
  show ?thesis
  proof
    assume "in_month ym t"
    with here ym have d: "days_before_year y + days_before_month y m \<le> d" "d < days_before_year y + days_before_month y (m + 1)" by auto
    have "0 \<le> days_before_month y m" "days_before_month y (m + 1) \<le> days_before_year (y + 1) - days_before_year y"
      using m days_before_month_mono [of 1 m y] days_before_month_mono [of "m + 1" 13 y] days_before_month_ends [of y]
      by (cases "m = 1"; cases "m = 12"; simp)+
    with d have "days_before_year y \<le> d" "d < days_before_year (y + 1)" by linarith+
    then have "y = y'"
      using year days_before_year_mono [of "y + 1" y'] days_before_year_mono [of "y' + 1" y]
      by (cases y y' rule: linorder_cases; cases "y + 1 = y'"; cases "y' + 1 = y"; simp)
    moreover have "m = month_of_day y d"
      using d month m days_before_month_mono [of "m + 1" "month_of_day y d" y] days_before_month_mono [of "month_of_day y d + 1" m y]
      by (cases "m" "month_of_day y d" rule: linorder_cases; cases "m + 1 = month_of_day y d"; cases "month_of_day y d + 1 = m") (simp_all add: \<open>y = y'\<close>)
    ultimately show "year_month t = ym" by (simp add: eq ym)
  next
    assume "year_month t = ym"
    with eq ym month here show "in_month ym t" by simp
  qed
qed

lemma year_month_valid: "valid_month (year_month t)"
  using month_of_day(1,2) [OF year_of_day] by (simp add: year_month_def valid_month_def Let_def)

lemma decimal_length: "n < 10 ^ Suc k \<Longrightarrow> length (decimal n) \<le> Suc k"
proof (induction k arbitrary: n)
  case 0
  then show ?case by (simp add: decimal.simps)
next
  case (Suc k)
  then have "length (decimal (n div 10)) \<le> Suc k" by (intro Suc.IH) (simp add: less_mult_imp_div_less mult.commute)
  then show ?case by (subst decimal.simps) simp
qed

lemma fmt_04d_digits: "list_all is_digit (fmt_04d n)" "n < 10000 \<Longrightarrow> length (fmt_04d n) = 4"
  using decimal_all_digits [of n] decimal_length [of n 3]
  by (auto simp: fmt_04d_def list_all_iff is_digit_def)

lemma two_digits:
  assumes "m < 100"
  shows "length ((if m < 10 then ''0'' else []) @ decimal m) = 2"
    "list_all is_digit ((if m < 10 then ''0'' else []) @ decimal m)" "undecimal ((if m < 10 then ''0'' else []) @ decimal m) = m"
proof -
  show "length ((if m < 10 then ''0'' else []) @ decimal m) = 2"
    using assms by (simp add: decimal.simps [of m] decimal.simps [of "m div 10"])
  show "list_all is_digit ((if m < 10 then ''0'' else []) @ decimal m)"
    using decimal_all_digits [of m] by (simp add: is_digit_def)
  show "undecimal ((if m < 10 then ''0'' else []) @ decimal m) = m"
    using undecimal_zeros [of 1 "decimal m"] by simp
qed

lemma parse_format_month:
  assumes "valid_month (y, m)" and "0 \<le> y" and "y < 10000"
  shows "parse_month (format_month (y, m)) = Some (y, m)"
proof -
  let ?y = "fmt_04d (nat y)" and ?m = "(if m < 10 then ''0'' else []) @ decimal m"
  have m: "1 \<le> m" "m \<le> 12" using assms(1) by (simp_all add: valid_month_def)
  have s: "format_month (y, m) = ?y @ ''-'' @ ?m" using assms(2) by (simp add: format_month_def)
  have y: "length ?y = 4" "list_all is_digit ?y" using fmt_04d_digits [of "nat y"] assms(3) by simp_all
  have parts: "take 4 (?y @ ''-'' @ ?m) = ?y" "drop 5 (?y @ ''-'' @ ?m) = ?m" "(?y @ ''-'' @ ?m) ! 4 = CHR ''-''"
    using y(1) by (simp_all add: nth_append)
  show ?thesis
    unfolding s parse_month_def parts Let_def
    using y m assms(2) two_digits [of m] by simp
qed

end
