(* ===== verification/GoCsv.thy ===== *)
theory GoCsv
  imports GoStrings
begin

text \<open>
  Go's \<open>encoding/csv\<close> writer with its default settings, which the invoice and the audit export use, and
  a reader for the same format (RFC 4180 with newlines) as its specification: what the writer
  writes, the reader reads back.
\<close>

section \<open>The writer\<close>

definition dquote :: char where "dquote = char_of (34 :: nat)"
definition newline :: char where "newline = char_of (10 :: nat)"
definition carriage :: char where "carriage = char_of (13 :: nat)"

definition field_needs_quotes :: "string \<Rightarrow> bool" where
  "field_needs_quotes field \<longleftrightarrow>
     field \<noteq> [] \<and>
     (field = byte_string [92, 46]
      \<or> list_ex (\<lambda>c. c = newline \<or> c = carriage \<or> c = dquote \<or> c = CHR '','') field
      \<or> list_ex (has_prefix field) space_codes)"

definition double_quotes :: "string \<Rightarrow> string" where
  "double_quotes field = concat (map (\<lambda>c. if c = dquote then [c, c] else [c]) field)"

definition csv_field :: "string \<Rightarrow> string" where
  "csv_field field = (if field_needs_quotes field then [dquote] @ double_quotes field @ [dquote] else field)"

fun csv_fields :: "string list \<Rightarrow> string" where
  "csv_fields [] = []"
| "csv_fields [f] = csv_field f"
| "csv_fields (f # g # fs) = csv_field f @ '','' @ csv_fields (g # fs)"

definition csv_row :: "string list \<Rightarrow> string" where
  "csv_row record = csv_fields record @ [newline]"

section \<open>The reader\<close>

datatype csv_mode = Start | Plain | Quoted | QuoteSeen

fun csv_scan :: "csv_mode \<Rightarrow> string \<Rightarrow> string list \<Rightarrow> string list list \<Rightarrow> string \<Rightarrow> string list list option" where
  "csv_scan mode f fs rows [] = (if mode = Start \<and> fs = [] then Some (rev rows) else None)"
| "csv_scan mode f fs rows (c # s) =
     (if mode = Quoted then
        if c = dquote then csv_scan QuoteSeen f fs rows s else csv_scan Quoted (c # f) fs rows s
      else if c = CHR '','' then csv_scan Start [] (rev f # fs) rows s
      else if c = newline then csv_scan Start [] [] (rev (rev f # fs) # rows) s
      else if mode = Start then
        if c = dquote then csv_scan Quoted [] fs rows s else csv_scan Plain [c] fs rows s
      else if mode = QuoteSeen then
        if c = dquote then csv_scan Quoted (c # f) fs rows s else None
      else if c = dquote then None else csv_scan Plain (c # f) fs rows s)"

definition csv_read :: "string \<Rightarrow> string list list option" where
  "csv_read s = csv_scan Start [] [] [] s"

section \<open>Reading back\<close>

lemma special_chars [simp]: "dquote \<noteq> newline" "newline \<noteq> dquote" "CHR '','' \<noteq> dquote" "CHR '','' \<noteq> newline"
  "dquote \<noteq> CHR '',''" "newline \<noteq> CHR '',''"
  by (simp_all add: dquote_def newline_def char_of_def bit_0)

lemma scan_quoted:
  "csv_scan Quoted f fs rows (double_quotes x @ dquote # s) = csv_scan QuoteSeen (rev x @ f) fs rows s"
  by (induction x arbitrary: f) (auto simp: double_quotes_def)

lemma scan_plain:
  assumes "list_all (\<lambda>c. c \<noteq> newline \<and> c \<noteq> dquote \<and> c \<noteq> CHR '','') x"
  shows "csv_scan Plain f fs rows (x @ s) = csv_scan Plain (rev x @ f) fs rows s"
  using assms by (induction x arbitrary: f) auto

lemma scan_field:
  assumes "c = CHR '','' \<or> c = newline"
  shows "csv_scan Start [] fs rows (csv_field x @ c # s) =
    (if c = newline then csv_scan Start [] [] (rev (x # fs) # rows) s else csv_scan Start [] (x # fs) rows s)"
proof (cases "field_needs_quotes x")
  case True
  with assms show ?thesis by (auto simp: csv_field_def scan_quoted)
next
  case False
  show ?thesis
  proof (cases x)
    case Nil
    with assms show ?thesis by (auto simp: csv_field_def field_needs_quotes_def)
  next
    case (Cons a x')
    with False have x: "list_all (\<lambda>c. c \<noteq> newline \<and> c \<noteq> dquote \<and> c \<noteq> CHR '','') (a # x')"
      by (auto simp: field_needs_quotes_def list_all_iff list_ex_iff)
    have "csv_field x @ c # s = a # (x' @ c # s)" using False Cons by (simp add: csv_field_def)
    with x assms show ?thesis
      using scan_plain [of x' "[a]" fs rows "c # s"] by (auto simp: Cons)
  qed
qed

lemma scan_row:
  assumes "xs \<noteq> []"
  shows "csv_scan Start [] fs rows (csv_row xs @ s) = csv_scan Start [] [] ((rev fs @ xs) # rows) s"
  using assms
proof (induction xs arbitrary: fs rule: csv_fields.induct)
  case (2 f)
  then show ?case using scan_field [of newline fs rows f s] by (simp add: csv_row_def)
next
  case (3 f g gs)
  have "csv_row (f # g # gs) @ s = csv_field f @ CHR '','' # (csv_row (g # gs) @ s)" by (simp add: csv_row_def)
  with 3 scan_field [of "CHR '',''" fs rows f "csv_row (g # gs) @ s"] show ?case by simp
qed simp

lemma csv_read_rows:
  assumes "list_all (\<lambda>xs. xs \<noteq> []) rs"
  shows "csv_read (concat (map csv_row rs)) = Some rs"
proof -
  have "csv_scan Start [] [] acc (concat (map csv_row rs)) = Some (rev acc @ rs)" for acc
    using assms by (induction rs arbitrary: acc) (simp_all add: scan_row)
  then show ?thesis by (simp add: csv_read_def)
qed

end
