(* ===== verification/GoJson.thy ===== *)
theory GoJson
  imports GoFloat
begin

text \<open>
  JSON as the program sees it through \<open>encoding/json\<close>: values, and the decoding of an object into a
  struct of scalar fields. A number that is read is its literal; \<open>JFloat\<close> is a \<open>float64\<close> that is
  handed to the encoder. The text of a document (tokens, escapes, number formatting) is below this
  level.
\<close>

datatype jval =
    JNull | JBool bool | JNum string | JFloat f64 | JStr string | JArr "jval list" | JObj "(string \<times> jval) list"

definition JInt :: "int \<Rightarrow> jval" where
  "JInt n = JNum (itoa n)"

text \<open>The encoder refuses infinities and NaN.\<close>

fun encodable :: "jval \<Rightarrow> bool" where
  "encodable (JFloat x) \<longleftrightarrow> f64_finite x"
| "encodable (JArr vs) \<longleftrightarrow> list_all encodable vs"
| "encodable (JObj kvs) \<longleftrightarrow> list_all (\<lambda>kv. encodable (snd kv)) kvs"
| "encodable _ \<longleftrightarrow> True"

section \<open>Numbers\<close>

text \<open>A float literal: sign, digits, fraction, exponent.\<close>

definition take_digits :: "string \<Rightarrow> string \<times> string" where
  "take_digits s = (takeWhile is_digit s, dropWhile is_digit s)"

definition parse_exponent :: "string \<Rightarrow> int option" where
  "parse_exponent s =
     (case s of
        [] \<Rightarrow> Some 0
      | c # cs \<Rightarrow>
          if c = CHR ''e'' \<or> c = CHR ''E'' then
            (case split_sign cs of (neg, ds) \<Rightarrow>
               if ds = [] \<or> \<not> list_all is_digit ds then None
               else Some (if neg then - int (undecimal ds) else int (undecimal ds)))
          else None)"

definition pow10 :: "int \<Rightarrow> rat" where
  "pow10 k = (if 0 \<le> k then 10 ^ nat k else 1 / 10 ^ nat (- k))"

text \<open>\<open>strconv.ParseFloat(lit, 64)\<close>; \<open>None\<close> for a syntax error or a value out of range.\<close>

definition parse_float :: "string \<Rightarrow> f64 option" where
  "parse_float lit =
     (case split_sign lit of (neg, s) \<Rightarrow>
      case take_digits s of (whole, rest) \<Rightarrow>
      case (case rest of c # cs \<Rightarrow> if c = CHR ''.'' then take_digits cs else ([], rest) | [] \<Rightarrow> ([], [])) of (decimals, rest) \<Rightarrow>
      case parse_exponent rest of
        None \<Rightarrow> None
      | Some e \<Rightarrow>
          if whole = [] \<and> decimals = [] then None
          else
            (let x = of_nat (undecimal (whole @ decimals)) * pow10 (e - int (length decimals));
                 v = round64 neg x
             in if f64_finite v then Some v else None))"

section \<open>Structs\<close>

datatype jkind = KString | KInt64 | KFloat64

datatype jscalar = VString string | VInt go_int | VFloat f64

fun kind_name :: "jkind \<Rightarrow> string" where
  "kind_name KString = ''string''"
| "kind_name KInt64 = ''int64''"
| "kind_name KFloat64 = ''float64''"

fun value_name :: "jval \<Rightarrow> string" where
  "value_name JNull = ''null''"
| "value_name (JBool _) = ''bool''"
| "value_name (JNum _) = ''number''"
| "value_name (JFloat _) = ''number''"
| "value_name (JStr _) = ''string''"
| "value_name (JArr _) = ''array''"
| "value_name (JObj _) = ''object''"

text \<open>Names of fields are compared exactly first, then with case folding.\<close>

definition long_s :: string where "long_s = byte_string [197, 191]"

function simple_fold :: "string \<Rightarrow> string" where
  "simple_fold s =
     (case s of
        [] \<Rightarrow> []
      | c # cs \<Rightarrow>
          if has_prefix s kelvin_sign then CHR ''k'' # simple_fold (drop 3 s)
          else if has_prefix s long_s then CHR ''s'' # simple_fold (drop 2 s)
          else lower_char c # simple_fold cs)"
  by pat_completeness auto
termination by (relation "measure length") auto

declare simple_fold.simps [simp del]

definition equal_fold :: "string \<Rightarrow> string \<Rightarrow> bool" where
  "equal_fold s t \<longleftrightarrow> simple_fold s = simple_fold t"

definition find_field :: "(string \<times> jkind) list \<Rightarrow> string \<Rightarrow> (string \<times> jkind) option" where
  "find_field fields key =
     (case find (\<lambda>f. fst f = key) fields of
        Some f \<Rightarrow> Some f
      | None \<Rightarrow> find (\<lambda>f. equal_fold (fst f) key) fields)"

text \<open>The name of a struct type, without its package; a struct type without a name has none.\<close>

definition struct_name :: "string \<Rightarrow> string" where
  "struct_name typ =
     (if has_prefix typ ''struct '' then [] else rev (takeWhile (\<lambda>c. c \<noteq> CHR ''.'') (rev typ)))"

definition field_error :: "string \<Rightarrow> string \<Rightarrow> string \<times> jkind \<Rightarrow> goerr" where
  "field_error nm what f = Errorf (''json: cannot unmarshal '' @ what @ '' into Go struct field '' @ nm @ ''.'' @ fst f
     @ '' of type '' @ kind_name (snd f))"

text \<open>One field: \<open>null\<close> leaves it as it is.\<close>

fun decode_scalar :: "string \<Rightarrow> string \<times> jkind \<Rightarrow> jval \<Rightarrow> jscalar option result" where
  "decode_scalar nm f JNull = Inr None"
| "decode_scalar nm (n, KString) (JStr s) = Inr (Some (VString s))"
| "decode_scalar nm (n, KInt64) (JNum lit) =
     (case atoi lit of
        Some i \<Rightarrow> Inr (Some (VInt i))
      | None \<Rightarrow> Inl (field_error nm (''number '' @ lit) (n, KInt64)))"
| "decode_scalar nm (n, KFloat64) (JNum lit) =
     (case parse_float lit of
        Some x \<Rightarrow> Inr (Some (VFloat x))
      | None \<Rightarrow> Inl (field_error nm (''number '' @ lit) (n, KFloat64)))"
| "decode_scalar nm f v = Inl (field_error nm (value_name v) f)"

text \<open>
  The members of an object in order: unknown names are skipped, a value of the wrong type is
  remembered as the error (the first one) and the decoding goes on.
\<close>

fun decode_members ::
  "string \<Rightarrow> (string \<times> jkind) list \<Rightarrow> (string \<times> jval) list \<Rightarrow> (string \<rightharpoonup> jscalar) \<Rightarrow> goerr option \<Rightarrow> (string \<rightharpoonup> jscalar) \<times> goerr option" where
  "decode_members nm fields [] acc err = (acc, err)"
| "decode_members nm fields ((key, v) # kvs) acc err =
     (case find_field fields key of
        None \<Rightarrow> decode_members nm fields kvs acc err
      | Some f \<Rightarrow>
          (case decode_scalar nm f v of
             Inl e \<Rightarrow> decode_members nm fields kvs acc (case err of None \<Rightarrow> Some e | Some e0 \<Rightarrow> Some e0)
           | Inr None \<Rightarrow> decode_members nm fields kvs acc err
           | Inr (Some x) \<Rightarrow> decode_members nm fields kvs (acc(fst f \<mapsto> x)) err))"

text \<open>\<open>Decode(&req)\<close> of a value that was read, into a struct of the type \<open>typ\<close>.\<close>

definition decode_struct :: "string \<Rightarrow> (string \<times> jkind) list \<Rightarrow> jval \<Rightarrow> (string \<rightharpoonup> jscalar) result" where
  "decode_struct typ fields v =
     (case v of
        JNull \<Rightarrow> Inr Map.empty
      | JObj kvs \<Rightarrow>
          (case decode_members (struct_name typ) fields kvs Map.empty None of
             (acc, None) \<Rightarrow> Inr acc
           | (acc, Some e) \<Rightarrow> Inl e)
      | _ \<Rightarrow> Inl (Errorf (''json: cannot unmarshal '' @ value_name v @ '' into Go value of type '' @ typ)))"

definition get_string :: "(string \<rightharpoonup> jscalar) \<Rightarrow> string \<Rightarrow> string" where
  "get_string m k = (case m k of Some (VString s) \<Rightarrow> s | _ \<Rightarrow> [])"

definition get_int :: "(string \<rightharpoonup> jscalar) \<Rightarrow> string \<Rightarrow> go_int" where
  "get_int m k = (case m k of Some (VInt i) \<Rightarrow> i | _ \<Rightarrow> 0)"

definition get_float :: "(string \<rightharpoonup> jscalar) \<Rightarrow> string \<Rightarrow> f64" where
  "get_float m k = (case m k of Some (VFloat x) \<Rightarrow> x | _ \<Rightarrow> Fin False 0)"

section \<open>What a decoded struct holds\<close>

text \<open>Every field that was set has a value of its declared type.\<close>

definition well_typed :: "(string \<times> jkind) list \<Rightarrow> (string \<rightharpoonup> jscalar) \<Rightarrow> bool" where
  "well_typed fields m \<longleftrightarrow>
     (\<forall>k x. m k = Some x \<longrightarrow> (\<exists>kd. (k, kd) \<in> set fields \<and>
        (case x of VString _ \<Rightarrow> kd = KString | VInt i \<Rightarrow> kd = KInt64 \<and> int64 i | VFloat v \<Rightarrow> kd = KFloat64 \<and> f64_finite v)))"

lemma atoi_int64: "atoi s = Some i \<Longrightarrow> int64 i"
  by (auto simp: atoi_def Let_def split: prod.splits if_splits)

lemma parse_float_finite: "parse_float s = Some x \<Longrightarrow> f64_finite x"
  by (auto simp: parse_float_def Let_def split: prod.splits option.splits if_splits)

lemma find_field_mem: "find_field fields key = Some f \<Longrightarrow> f \<in> set fields"
  by (auto simp: find_field_def find_Some_iff split: option.splits)

lemma decode_scalar_typed:
  assumes "decode_scalar nm (n, kd) v = Inr (Some x)"
  shows "case x of VString _ \<Rightarrow> kd = KString | VInt i \<Rightarrow> kd = KInt64 \<and> int64 i | VFloat y \<Rightarrow> kd = KFloat64 \<and> f64_finite y"
  using assms by (cases kd; cases v) (auto simp: atoi_int64 parse_float_finite split: option.splits)

lemma decode_members_typed:
  assumes "well_typed fields acc"
  shows "well_typed fields (fst (decode_members nm fields kvs acc err))"
  using assms
proof (induction kvs arbitrary: acc err)
  case (Cons kv kvs)
  obtain key v where kv: "kv = (key, v)" by fastforce
  have set: "well_typed fields (acc(n \<mapsto> x))"
    if "find_field fields key = Some (n, kd)" "decode_scalar nm (n, kd) v = Inr (Some x)" for n kd x
    using Cons.prems find_field_mem [OF that(1)] decode_scalar_typed [OF that(2)] by (auto simp: well_typed_def)
  show ?case using Cons.prems by (auto simp: kv intro!: Cons.IH set split: option.split sum.split)
qed simp

lemma decode_struct_typed: "decode_struct typ fields v = Inr m \<Longrightarrow> well_typed fields m"
  using decode_members_typed [of fields Map.empty]
  by (auto simp: decode_struct_def well_typed_def [of fields Map.empty] split: jval.splits prod.splits option.splits)
     (metis fst_conv)

end
