(* ===== verification/Security.thy ===== *)
theory Security
  imports GoErrors
begin

text \<open>
  \<open>src/internal/security/rbac.go\<close>: roles, actions and the policy that maps actions to the roles that
  may perform them. \<open>Action\<close> and \<open>Role\<close> are string types in the source and stay strings here: a
  policy may hold, and a caller may ask about, any string.
\<close>

type_synonym Action = string
type_synonym Role = string

definition ActionRun :: Action where "ActionRun = ''run_manifest''"
definition ActionValidate :: Action where "ActionValidate = ''validate_manifest''"
definition ActionReplay :: Action where "ActionReplay = ''replay_trace''"
definition ActionAdmin :: Action where "ActionAdmin = ''admin''"

definition RoleViewer :: Role where "RoleViewer = ''viewer''"
definition RoleOperator :: Role where "RoleOperator = ''operator''"
definition RoleAdmin :: Role where "RoleAdmin = ''admin''"

lemmas role_names = RoleViewer_def RoleOperator_def RoleAdmin_def
lemmas action_names = ActionRun_def ActionValidate_def ActionReplay_def ActionAdmin_def

record Policy =
  pol_allowed :: "Action \<rightharpoonup> Role set"

text \<open>The loop of \<open>NewPolicy\<close> writes every key once, so the order of iteration does not matter.\<close>

definition NewPolicy :: "(Action \<rightharpoonup> Role list) \<Rightarrow> Policy" where
  "NewPolicy allowed = \<lparr>pol_allowed = (\<lambda>act. map_option set (allowed act))\<rparr>"

definition DefaultPolicy :: Policy where
  "DefaultPolicy = NewPolicy
     [ActionRun \<mapsto> [RoleOperator, RoleAdmin],
      ActionValidate \<mapsto> [RoleViewer, RoleOperator, RoleAdmin],
      ActionReplay \<mapsto> [RoleOperator, RoleAdmin],
      ActionAdmin \<mapsto> [RoleAdmin]]"

definition IsAllowed :: "Policy \<Rightarrow> Role \<Rightarrow> Action \<Rightarrow> bool" where
  "IsAllowed p role action =
     (case pol_allowed p action of None \<Rightarrow> False | Some roles \<Rightarrow> role \<in> roles)"

definition ParseRole :: "string \<Rightarrow> Role result" where
  "ParseRole raw =
     (let s = to_lower (trim_space raw)
      in if s = RoleViewer \<or> s = RoleOperator \<or> s = RoleAdmin then Inr s
         else Inl (Errorf (''unknown role: '' @ fmt_q raw)))"

fun parse_roles_loop :: "string list \<Rightarrow> Role list \<Rightarrow> Role list result" where
  "parse_roles_loop [] roles = Inr roles"
| "parse_roles_loop (r # rs) roles =
     (case ParseRole r of
        Inl e \<Rightarrow> Inl e
      | Inr role \<Rightarrow> parse_roles_loop rs (roles @ [role]))"

definition ParseRoles :: "string list \<Rightarrow> Role list result" where
  "ParseRoles raw = parse_roles_loop raw []"

section \<open>Facts\<close>

definition known_role :: "Role \<Rightarrow> bool" where
  "known_role r \<longleftrightarrow> r = RoleViewer \<or> r = RoleOperator \<or> r = RoleAdmin"

lemma ParseRole_known: "ParseRole raw = Inr r \<Longrightarrow> known_role r"
  by (auto simp: ParseRole_def known_role_def Let_def split: if_splits)

lemma known_role_plain:
  assumes "known_role r"
  shows "trim_space r = r" and "to_lower r = r"
proof -
  have r: "r = ''viewer'' \<or> r = ''operator'' \<or> r = ''admin''"
    using assms by (simp add: known_role_def role_names)
  then have "graphic (hd r) \<and> graphic (last r)" by (elim disjE) (simp_all add: graphic_def)
  then show "trim_space r = r" by (simp add: trim_space_graphic)
  have "ascii r \<and> map lower_char r = r" using r by (elim disjE) (simp_all add: ascii_def lower_char_def)
  then show "to_lower r = r" by (simp add: to_lower_ascii)
qed

lemma ParseRole_fixed: "known_role r \<Longrightarrow> ParseRole r = Inr r"
  by (simp add: ParseRole_def known_role_plain flip: known_role_def)

lemma parse_roles_loop_ok:
  "(\<forall>r \<in> set raw. \<exists>role. ParseRole r = Inr role) \<Longrightarrow>
   parse_roles_loop raw roles = Inr (roles @ map (\<lambda>r. projr (ParseRole r)) raw)"
  by (induction raw arbitrary: roles) auto

lemma ParseRoles_ok:
  "(\<forall>r \<in> set raw. \<exists>role. ParseRole r = Inr role) \<Longrightarrow>
   ParseRoles raw = Inr (map (\<lambda>r. projr (ParseRole r)) raw)"
  by (simp add: ParseRoles_def parse_roles_loop_ok)

lemma ParseRoles_known: "ParseRoles raw = Inr roles \<Longrightarrow> r \<in> set roles \<Longrightarrow> known_role r"
proof -
  have "\<forall>r \<in> set roles. known_role r"
    if "parse_roles_loop raw acc = Inr roles" "\<forall>r \<in> set acc. known_role r" for acc
    using that
  proof (induction raw arbitrary: acc)
    case (Cons x raw)
    from Cons.prems(1) obtain role where "ParseRole x = Inr role" "parse_roles_loop raw (acc @ [role]) = Inr roles"
      by (auto split: sum.splits)
    with Cons.IH [of "acc @ [role]"] Cons.prems(2) ParseRole_known show ?case by auto
  qed simp
  then show "ParseRoles raw = Inr roles \<Longrightarrow> r \<in> set roles \<Longrightarrow> known_role r"
    by (simp add: ParseRoles_def)
qed

text \<open>
  The default policy grants nothing to an unknown role and nothing for an unknown action, the
  roles form a hierarchy (what a viewer may do an operator may, what an operator may do an admin
  may), an admin may do everything the program knows, and only an admin may administer.
\<close>

theorem default_policy_hierarchy:
  "(\<not> known_role r \<longrightarrow> \<not> IsAllowed DefaultPolicy r a)
   \<and> (a \<notin> {ActionRun, ActionValidate, ActionReplay, ActionAdmin} \<longrightarrow> \<not> IsAllowed DefaultPolicy r a)
   \<and> (IsAllowed DefaultPolicy RoleViewer a \<longrightarrow> IsAllowed DefaultPolicy RoleOperator a)
   \<and> (IsAllowed DefaultPolicy RoleOperator a \<longrightarrow> IsAllowed DefaultPolicy RoleAdmin a)
   \<and> (a \<in> {ActionRun, ActionValidate, ActionReplay, ActionAdmin} \<longrightarrow> IsAllowed DefaultPolicy RoleAdmin a)
   \<and> (IsAllowed DefaultPolicy r ActionAdmin \<longleftrightarrow> r = RoleAdmin)"
  by (auto simp: IsAllowed_def DefaultPolicy_def NewPolicy_def known_role_def action_names role_names)

theorem default_policy_hierarchy_witness:
  "\<not> IsAllowed DefaultPolicy ''root'' ActionRun \<and> \<not> IsAllowed DefaultPolicy RoleOperator ActionAdmin
   \<and> IsAllowed DefaultPolicy RoleAdmin ActionRun"
proof -
  have "\<not> known_role ''root''" by (simp add: known_role_def role_names)
  with default_policy_hierarchy [of "''root''" ActionRun] default_policy_hierarchy [of RoleOperator ActionAdmin]
  show ?thesis by (simp add: role_names)
qed

end
