(* ===== verification/ControlPlane.thy ===== *)
theory ControlPlane
  imports Billing GoCalendar GoCsv GoJson Security
begin

text \<open>
  \<open>src/internal/controlplane/service.go\<close>: the control plane keeps tenants, their usage and the price,
  and serves them over HTTP. Every method of the service runs under its mutex, so the requests of a
  history take effect one after the other; \<open>now\<close> is the time at which a request is handled.

  A request is what \<open>net/http\<close> hands to a handler: method, path, header and query lookups (empty when
  absent) and the JSON value the body holds, or the error of reading it. A handler that panics
  sends no response: \<open>None\<close>.
\<close>

section \<open>The service\<close>

record usageEvent =
  ue_TenantID :: string
  ue_Invocations :: go_int
  ue_OccurredAt :: time

record usageRow =
  ur_TenantID :: string
  ur_Invocations :: go_int

record billSummaryRow =
  bs_TenantID :: string
  bs_Invocations :: go_int

record Service =
  sv_tenants :: "string set"
  sv_usage :: "(string, go_int) mapping"
  sv_usageEvent :: "usageEvent list"
  sv_rate :: RateCard
  sv_started :: time
  sv_reqs :: go_int

definition NewService :: "time \<Rightarrow> Service" where
  "NewService now =
     \<lparr>sv_tenants = {}, sv_usage = Mapping.empty, sv_usageEvent = [],
      sv_rate = (case NewRateCard (Fin False 1) of Inr r \<Rightarrow> r | Inl _ \<Rightarrow> \<lparr>USDPerThousand = Fin False 0\<rparr>),
      sv_started = now, sv_reqs = 0\<rparr>"

definition AddTenant :: "string \<Rightarrow> Service \<Rightarrow> goerr option \<times> Service" where
  "AddTenant tid s =
     (if tid = [] then (Some (Errorf ''tenant id is empty''), s)
      else if tid \<in> sv_tenants s then (Some (Errorf (''tenant '' @ fmt_q tid @ '' already exists'')), s)
      else (None, s\<lparr>sv_tenants := insert tid (sv_tenants s)\<rparr>))"

definition ListTenants :: "Service \<Rightarrow> string list" where
  "ListTenants s = sorted_list_of_set (sv_tenants s)"

definition usage_get :: "(string, go_int) mapping \<Rightarrow> string \<Rightarrow> go_int" where
  "usage_get m tid = (case Mapping.lookup m tid of None \<Rightarrow> 0 | Some n \<Rightarrow> n)"

definition usage_add :: "string \<Rightarrow> go_int \<Rightarrow> (string, go_int) mapping \<Rightarrow> (string, go_int) mapping" where
  "usage_add tid n m = Mapping.update tid (wrap64 (usage_get m tid + n)) m"

definition AddUsageAt :: "string \<Rightarrow> go_int \<Rightarrow> time \<Rightarrow> Service \<Rightarrow> goerr option \<times> Service" where
  "AddUsageAt tenantID invocations ts s =
     (if tenantID = [] then (Some (Errorf ''tenant id is empty''), s)
      else if invocations \<le> 0 then (Some (Errorf ''invocations must be > 0''), s)
      else if tenantID \<notin> sv_tenants s then (Some (Errorf (''tenant '' @ fmt_q tenantID @ '' not found'')), s)
      else (None, s\<lparr>sv_usage := usage_add tenantID invocations (sv_usage s),
              sv_usageEvent := sv_usageEvent s @ [\<lparr>ue_TenantID = tenantID, ue_Invocations = invocations, ue_OccurredAt = ts\<rparr>]\<rparr>))"

definition AddUsage :: "string \<Rightarrow> go_int \<Rightarrow> time \<Rightarrow> Service \<Rightarrow> goerr option \<times> Service" where
  "AddUsage tenantID invocations now s = AddUsageAt tenantID invocations now s"

definition Usage :: "string \<Rightarrow> Service \<Rightarrow> go_int" where
  "Usage tenantID s = usage_get (sv_usage s) tenantID"

text \<open>The filter of a listing: a substring, ignoring case.\<close>

definition matches_query :: "string \<Rightarrow> string \<Rightarrow> bool" where
  "matches_query query tid \<longleftrightarrow> \<not> (query \<noteq> [] \<and> \<not> str_contains (to_lower tid) (to_lower query))"

definition UsageRows :: "string \<Rightarrow> Service \<Rightarrow> usageRow list" where
  "UsageRows query s =
     map (\<lambda>tid. \<lparr>ur_TenantID = tid, ur_Invocations = usage_get (sv_usage s) tid\<rparr>)
       (filter (matches_query query) (Mapping.ordered_keys (sv_usage s)))"

definition SetRate :: "f64 \<Rightarrow> Service \<Rightarrow> goerr option \<times> Service" where
  "SetRate usdPerThousand s =
     (case NewRateCard usdPerThousand of
        Inl err \<Rightarrow> (Some err, s)
      | Inr rate \<Rightarrow> (None, s\<lparr>sv_rate := rate\<rparr>))"

definition service_Invoice :: "string \<Rightarrow> Service \<Rightarrow> Invoice" where
  "service_Invoice tenantID s = rate_Invoice (sv_rate s) tenantID (usage_get (sv_usage s) tenantID)"

definition parseMonthStart :: "string \<Rightarrow> time \<Rightarrow> (int \<times> nat) result" where
  "parseMonthStart month now =
     (if month = [] then Inr (year_month now)
      else
        (case parse_month month of
           Some ym \<Rightarrow> Inr ym
         | None \<Rightarrow> Inl (Errorf ''invalid month format, expected YYYY-MM'')))"

text \<open>The totals of the events of one month.\<close>

definition month_totals :: "int \<times> nat \<Rightarrow> usageEvent list \<Rightarrow> (string, go_int) mapping" where
  "month_totals ym evs =
     foldl (\<lambda>totals ev. if in_month ym (ue_OccurredAt ev) then usage_add (ue_TenantID ev) (ue_Invocations ev) totals else totals)
       Mapping.empty evs"

definition MonthlyUsageRows :: "string \<Rightarrow> time \<Rightarrow> Service \<Rightarrow> (billSummaryRow list \<times> string) result" where
  "MonthlyUsageRows month now s =
     (case parseMonthStart month now of
        Inl err \<Rightarrow> Inl err
      | Inr ym \<Rightarrow>
          (let totals = month_totals ym (sv_usageEvent s)
           in Inr (map (\<lambda>tid. \<lparr>bs_TenantID = tid, bs_Invocations = usage_get totals tid\<rparr>) (Mapping.ordered_keys totals),
                   format_month ym)))"

section \<open>Pagination and CSV\<close>

definition parsePagination :: "string \<Rightarrow> string \<Rightarrow> go_int \<times> go_int" where
  "parsePagination pageRaw sizeRaw =
     ((case atoi (trim_space pageRaw) of Some p \<Rightarrow> if 0 < p then p else 1 | None \<Rightarrow> 1),
      (case atoi (trim_space sizeRaw) of Some n \<Rightarrow> if 0 < n then min n 200 else 50 | None \<Rightarrow> 50))"

text \<open>
  \<open>paginateStrings\<close> and \<open>paginateUsageRows\<close> have the same body; a slice with a bad bound panics.
\<close>

definition slice :: "'a list \<Rightarrow> go_int \<Rightarrow> go_int \<Rightarrow> 'a list option" where
  "slice xs i j = (if 0 \<le> i \<and> i \<le> j \<and> j \<le> int (length xs) then Some (take (nat (j - i)) (drop (nat i) xs)) else None)"

definition paginate :: "'a list \<Rightarrow> go_int \<Rightarrow> go_int \<Rightarrow> 'a list option" where
  "paginate xs page pageSize =
     (let start = wrap64 ((page - 1) * pageSize)
      in if int (length xs) \<le> start then Some []
         else let stop = wrap64 (start + pageSize);
                  stop = (if int (length xs) < stop then int (length xs) else stop)
              in slice xs start stop)"

definition paginateStrings :: "string list \<Rightarrow> go_int \<Rightarrow> go_int \<Rightarrow> string list option" where
  "paginateStrings = paginate"

definition paginateUsageRows :: "usageRow list \<Rightarrow> go_int \<Rightarrow> go_int \<Rightarrow> usageRow list option" where
  "paginateUsageRows = paginate"

definition invoice_record :: "Invoice \<Rightarrow> string list" where
  "invoice_record iv = [iv_TenantID iv, itoa (iv_Invocations iv), fmt_4f (iv_USDPerThousand iv), fmt_4f (iv_AmountUSD iv)]"

definition invoiceCSV :: "Invoice \<Rightarrow> bytes" where
  "invoiceCSV iv =
     csv_row [''tenant_id'', ''invocations'', ''usd_per_thousand'', ''amount_usd''] @ csv_row (invoice_record iv)"

section \<open>HTTP\<close>

record request =
  rq_Method :: string
  rq_Path :: string
  rq_Header :: "string \<Rightarrow> string"
  rq_Query :: "string \<Rightarrow> string"
  rq_Body :: "jval result"

datatype body = Text string | Json jval

record response =
  rs_Status :: nat
  rs_ContentType :: string
  rs_Body :: body

definition http_Error :: "string \<Rightarrow> nat \<Rightarrow> response" where
  "http_Error msg code = \<lparr>rs_Status = code, rs_ContentType = ''text/plain; charset=utf-8'', rs_Body = Text (msg @ [newline])\<rparr>"

definition status_only :: "nat \<Rightarrow> response" where
  "status_only code = \<lparr>rs_Status = code, rs_ContentType = [], rs_Body = Text []\<rparr>"

definition plain_text :: "string \<Rightarrow> response" where
  "plain_text msg = \<lparr>rs_Status = 200, rs_ContentType = ''text/plain; charset=utf-8'', rs_Body = Text msg\<rparr>"

text \<open>The error of the encoder is dropped; nothing is written then.\<close>

definition writeJSON :: "jval \<Rightarrow> response" where
  "writeJSON v = \<lparr>rs_Status = 200, rs_ContentType = ''application/json'', rs_Body = (if encodable v then Json v else Text [])\<rparr>"

definition requireAPIKey :: "string \<Rightarrow> request \<Rightarrow> response option" where
  "requireAPIKey apiKey r =
     (if apiKey = [] then None
      else
        (let provided = trim_space (rq_Header r ''X-API-Key'');
             authz = trim_space (rq_Header r ''Authorization'');
             provided = (if provided = [] \<and> has_prefix authz ''Bearer '' then trim_space (trim_prefix authz ''Bearer '') else provided)
         in if provided \<noteq> apiKey then Some (http_Error ''unauthorized'' 401) else None))"

definition requireAdmin :: "request \<Rightarrow> response option" where
  "requireAdmin r =
     (let role = (case ParseRole (rq_Header r ''X-Role'') of Inr role \<Rightarrow> role | Inl _ \<Rightarrow> RoleViewer)
      in if IsAllowed DefaultPolicy role ActionAdmin then None else Some (http_Error ''rbac denied'' 403))"

type_synonym handler = "Service \<Rightarrow> request \<Rightarrow> time \<Rightarrow> response option \<times> Service"

definition count_request :: "Service \<Rightarrow> Service" where
  "count_request s = s\<lparr>sv_reqs := wrap64 (sv_reqs s + 1)\<rparr>"

definition uptime_seconds :: "duration \<Rightarrow> go_int" where
  "uptime_seconds d =
     (let a = \<bar>d\<bar>; v = \<lfloor>fl64 (of_int (a div second) + fl64 (of_int (a mod second) / 1000000000))\<rfloor>
      in if d < 0 then - v else v)"

definition handle_healthz :: handler where
  "handle_healthz s r now = (Some (plain_text ''ok''), count_request s)"

definition handle_readyz :: handler where
  "handle_readyz s r now = (Some (plain_text ''ready''), count_request s)"

definition handle_sla :: handler where
  "handle_sla s r now =
     (let s = count_request s
      in (Some (writeJSON (JObj [(''slo_target'', JStr ''99.9%''), (''total_requests'', JInt (sv_reqs s)),
             (''uptime_seconds'', JInt (uptime_seconds (time_sub now (sv_started s))))])), s))"

definition method_not_allowed :: response where
  "method_not_allowed = http_Error ''method not allowed'' 405"

text \<open>The two guards of a write: the body, then the operation; the status on success.\<close>

definition admin_post ::
  "string \<Rightarrow> (string \<times> jkind) list \<Rightarrow> ((string \<rightharpoonup> jscalar) \<Rightarrow> Service \<Rightarrow> goerr option \<times> Service) \<Rightarrow> nat
   \<Rightarrow> Service \<Rightarrow> request \<Rightarrow> response option \<times> Service" where
  "admin_post typ flds f code s r =
     (case requireAdmin r of
        Some denied \<Rightarrow> (Some denied, s)
      | None \<Rightarrow>
          (case (case rq_Body r of Inl e \<Rightarrow> Inl e | Inr v \<Rightarrow> decode_struct typ flds v) of
             Inl err \<Rightarrow> (Some (http_Error (err_text err) 400), s)
           | Inr req \<Rightarrow>
               (case f req s of
                  (Some err, s) \<Rightarrow> (Some (http_Error (err_text err) 400), s)
                | (None, s) \<Rightarrow> (Some (status_only code), s))))"

definition tenant_request_type :: string where
  "tenant_request_type = ''struct { ID string '' @ fmt_q (''json:'' @ fmt_q ''id'') @ '' }''"

definition handle_tenants :: "string \<Rightarrow> handler" where
  "handle_tenants apiKey s r now =
     (let s = count_request s in
      case requireAPIKey apiKey r of
        Some denied \<Rightarrow> (Some denied, s)
      | None \<Rightarrow>
          if rq_Method r = ''GET'' then
            (let q = trim_space (rq_Query r ''q'');
                 filtered = filter (matches_query q) (ListTenants s)
             in case parsePagination (rq_Query r ''page'') (rq_Query r ''page_size'') of (page, pageSize) \<Rightarrow>
                (map_option (\<lambda>shown. writeJSON (JObj [(''page'', JInt page), (''page_size'', JInt pageSize),
                     (''tenants'', JArr (map JStr shown)), (''total'', JInt (int (length filtered)))]))
                   (paginateStrings filtered page pageSize), s))
          else if rq_Method r = ''POST'' then
            admin_post tenant_request_type [(''id'', KString)] (\<lambda>req. AddTenant (get_string req ''id'')) 201 s r
          else (Some method_not_allowed, s))"

definition usage_request_type :: string where
  "usage_request_type = ''struct { TenantID string '' @ fmt_q (''json:'' @ fmt_q ''tenant_id'')
     @ ''; Invocations int64 '' @ fmt_q (''json:'' @ fmt_q ''invocations'') @ '' }''"

definition usage_row_json :: "usageRow \<Rightarrow> jval" where
  "usage_row_json row = JObj [(''tenant_id'', JStr (ur_TenantID row)), (''invocations'', JInt (ur_Invocations row))]"

definition handle_usage :: "string \<Rightarrow> handler" where
  "handle_usage apiKey s r now =
     (let s = count_request s in
      case requireAPIKey apiKey r of
        Some denied \<Rightarrow> (Some denied, s)
      | None \<Rightarrow>
          if rq_Method r = ''GET'' then
            (let tenantID = trim_space (rq_Query r ''tenant_id'') in
             if tenantID \<noteq> [] then
               (Some (writeJSON (JObj [(''invocations'', JInt (Usage tenantID s)), (''tenant_id'', JStr tenantID)])), s)
             else
               (let rows = UsageRows (trim_space (rq_Query r ''q'')) s
                in case parsePagination (rq_Query r ''page'') (rq_Query r ''page_size'') of (page, pageSize) \<Rightarrow>
                   (map_option (\<lambda>shown. writeJSON (JObj [(''items'', JArr (map usage_row_json shown)), (''page'', JInt page),
                        (''page_size'', JInt pageSize), (''total'', JInt (int (length rows)))]))
                      (paginateUsageRows rows page pageSize), s)))
          else if rq_Method r = ''POST'' then
            admin_post usage_request_type [(''tenant_id'', KString), (''invocations'', KInt64)]
              (\<lambda>req. AddUsage (get_string req ''tenant_id'') (get_int req ''invocations'') now) 202 s r
          else (Some method_not_allowed, s))"

definition rate_request_type :: string where
  "rate_request_type = ''struct { USDPerThousand float64 '' @ fmt_q (''json:'' @ fmt_q ''usd_per_thousand'') @ '' }''"

definition handle_rates :: "string \<Rightarrow> handler" where
  "handle_rates apiKey s r now =
     (let s = count_request s in
      case requireAPIKey apiKey r of
        Some denied \<Rightarrow> (Some denied, s)
      | None \<Rightarrow>
          if rq_Method r = ''GET'' then
            (Some (writeJSON (JObj [(''usd_per_thousand'', JFloat (USDPerThousand (sv_rate s)))])), s)
          else if rq_Method r = ''POST'' then
            admin_post rate_request_type [(''usd_per_thousand'', KFloat64)]
              (\<lambda>req. SetRate (get_float req ''usd_per_thousand'')) 202 s r
          else (Some method_not_allowed, s))"

definition invoice_json :: "Invoice \<Rightarrow> jval" where
  "invoice_json iv = JObj [(''tenant_id'', JStr (iv_TenantID iv)), (''invocations'', JInt (iv_Invocations iv)),
     (''usd_per_thousand'', JFloat (iv_USDPerThousand iv)), (''amount_usd'', JFloat (iv_AmountUSD iv))]"

definition handle_invoice :: "string \<Rightarrow> handler" where
  "handle_invoice apiKey s r now =
     (let s = count_request s in
      case requireAPIKey apiKey r of
        Some denied \<Rightarrow> (Some denied, s)
      | None \<Rightarrow>
          if rq_Method r \<noteq> ''GET'' then (Some method_not_allowed, s)
          else
            (let invoice = service_Invoice (trim_space (rq_Query r ''tenant_id'')) s
             in if equal_fold (trim_space (rq_Query r ''format'')) ''csv''
                then (Some \<lparr>rs_Status = 200, rs_ContentType = ''text/csv'', rs_Body = Text (invoiceCSV invoice)\<rparr>, s)
                else (Some (writeJSON (invoice_json invoice)), s)))"

definition summary_row_json :: "billSummaryRow \<Rightarrow> jval" where
  "summary_row_json row = JObj [(''tenant_id'', JStr (bs_TenantID row)), (''invocations'', JInt (bs_Invocations row))]"

definition grand_total :: "billSummaryRow list \<Rightarrow> go_int" where
  "grand_total rows = foldl (\<lambda>grand row. wrap64 (grand + bs_Invocations row)) 0 rows"

definition handle_summary :: "string \<Rightarrow> handler" where
  "handle_summary apiKey s r now =
     (let s = count_request s in
      case requireAPIKey apiKey r of
        Some denied \<Rightarrow> (Some denied, s)
      | None \<Rightarrow>
          if rq_Method r \<noteq> ''GET'' then (Some method_not_allowed, s)
          else
            (case MonthlyUsageRows (trim_space (rq_Query r ''month'')) now s of
               Inl err \<Rightarrow> (Some (http_Error (err_text err) 400), s)
             | Inr (rows, month) \<Rightarrow>
                 (Some (writeJSON (JObj [(''grand_total_invocations'', JInt (grand_total rows)), (''month'', JStr month),
                     (''totals'', JArr (map summary_row_json rows))])), s)))"

text \<open>Every route is registered twice, with and without the version prefix.\<close>

definition register :: "string \<Rightarrow> handler \<Rightarrow> (string \<times> handler) list" where
  "register path h = [(path, h), (''/v1'' @ path, h)]"

definition mux :: "string \<Rightarrow> (string \<times> handler) list" where
  "mux apiKey =
     register ''/healthz'' handle_healthz @ register ''/readyz'' handle_readyz @ register ''/sla'' handle_sla
     @ register ''/tenants'' (handle_tenants apiKey) @ register ''/usage'' (handle_usage apiKey)
     @ register ''/billing/rates'' (handle_rates apiKey) @ register ''/billing/invoice'' (handle_invoice apiKey)
     @ register ''/billing/summary'' (handle_summary apiKey)"

definition Handler :: "(string \<Rightarrow> string) \<Rightarrow> handler" where
  "Handler getenv s r now =
     (case map_of (mux (trim_space (getenv ''CONTROLPLANE_API_KEY''))) (rq_Path r) of
        Some h \<Rightarrow> h s r now
      | None \<Rightarrow> (Some (http_Error ''404 page not found'' 404), s))"

end
