(* ===== verification/ControlPlaneProps.thy ===== *)
theory ControlPlaneProps
  imports ControlPlane
begin

text \<open>
  What the control plane guarantees over any sequence of requests: the books balance, only an
  administrator with the key changes them, a month's summary counts exactly the events of the
  month, and listings are pages of the full list.
\<close>

section \<open>Sequences of requests\<close>

fun serve :: "(string \<Rightarrow> string) \<Rightarrow> (request \<times> time) list \<Rightarrow> Service \<Rightarrow> response option list \<times> Service" where
  "serve getenv [] s = ([], s)"
| "serve getenv ((r, now) # rs) s =
     (case Handler getenv s r now of (resp, s) \<Rightarrow>
      case serve getenv rs s of (resps, s) \<Rightarrow> (resp # resps, s))"

text \<open>What a request may do to the books.\<close>

inductive books_step :: "Service \<Rightarrow> Service \<Rightarrow> bool" where
  keep: "books_step s s"
| tenant: "AddTenant tid s = (None, s') \<Longrightarrow> books_step s s'"
| used: "AddUsageAt tid n ts s = (None, s') \<Longrightarrow> int64 n \<Longrightarrow> books_step s s'"
| priced: "SetRate x s = (None, s') \<Longrightarrow> f64_finite x \<Longrightarrow> books_step s s'"

lemma AddTenant_err: "AddTenant tid s = (Some e, s') \<Longrightarrow> s' = s"
  by (auto simp: AddTenant_def split: if_splits)

lemma AddUsageAt_err: "AddUsageAt tid n ts s = (Some e, s') \<Longrightarrow> s' = s"
  by (auto simp: AddUsageAt_def split: if_splits)

lemma SetRate_err: "SetRate x s = (Some e, s') \<Longrightarrow> s' = s"
  by (auto simp: SetRate_def split: sum.splits)

lemma int64_zero: "int64 0"
  by (simp add: int64_def)

lemma get_int_typed: "well_typed fs m \<Longrightarrow> int64 (get_int m k)"
  by (fastforce simp: well_typed_def get_int_def int64_zero split: option.split jscalar.split)

lemma get_float_typed: "well_typed fs m \<Longrightarrow> f64_finite (get_float m k)"
  by (fastforce simp: well_typed_def get_float_def split: option.split jscalar.split)

text \<open>A write goes through only with the administrator's role.\<close>

lemma admin_post_cases:
  assumes "admin_post typ flds f code s r = (resp, s')"
    and "\<And>req e s'. f req s = (Some e, s') \<Longrightarrow> s' = s"
  shows "s' = s \<or> (requireAdmin r = None \<and> (\<exists>req. well_typed flds req \<and> f req s = (None, s')))"
  using assms
  by (auto simp: admin_post_def dest: decode_struct_typed split: option.splits sum.splits prod.splits)

text \<open>The outcome of the handlers on the state of the service.\<close>

definition privileged :: "string \<Rightarrow> request \<Rightarrow> bool" where
  "privileged apiKey r \<longleftrightarrow> requireAPIKey apiKey r = None \<and> requireAdmin r = None \<and> rq_Method r = ''POST''"

definition effect :: "string \<Rightarrow> request \<Rightarrow> Service \<Rightarrow> Service \<Rightarrow> bool" where
  "effect apiKey r s s' \<longleftrightarrow> s' = s \<or> s' = count_request s \<or> (privileged apiKey r \<and> books_step (count_request s) s')"

lemma tenants_effect: "handle_tenants apiKey s r now = (resp, s') \<Longrightarrow> effect apiKey r s s'"
  by (auto simp: handle_tenants_def effect_def privileged_def Let_def AddTenant_err
      split: option.splits if_splits prod.splits dest!: admin_post_cases intro: books_step.tenant)

lemma usage_effect: "handle_usage apiKey s r now = (resp, s') \<Longrightarrow> effect apiKey r s s'"
  by (auto simp: handle_usage_def effect_def privileged_def Let_def AddUsage_def AddUsageAt_err
      split: option.splits if_splits prod.splits dest!: admin_post_cases intro: books_step.used get_int_typed)

lemma rates_effect: "handle_rates apiKey s r now = (resp, s') \<Longrightarrow> effect apiKey r s s'"
  by (auto simp: handle_rates_def effect_def privileged_def Let_def SetRate_err
      split: option.splits if_splits prod.splits dest!: admin_post_cases intro: books_step.priced get_float_typed)

lemma read_effects:
  "handle_healthz s r now = (resp, s') \<Longrightarrow> effect apiKey r s s'" "handle_readyz s r now = (resp, s') \<Longrightarrow> effect apiKey r s s'"
  "handle_sla s r now = (resp, s') \<Longrightarrow> effect apiKey r s s'" "handle_invoice apiKey s r now = (resp, s') \<Longrightarrow> effect apiKey r s s'"
  "handle_summary apiKey s r now = (resp, s') \<Longrightarrow> effect apiKey r s s'"
  by (auto simp: handle_healthz_def handle_readyz_def handle_sla_def handle_invoice_def handle_summary_def effect_def Let_def
      split: option.splits if_splits prod.splits sum.splits)

lemma Handler_effect:
  assumes "Handler getenv s r now = (resp, s')"
  shows "effect (trim_space (getenv ''CONTROLPLANE_API_KEY'')) r s s'"
proof (cases "map_of (mux (trim_space (getenv ''CONTROLPLANE_API_KEY''))) (rq_Path r)")
  case None
  with assms show ?thesis by (simp add: Handler_def effect_def)
next
  case (Some h)
  with assms have "h s r now = (resp, s')" by (simp add: Handler_def)
  moreover have "h \<in> snd ` set (mux (trim_space (getenv ''CONTROLPLANE_API_KEY'')))"
    using map_of_SomeD [OF Some] by force
  ultimately show ?thesis
    unfolding mux_def register_def
    using tenants_effect usage_effect rates_effect read_effects by (elim imageE) (auto simp: image_iff)
qed

section \<open>The books balance\<close>

definition recorded :: "string \<Rightarrow> usageEvent list \<Rightarrow> int" where
  "recorded tid evs = sum_list (map ue_Invocations (filter (\<lambda>ev. ue_TenantID ev = tid) evs))"

definition ledger_ok :: "Service \<Rightarrow> bool" where
  "ledger_ok s \<longleftrightarrow>
     finite (sv_tenants s) \<and> [] \<notin> sv_tenants s
     \<and> (\<forall>tid. Usage tid s = wrap64 (recorded tid (sv_usageEvent s)))
     \<and> (\<forall>ev \<in> set (sv_usageEvent s). ue_TenantID ev \<in> sv_tenants s \<and> 0 < ue_Invocations ev)
     \<and> Mapping.keys (sv_usage s) = ue_TenantID ` set (sv_usageEvent s)
     \<and> \<not> f64_negative (USDPerThousand (sv_rate s)) \<and> f64_finite (USDPerThousand (sv_rate s))"

lemma usage_get_add: "usage_get (usage_add tid n m) tid' = (if tid' = tid then wrap64 (usage_get m tid + n) else usage_get m tid')"
  by (simp add: usage_get_def usage_add_def lookup_update')

lemma keys_usage_add: "Mapping.keys (usage_add tid n m) = insert tid (Mapping.keys m)"
  by (simp add: usage_add_def)

lemma ledger_step:
  assumes "books_step s s'" and "ledger_ok s"
  shows "ledger_ok s'"
  using assms
proof (induction rule: books_step.induct)
  case (keep s)
  then show ?case .
next
  case (tenant tid s s')
  then show ?case by (auto simp: AddTenant_def ledger_ok_def Usage_def split: if_splits)
next
  case (used tid n ts s s')
  then have s': "s' = s\<lparr>sv_usage := usage_add tid n (sv_usage s),
      sv_usageEvent := sv_usageEvent s @ [\<lparr>ue_TenantID = tid, ue_Invocations = n, ue_OccurredAt = ts\<rparr>]\<rparr>"
    and "0 < n" "tid \<in> sv_tenants s" by (auto simp: AddUsageAt_def split: if_splits)
  with used.prems show ?case
    by (simp add: ledger_ok_def Usage_def usage_get_add keys_usage_add recorded_def wrap64_add_left)
next
  case (priced x s s')
  then show ?case
    by (auto simp: SetRate_def NewRateCard_def ledger_ok_def Usage_def split: sum.splits if_splits)
qed

lemma ledger_count: "ledger_ok (count_request s) = ledger_ok s"
  by (simp add: ledger_ok_def count_request_def Usage_def)

lemma ledger_new: "ledger_ok (NewService t0)"
  by (simp add: ledger_ok_def NewService_def NewRateCard_def Usage_def usage_get_def recorded_def wrap64_def)

text \<open>
  C4: The books of the control plane balance after any sequence of requests, whatever they contain:
  every tenant's usage is the sum of its recorded events (in 64-bit arithmetic), every event belongs
  to a registered tenant and is positive, exactly the tenants with events have usage rows, no
  tenant has an empty name, and the price is a finite number that is not negative.
\<close>

theorem ledger_invariant: "ledger_ok (snd (serve getenv requests (NewService t0)))"
proof -
  have "ledger_ok (snd (serve getenv rs s))" if "ledger_ok s" for rs s
    using that
  proof (induction rs arbitrary: s)
    case (Cons rn rs)
    obtain r now where rn: "rn = (r, now)" by fastforce
    obtain resp s' where h: "Handler getenv s r now = (resp, s')" by fastforce
    have "ledger_ok s'"
      using Handler_effect [OF h] Cons.prems ledger_step ledger_count by (auto simp: effect_def)
    from Cons.IH [OF this] show ?case by (auto simp: rn h split: prod.split)
  qed simp
  then show ?thesis using ledger_new by blast
qed

section \<open>Who may change the books\<close>

definition books :: "Service \<Rightarrow> string set \<times> (string, go_int) mapping \<times> usageEvent list \<times> RateCard" where
  "books s = (sv_tenants s, sv_usage s, sv_usageEvent s, sv_rate s)"

lemma requireAdmin_iff: "requireAdmin r = None \<longleftrightarrow> ParseRole (rq_Header r ''X-Role'') = Inr RoleAdmin"
  using ParseRole_known
  by (auto simp: requireAdmin_def DefaultPolicy_def NewPolicy_def IsAllowed_def Let_def role_names action_names known_role_def split: sum.splits if_splits)

text \<open>
  C9: Nobody but an administrator changes the books. If a request changes the tenants, the usage, the
  events or the price, then it is a POST with the role "admin" in \<open>X-Role\<close>, and, when an API key is
  configured, it carries that key in \<open>X-API-Key\<close> or as a bearer token.
\<close>

theorem only_admin_changes_books:
  assumes "Handler getenv s r now = (resp, s')" and "books s' \<noteq> books s"
  defines "apiKey \<equiv> trim_space (getenv ''CONTROLPLANE_API_KEY'')"
  shows "rq_Method r = ''POST'' \<and> ParseRole (rq_Header r ''X-Role'') = Inr RoleAdmin
    \<and> (apiKey \<noteq> [] \<longrightarrow> trim_space (rq_Header r ''X-API-Key'') = apiKey
         \<or> (\<exists>bearer. trim_space (rq_Header r ''Authorization'') = ''Bearer '' @ bearer \<and> trim_space bearer = apiKey))"
proof -
  have "books (count_request s) = books s" by (simp add: books_def count_request_def)
  with assms(2) Handler_effect [OF assms(1)] have priv: "privileged apiKey r"
    by (auto simp: effect_def apiKey_def)
  then have key: "requireAPIKey apiKey r = None" and post: "rq_Method r = ''POST''" and admin: "requireAdmin r = None"
    by (simp_all add: privileged_def)
  have "apiKey \<noteq> [] \<longrightarrow> trim_space (rq_Header r ''X-API-Key'') = apiKey
         \<or> (\<exists>bearer. trim_space (rq_Header r ''Authorization'') = ''Bearer '' @ bearer \<and> trim_space bearer = apiKey)"
    using key by (auto simp: requireAPIKey_def Let_def trim_prefix_def has_prefix_iff split: if_splits)
  with post admin show ?thesis by (simp add: requireAdmin_iff)
qed

definition post_tenant :: request where
  "post_tenant = \<lparr>rq_Method = ''POST'', rq_Path = ''/v1/tenants'',
     rq_Header = (\<lambda>k. if k = ''X-Role'' then ''admin'' else []), rq_Query = (\<lambda>_. []),
     rq_Body = Inr (JObj [(''id'', JStr ''acme'')])\<rparr>"

theorem only_admin_changes_books_witness:
  "sv_tenants (snd (Handler (\<lambda>_. []) (NewService 0) post_tenant 5)) = {''acme''}
   \<and> ParseRole (rq_Header post_tenant ''X-Role'') = Inr RoleAdmin"
proof -
  obtain resp s' where h: "Handler (\<lambda>_. []) (NewService 0) post_tenant 5 = (resp, s')" by fastforce
  have role: "requireAdmin post_tenant = None"
    using ParseRole_fixed [of RoleAdmin] by (simp add: requireAdmin_iff post_tenant_def known_role_def role_names)
  have "sv_tenants (snd (Handler (\<lambda>_. []) (NewService 0) post_tenant 5)) = {''acme''}"
    using role by (simp add: Handler_def mux_def register_def handle_tenants_def requireAPIKey_def admin_post_def
        decode_struct_def find_field_def get_string_def AddTenant_def NewService_def count_request_def post_tenant_def trim_space_graphic Let_def)
  moreover from this have "sv_tenants s' \<noteq> sv_tenants (NewService 0)" by (simp only: h snd_conv) (simp add: NewService_def)
  then have "books s' \<noteq> books (NewService 0)" by (auto simp: books_def)
  ultimately show ?thesis using only_admin_changes_books [OF h] by simp
qed

section \<open>The monthly summary\<close>

lemma month_totals_facts:
  "usage_get (month_totals ym evs) tid = wrap64 (recorded tid (filter (\<lambda>ev. in_month ym (ue_OccurredAt ev)) evs))"
  "Mapping.keys (month_totals ym evs) = ue_TenantID ` set (filter (\<lambda>ev. in_month ym (ue_OccurredAt ev)) evs)"
proof (induction evs rule: rev_induct)
  case Nil
  { case 1 show ?case by (simp add: month_totals_def usage_get_def recorded_def wrap64_def) }
  { case 2 show ?case by (simp add: month_totals_def) }
next
  case (snoc ev evs)
  have step: "month_totals ym (evs @ [ev]) = (if in_month ym (ue_OccurredAt ev)
      then usage_add (ue_TenantID ev) (ue_Invocations ev) (month_totals ym evs) else month_totals ym evs)"
    by (simp add: month_totals_def)
  { case 1 show ?case using snoc(1) by (auto simp: step usage_get_add recorded_def wrap64_add_left) }
  { case 2 show ?case using snoc by (simp add: step keys_usage_add) }
qed

lemma parse_month_valid: "parse_month s = Some ym \<Longrightarrow> valid_month ym"
  by (auto simp: parse_month_def valid_month_def Let_def split: if_splits)

lemma parseMonthStart_valid:
  assumes "parseMonthStart month now = Inr ym"
  shows "valid_month ym" "month = [] \<Longrightarrow> ym = year_month now" "month \<noteq> [] \<Longrightarrow> parse_month month = Some ym"
  using assms parse_month_valid year_month_valid
  by (auto simp: parseMonthStart_def split: if_splits option.splits)

text \<open>
  C23: The billing summary of a month lists, in alphabetical order, exactly the tenants with an event
  in that calendar month (UTC), each with the sum of its events of the month. Since a time has one
  year and month, every event is billed in exactly one month.
\<close>

theorem monthly_summary_exact:
  assumes "MonthlyUsageRows month now s = Inr (rows, label)"
  shows "\<exists>ym. (if month = [] then ym = year_month now else parse_month month = Some ym) \<and> label = format_month ym
    \<and> map bs_TenantID rows = sorted_list_of_set {ue_TenantID ev | ev. ev \<in> set (sv_usageEvent s) \<and> year_month (ue_OccurredAt ev) = ym}
    \<and> (\<forall>row \<in> set rows. bs_Invocations row =
         wrap64 (recorded (bs_TenantID row) (filter (\<lambda>ev. year_month (ue_OccurredAt ev) = ym) (sv_usageEvent s))))"
proof -
  from assms obtain ym where ym: "parseMonthStart month now = Inr ym" "label = format_month ym"
    and rows: "rows = map (\<lambda>tid. \<lparr>bs_TenantID = tid, bs_Invocations = usage_get (month_totals ym (sv_usageEvent s)) tid\<rparr>)
      (Mapping.ordered_keys (month_totals ym (sv_usageEvent s)))"
    by (auto simp: MonthlyUsageRows_def Let_def split: sum.splits)
  have month: "in_month ym t \<longleftrightarrow> year_month t = ym" for t
    using parseMonthStart_valid(1) [OF ym(1)] by (rule in_month_iff)
  have keys: "Mapping.ordered_keys (month_totals ym (sv_usageEvent s))
      = sorted_list_of_set {ue_TenantID ev | ev. ev \<in> set (sv_usageEvent s) \<and> year_month (ue_OccurredAt ev) = ym}"
    by (simp add: Mapping.ordered_keys_def month_totals_facts(2) month setcompr_eq_image)
  show ?thesis
    using parseMonthStart_valid(2,3) [OF ym(1)] ym(2)
    by (intro exI [of _ ym]) (auto simp: rows keys month_totals_facts(1) month o_def)
qed

definition may_2024 :: time where "may_2024 = month_start 2024 5"

definition one_event :: Service where
  "one_event = (NewService 0)\<lparr>sv_usageEvent := [\<lparr>ue_TenantID = ''b'', ue_Invocations = 7, ue_OccurredAt = may_2024\<rparr>]\<rparr>"

theorem monthly_summary_exact_witness:
  "\<exists>rows label. MonthlyUsageRows ''2024-05'' 0 one_event = Inr (rows, label) \<and> map bs_TenantID rows = [''b'']"
proof -
  have month: "parse_month ''2024-05'' = Some (2024, 5)"
    by (simp add: parse_month_def undecimal_def is_digit_def Let_def)
  then obtain rows label where m: "MonthlyUsageRows ''2024-05'' 0 one_event = Inr (rows, label)"
    by (simp add: MonthlyUsageRows_def parseMonthStart_def Let_def)
  have "in_month (2024, 5) may_2024"
    by (simp add: in_month_def next_month_def may_2024_def month_start_def days_before_year_def days_before_month_def
        month_lengths_def leap_year_def time_before_def)
  then have "year_month may_2024 = (2024, 5)" by (simp add: in_month_iff valid_month_def)
  then have "{ue_TenantID ev | ev. ev \<in> set (sv_usageEvent one_event) \<and> year_month (ue_OccurredAt ev) = (2024, 5)} = {''b''}"
    by (auto simp: one_event_def)
  with monthly_summary_exact [OF m] month have "map bs_TenantID rows = [''b'']" by auto
  with m show ?thesis by (intro exI conjI)
qed

section \<open>Pages\<close>

text \<open>
  A listing shows pages of the full list. As long as the offset of the page fits into 64 bits,
  page \<open>p\<close> of size \<open>n\<close> (at most 200) holds the elements from \<open>(p - 1) n\<close> on, up to \<open>n\<close> of them, and the request does
  not panic.
\<close>

theorem page_of_list:
  assumes "0 < p" and "0 < n" and "n \<le> 200" and "(p - 1) * n < 2 ^ 63 - 200" and "int (length xs) < 2 ^ 63"
  shows "paginate xs p n = Some (take (nat n) (drop (nat ((p - 1) * n)) xs))"
proof -
  let ?i = "(p - 1) * n"
  have i: "0 \<le> ?i" "?i < 2 ^ 63 - 200" using assms by simp_all
  then have w: "wrap64 ?i = ?i" "wrap64 (?i + n) = ?i + n" using assms(2,3) by (simp_all add: wrap64_id int64_def)
  show ?thesis
  proof (cases "int (length xs) \<le> ?i")
    case True
    then have "length xs \<le> nat ?i" by linarith
    with True show ?thesis by (simp add: paginate_def w)
  next
    case False
    have stop: "take (nat (min (?i + n) (int (length xs)) - ?i)) ys = take (nat n) ys" if "length ys = nat (int (length xs) - ?i)" for ys :: "'a list"
      using that assms(2) by (cases "?i + n \<le> int (length xs)") (auto simp: min_def)
    have "paginate xs p n = slice xs ?i (min (?i + n) (int (length xs)))"
      using False unfolding paginate_def Let_def w by (simp add: min_def)
    also have "\<dots> = Some (take (nat (min (?i + n) (int (length xs)) - ?i)) (drop (nat ?i) xs))"
      using False i assms(2) by (simp add: slice_def)
    also have "\<dots> = Some (take (nat n) (drop (nat ?i) xs))"
      using False i by (subst stop) auto
    finally show ?thesis .
  qed
qed

theorem page_of_list_witness: "paginate [''a'', ''b'', ''c''] 2 2 = Some [''c'']"
  using page_of_list [of 2 2 "[''a'', ''b'', ''c'']"] by simp

definition big_page :: request where
  "big_page = \<lparr>rq_Method = ''GET'', rq_Path = ''/tenants'', rq_Header = (\<lambda>_. []),
     rq_Query = (\<lambda>k. if k = ''page'' then ''4611686018427387905'' else if k = ''page_size'' then ''2'' else []),
     rq_Body = Inr JNull\<rparr>"

text \<open>
  A large page number makes a listing panic. The offset \<open>(page - 1) * pageSize\<close> is computed without a
  check, wraps to a negative number and is used as the lower bound of a slice; with page
  4611686018427387905 and page size 2 the request has no response, whatever the service holds.
\<close>

theorem big_page_panics: "fst (Handler (\<lambda>_. []) s big_page now) = None"
proof -
  have args: "trim_space ''4611686018427387905'' = ''4611686018427387905''" "trim_space ''2'' = ''2''"
    by (simp_all add: trim_space_graphic graphic_def)
  have "atoi ''4611686018427387905'' = Some 4611686018427387905" "atoi ''2'' = Some 2"
    by (simp_all add: atoi_def split_sign_def undecimal_def is_digit_def int64_def Let_def)
  then have "parsePagination ''4611686018427387905'' ''2'' = (4611686018427387905, 2)"
    unfolding parsePagination_def args by simp
  moreover have "paginate xs 4611686018427387905 2 = None" for xs :: "string list"
    by (simp add: paginate_def wrap64_def slice_def Let_def)
  ultimately show ?thesis
    by (simp add: Handler_def mux_def register_def handle_tenants_def requireAPIKey_def big_page_def paginateStrings_def Let_def)
qed

section \<open>Invoices as CSV\<close>


end
