(* ===== verification/Kahn.thy ===== *)
theory Kahn
  imports GoPrelude "HOL-Library.Finite_Map"
begin

text \<open>
  The topological sort the program runs twice: level by level in \<open>buildGraph\<close>
  (\<open>src/internal/router/router.go\<close>) and node by node in \<open>OrderedPipeline\<close>
  (\<open>src/internal/config/manifest.go\<close>). Both decrement the in-degrees of the children of a
  processed node and collect the children that reach 0. The loops are defined here with the code's
  maps; their correctness is proved once, for any source of nodes and edges, in the locale
  \<open>kahn_source\<close>.
\<close>

section \<open>The loops\<close>

definition fm_get :: "'v \<Rightarrow> ('k, 'v) fmap \<Rightarrow> 'k \<Rightarrow> 'v" where
  "fm_get z m k = (case fmlookup m k of None \<Rightarrow> z | Some v \<Rightarrow> v)"

lemma fm_get_upd [simp]: "fm_get z (fmupd k v m) k' = (if k' = k then v else fm_get z m k')"
  by (simp add: fm_get_def)

lemma fm_get_empty [simp]: "fm_get z fmempty k = z"
  by (simp add: fm_get_def)

type_synonym children = "(string, string list) fmap"
type_synonym indegree = "string \<rightharpoonup> go_int"

text \<open>The inner loop: decrement each child, append those that reach 0 to \<open>next\<close>.\<close>

fun release_children :: "string list \<Rightarrow> indegree \<Rightarrow> string list \<Rightarrow> indegree \<times> string list" where
  "release_children [] inDegree nxt = (inDegree, nxt)"
| "release_children (child # cs) inDegree nxt =
     (let n = map_get 0 inDegree child - 1
      in release_children cs (inDegree(child \<mapsto> n)) (if n = 0 then nxt @ [child] else nxt))"

fun release_level :: "children \<Rightarrow> string list \<Rightarrow> indegree \<Rightarrow> string list \<Rightarrow> indegree \<times> string list" where
  "release_level children [] inDegree nxt = (inDegree, nxt)"
| "release_level children (cur # level) inDegree nxt =
     (case release_children (fm_get [] children cur) inDegree nxt of
        (inDegree', nxt') \<Rightarrow> release_level children level inDegree' nxt')"

section \<open>What a release does\<close>

abbreviation deg :: "indegree \<Rightarrow> string \<Rightarrow> int" where
  "deg d v \<equiv> map_get 0 d v"

lemma release_children_deg:
  "deg (fst (release_children cs d nxt)) v = deg d v - int (count_list cs v)"
  by (induction cs arbitrary: d nxt) (auto simp: Let_def)

lemma release_children_next:
  "\<exists>zs. snd (release_children cs d nxt) = nxt @ zs \<and> distinct zs
     \<and> (\<forall>v. v \<in> set zs \<longleftrightarrow> 0 < deg d v \<and> deg d v \<le> int (count_list cs v))"
proof (induction cs arbitrary: d nxt)
  case Nil
  then show ?case by auto
next
  case (Cons c cs)
  let ?n = "deg d c - 1"
  let ?d = "d(c \<mapsto> ?n)"
  obtain zs where zs: "snd (release_children cs ?d (if ?n = 0 then nxt @ [c] else nxt))
        = (if ?n = 0 then nxt @ [c] else nxt) @ zs" "distinct zs"
      "\<forall>v. v \<in> set zs \<longleftrightarrow> 0 < deg ?d v \<and> deg ?d v \<le> int (count_list cs v)"
    using Cons.IH [of ?d] by blast
  show ?case
  proof (cases "?n = 0")
    case True
    then have "c \<notin> set zs" using zs(3) by simp
    with True zs show ?thesis by (intro exI [of _ "c # zs"]) (auto simp: Let_def)
  next
    case False
    with zs show ?thesis by (intro exI [of _ zs]) (auto simp: Let_def)
  qed
qed

lemma release_level_concat:
  "release_level children level d nxt
     = release_children (concat (map (fm_get [] children) level)) d nxt"
proof -
  have app: "release_children (xs @ ys) d nxt
      = (case release_children xs d nxt of (d', nxt') \<Rightarrow> release_children ys d' nxt')"
    for xs ys d nxt
    by (induction xs arbitrary: d nxt) (auto simp: Let_def)
  show ?thesis by (induction level arbitrary: d nxt) (auto simp: app split: prod.splits)
qed

text \<open>The termination argument: the positive in-degrees pay for the nodes that become ready.\<close>

definition targets :: "children \<Rightarrow> string set" where
  "targets children = (\<Union>xs \<in> fmran' children. set xs)"

definition debt :: "children \<Rightarrow> indegree \<Rightarrow> nat" where
  "debt children d = (\<Sum>v \<in> targets children. nat (deg d v))"

lemma finite_targets [simp]: "finite (targets children)"
  by (simp add: targets_def fmran'_alt_def)

lemma fm_get_targets: "set (fm_get [] children u) \<subseteq> targets children"
  by (cases "fmlookup children u") (auto simp: fm_get_def targets_def dest: fmran'I)

lemma release_debt:
  assumes "set cs \<subseteq> targets children" and "release_children cs d nxt = (d', nxt')"
  shows "debt children d' + length nxt' \<le> debt children d + length nxt"
proof -
  obtain zs where zs: "nxt' = nxt @ zs" "distinct zs"
      "\<forall>v. v \<in> set zs \<longleftrightarrow> 0 < deg d v \<and> deg d v \<le> int (count_list cs v)"
    using release_children_next [of cs d nxt] assms(2) by auto
  have "v \<in> targets children" if "v \<in> set zs" for v
  proof -
    have "count_list cs v \<noteq> 0" using that zs(3) by force
    then show ?thesis using assms(1) by (auto simp: count_list_0_iff)
  qed
  then have sub: "set zs \<subseteq> targets children" by blast
  have deg': "deg d' v = deg d v - int (count_list cs v)" for v
    using release_children_deg [of cs d nxt v] assms(2) by simp
  have "length zs = card (set zs)" using zs(2) by (simp add: distinct_card)
  also have "\<dots> = (\<Sum>v \<in> targets children. if v \<in> set zs then 1 else 0)"
    using sub by (simp add: sum.If_cases Int_absorb1)
  finally have "debt children d' + length zs
      = (\<Sum>v \<in> targets children. nat (deg d' v) + (if v \<in> set zs then 1 else 0))"
    by (simp add: debt_def sum.distrib)
  also have "\<dots> \<le> debt children d"
    unfolding debt_def
  proof (rule sum_mono)
    fix v
    from zs(3) have "v \<in> set zs \<longleftrightarrow> 0 < deg d v \<and> deg d v \<le> int (count_list cs v)" by blast
    then show "nat (deg d' v) + (if v \<in> set zs then 1 else 0) \<le> nat (deg d v)"
      by (auto simp: deg')
  qed
  finally show ?thesis using zs(1) by simp
qed

function level_loop ::
  "children \<Rightarrow> string list \<Rightarrow> indegree \<Rightarrow> nat \<Rightarrow> string list list \<Rightarrow> nat \<times> string list list" where
  "level_loop children queue inDegree visited levels =
     (if queue = [] then (visited, levels)
      else case release_level children queue inDegree [] of
        (inDegree', nxt) \<Rightarrow>
          level_loop children (sort_strings nxt) inDegree' (visited + length queue) (levels @ [queue]))"
  by pat_completeness auto
termination
proof (relation "measure (\<lambda>(children, queue, d, _, _). debt children d + (if queue = [] then 0 else 1))",
    goal_cases)
  case (2 children queue d visited levels d' nxt)
  have "set (concat (map (fm_get [] children) queue)) \<subseteq> targets children"
    using fm_get_targets by fastforce
  from release_debt [OF this, of d "[]" d' nxt] 2(2)
  have "debt children d' + length nxt \<le> debt children d"
    by (simp add: release_level_concat)
  with 2(1) show ?case by (cases nxt) auto
qed simp

function order_loop ::
  "children \<Rightarrow> string list \<Rightarrow> indegree \<Rightarrow> string list \<Rightarrow> string list" where
  "order_loop children [] inDegree ordered = ordered"
| "order_loop children (cur # queue) inDegree ordered =
     (case release_children (fm_get [] children cur) inDegree queue of
        (inDegree', queue') \<Rightarrow> order_loop children queue' inDegree' (ordered @ [cur]))"
  by pat_completeness auto
termination
proof (relation "measure (\<lambda>(children, queue, d, _). debt children d + length queue)", goal_cases)
  case (2 children cur queue d ordered d' queue')
  then show ?case
    using release_debt [OF fm_get_targets, of children cur d queue d' queue'] by auto
qed simp

declare level_loop.simps [simp del]

section \<open>Correctness\<close>

text \<open>
  A topological order by levels: the predecessors of a node lie in the nodes done before its level.
  With singleton levels it is a topological order of the nodes themselves.
\<close>

fun topo_levels :: "('a \<times> 'a) set \<Rightarrow> 'a set \<Rightarrow> 'a list list \<Rightarrow> bool" where
  "topo_levels E done [] \<longleftrightarrow> True"
| "topo_levels E done (l # ls) \<longleftrightarrow>
     (\<forall>v \<in> set l. \<forall>u. (u, v) \<in> E \<longrightarrow> u \<in> done) \<and> topo_levels E (done \<union> set l) ls"

lemma topo_levels_snoc:
  "topo_levels E done (ls @ [l]) \<longleftrightarrow> topo_levels E done ls
     \<and> (\<forall>v \<in> set l. \<forall>u. (u, v) \<in> E \<longrightarrow> u \<in> done \<union> set (concat ls))"
  by (induction ls arbitrary: "done") (auto simp: Un_assoc)

lemma topo_levels_acyclic:
  assumes "topo_levels E {} ls" and "E \<subseteq> UNIV \<times> set (concat ls)"
  shows "acyclic E"
proof -
  have "\<exists>f. \<forall>u v. (u, v) \<in> E \<longrightarrow> v \<in> set (concat ls) \<longrightarrow> f u < (f v :: nat)"
    using assms(1)
  proof (induction ls rule: rev_induct)
    case (snoc l ls)
    then have pre: "topo_levels E {} ls"
        and l: "\<forall>v \<in> set l. \<forall>u. (u, v) \<in> E \<longrightarrow> u \<in> set (concat ls)"
      by (auto simp: topo_levels_snoc)
    from snoc.IH [OF pre] obtain f where
      f: "\<forall>u v. (u, v) \<in> E \<longrightarrow> v \<in> set (concat ls) \<longrightarrow> f u < (f v :: nat)" by blast
    define m where "m = Suc (Max (insert 0 (f ` set (concat ls))))"
    have m: "f u < m" if "u \<in> set (concat ls)" for u
      unfolding m_def using that by (simp add: less_Suc_eq_le)
    define g where "g = (\<lambda>v. if v \<in> set (concat ls) then f v else m)"
    have "\<forall>u v. (u, v) \<in> E \<longrightarrow> v \<in> set (concat (ls @ [l])) \<longrightarrow> g u < g v"
    proof (intro allI impI)
      fix u v
      assume e: "(u, v) \<in> E" and v: "v \<in> set (concat (ls @ [l]))"
      have u: "u \<in> set (concat ls)" if "v \<notin> set (concat ls)"
        using e v l that by auto
      have uv: "u \<in> set (concat ls)" if "v \<in> set (concat ls)"
        using pre e that by (induction ls rule: rev_induct) (auto simp: topo_levels_snoc)
      show "g u < g v" using f e m u uv by (auto simp: g_def)
    qed
    then show ?case by blast
  qed simp
  then obtain f where f: "\<forall>u v. (u, v) \<in> E \<longrightarrow> v \<in> set (concat ls) \<longrightarrow> f u < (f v :: nat)" by blast
  then have "E \<subseteq> measure f" using assms(2) by fastforce
  then show ?thesis using wf_acyclic wf_measure acyclic_subset by blast
qed

lemma stuck_cyclic:
  assumes "finite E" and "v \<in> U" and "\<And>v. v \<in> U \<Longrightarrow> \<exists>u \<in> U. (u, v) \<in> E"
  shows "\<not> acyclic E"
proof
  assume "acyclic E"
  then have "wf E" using assms(1) finite_acyclic_wf by blast
  then obtain z where "z \<in> U" and "\<forall>y. (y, z) \<in> E \<longrightarrow> y \<notin> U"
    using assms(2) by (metis wf_eq_minimal)
  with assms(3) show False by blast
qed

text \<open>
  What a caller of the loops provides for an input \<open>p\<close> it has accepted: nodes without repetition,
  edges between them, the children map in edge order and the in-degrees.
\<close>

locale kahn_source =
  fixes ok :: "'p \<Rightarrow> bool"
    and ids :: "'p \<Rightarrow> string list"
    and edges :: "'p \<Rightarrow> (string \<times> string) list"
    and children :: "'p \<Rightarrow> children"
    and indeg :: "'p \<Rightarrow> indegree"
  assumes ids_distinct: "ok p \<Longrightarrow> distinct (ids p)"
    and edges_ids: "ok p \<Longrightarrow> e \<in> set (edges p) \<Longrightarrow> fst e \<in> set (ids p) \<and> snd e \<in> set (ids p)"
    and children_edges: "ok p \<Longrightarrow>
          fm_get [] (children p) u = map snd (filter (\<lambda>e. fst e = u) (edges p))"
    and indeg_edges: "ok p \<Longrightarrow> deg (indeg p) v = int (length (filter (\<lambda>e. snd e = v) (edges p)))"
begin

definition kinv :: "'p \<Rightarrow> string list \<Rightarrow> string list \<Rightarrow> indegree \<Rightarrow> bool" where
  "kinv p done queue d \<longleftrightarrow>
     distinct (done @ queue)
     \<and> (\<forall>v. deg d v = int (length (filter (\<lambda>e. snd e = v \<and> fst e \<notin> set done) (edges p))))
     \<and> set (done @ queue) = {v \<in> set (ids p). deg d v = 0}"

lemma count_released:
  assumes "ok p" and "distinct B"
  shows "count_list (concat (map (fm_get [] (children p)) B)) v
       = length (filter (\<lambda>e. snd e = v \<and> fst e \<in> set B) (edges p))"
  using assms(2)
proof (induction B)
  case (Cons b B)
  have "count_list (fm_get [] (children p) b) v = length (filter (\<lambda>e. snd e = v \<and> fst e = b) (edges p))"
    by (simp add: children_edges [OF assms(1)] count_list_eq_length_filter filter_map o_def conj_commute
        eq_commute)
  moreover have "length (filter (\<lambda>e. snd e = v \<and> fst e \<in> set (b # B)) xs)
      = length (filter (\<lambda>e. snd e = v \<and> fst e = b) xs) + length (filter (\<lambda>e. snd e = v \<and> fst e \<in> set B) xs)"
    for xs :: "(string \<times> string) list"
    using Cons.prems by (induction xs) auto
  ultimately show ?case using Cons by simp
qed simp

lemma kinv_step:
  assumes p: "ok p" and inv: "kinv p done (B @ Q) d"
    and rel: "release_children (concat (map (fm_get [] (children p)) B)) d Q = (d', Q')"
  shows "kinv p (done @ B) Q' d'"
proof -
  let ?cs = "concat (map (fm_get [] (children p)) B)"
  have dist: "distinct (done @ B @ Q)" and dB: "distinct B" using inv by (auto simp: kinv_def)
  have deg: "deg d v = int (length (filter (\<lambda>e. snd e = v \<and> fst e \<notin> set done) (edges p)))" for v
    using inv by (simp add: kinv_def)
  have split: "length (filter (\<lambda>e. snd e = v \<and> fst e \<notin> set done) xs)
      = length (filter (\<lambda>e. snd e = v \<and> fst e \<in> set B) xs)
        + length (filter (\<lambda>e. snd e = v \<and> fst e \<notin> set (done @ B)) xs)"
    for v and xs :: "(string \<times> string) list"
    using dist by (induction xs) auto
  have cnt: "int (count_list ?cs v) = deg d v
      - int (length (filter (\<lambda>e. snd e = v \<and> fst e \<notin> set (done @ B)) (edges p)))" for v
    using count_released [OF p dB, of v] split [of v "edges p"] deg [of v] by simp
  have deg': "deg d' v = int (length (filter (\<lambda>e. snd e = v \<and> fst e \<notin> set (done @ B)) (edges p)))" for v
    using release_children_deg [of ?cs d Q v] cnt [of v] rel by simp
  obtain zs where zs: "Q' = Q @ zs" "distinct zs"
      "\<And>v. v \<in> set zs \<longleftrightarrow> 0 < deg d v \<and> deg d v \<le> int (count_list ?cs v)"
    using release_children_next [of ?cs d Q] rel by auto
  have zs_iff: "v \<in> set zs \<longleftrightarrow> 0 < deg d v \<and> deg d' v = 0" for v
    unfolding zs(3) using cnt [of v] deg' [of v] by auto
  have zs_ids: "v \<in> set (ids p)" if "v \<in> set zs" for v
  proof -
    from that have "filter (\<lambda>e. snd e = v \<and> fst e \<notin> set done) (edges p) \<noteq> []"
      using deg [of v] zs(3) [of v] by auto
    then show ?thesis using edges_ids [OF p] by (auto simp: filter_empty_conv)
  qed
  have old: "set (done @ B @ Q) = {v \<in> set (ids p). deg d v = 0}" using inv by (simp add: kinv_def)
  have mono: "deg d v = 0 \<Longrightarrow> deg d' v = 0" for v
    using split [of v "edges p"] deg [of v] deg' [of v] by linarith
  have ge: "0 \<le> deg d v" for v using deg [of v] by simp
  have "set (done @ B @ Q) \<union> set zs = {v \<in> set (ids p). deg d' v = 0}"
    unfolding old using zs_iff zs_ids mono ge by (auto simp: less_le)
  moreover have "set (done @ B @ Q) \<inter> set zs = {}"
    unfolding old using zs_iff by auto
  ultimately show ?thesis
    unfolding kinv_def using dist zs(1,2) deg' by auto
qed

lemma kinv_ready:
  assumes "kinv p done queue d" and "v \<in> set queue" and "(u, v) \<in> set (edges p)"
  shows "u \<in> set done"
proof -
  have "deg d v = 0" using assms(1,2) by (auto simp: kinv_def)
  then have "filter (\<lambda>e. snd e = v \<and> fst e \<notin> set done) (edges p) = []"
    using assms(1) by (simp add: kinv_def)
  with assms(3) show ?thesis by (auto simp: filter_empty_conv)
qed

lemma kinv_init:
  assumes "ok p"
  shows "kinv p [] (filter (\<lambda>v. deg (indeg p) v = 0) (ids p)) (indeg p)"
  using assms by (simp add: kinv_def ids_distinct indeg_edges)

lemma kinv_perm: "kinv p done queue d \<Longrightarrow> mset queue' = mset queue \<Longrightarrow> kinv p done queue' d"
  unfolding kinv_def by (metis distinct_append mset_eq_imp_distinct_iff mset_eq_setD set_append)

text \<open>When the queue is empty, either every node is done or the rest contains a cycle.\<close>

lemma kinv_end:
  assumes p: "ok p" and inv: "kinv p done [] d"
  shows "length done = length (ids p) \<longleftrightarrow> set done = set (ids p)"
    and "set done \<noteq> set (ids p) \<Longrightarrow> \<not> acyclic (set (edges p))"
proof -
  have eq: "set (done @ []) = {v \<in> set (ids p). deg d v = 0}" and dist: "distinct done"
    using inv unfolding kinv_def by (blast, simp)
  from eq have sub: "set done \<subseteq> set (ids p)" by auto
  show "length done = length (ids p) \<longleftrightarrow> set done = set (ids p)"
  proof
    assume "length done = length (ids p)"
    then have "card (set done) = card (set (ids p))"
      using dist ids_distinct [OF p] by (simp add: distinct_card)
    then show "set done = set (ids p)" using sub by (simp add: card_subset_eq)
  next
    assume "set done = set (ids p)"
    then show "length done = length (ids p)"
      using dist ids_distinct [OF p] by (metis distinct_card)
  qed
  assume "set done \<noteq> set (ids p)"
  with sub obtain v where v: "v \<in> set (ids p) - set done" by blast
  have "\<exists>u \<in> set (ids p) - set done. (u, w) \<in> set (edges p)" if w: "w \<in> set (ids p) - set done" for w
  proof -
    have "deg d w \<noteq> 0" using w eq by auto
    moreover have "deg d w = int (length (filter (\<lambda>e. snd e = w \<and> fst e \<notin> set done) (edges p)))"
      using inv unfolding kinv_def by blast
    ultimately have "filter (\<lambda>e. snd e = w \<and> fst e \<notin> set done) (edges p) \<noteq> []" by auto
    then show ?thesis using edges_ids [OF p] by (fastforce simp: filter_empty_conv)
  qed
  with v show "\<not> acyclic (set (edges p))" 
    by (intro stuck_cyclic [OF _ v]) auto
qed

section \<open>The two loops\<close>

lemma level_loop_inv:
  assumes "ok p" and "kinv p (concat levels) queue d" and "topo_levels (set (edges p)) {} levels"
    and "visited = length (concat levels)" and "[] \<notin> set levels"
    and "\<forall>l \<in> set (queue # levels). sorted l"
    and "level_loop (children p) queue d visited levels = (n, ls)"
  shows "\<exists>d'. kinv p (concat ls) [] d' \<and> topo_levels (set (edges p)) {} ls
           \<and> n = length (concat ls) \<and> [] \<notin> set ls \<and> (\<forall>l \<in> set ls. sorted l)"
  using assms
proof (induction "children p" queue d visited levels rule: level_loop.induct)
  case (1 queue d visited levels)
  show ?case
  proof (cases "queue = []")
    case True
    then have "n = visited" and "ls = levels"
      using "1.prems"(7) by (simp_all add: level_loop.simps [of "children p" "[]"])
    with True "1.prems" show ?thesis by auto
  next
    case False
    obtain d' nxt where rel: "release_level (children p) queue d [] = (d', nxt)" by fastforce
    have inv': "kinv p (concat (levels @ [queue])) nxt d'"
      using kinv_step [OF "1.prems"(1), of "concat levels" queue "[]" d d' nxt] "1.prems"(2) rel
      by (simp add: release_level_concat)
    have topo: "topo_levels (set (edges p)) {} (levels @ [queue])"
      using "1.prems"(3) kinv_ready [OF "1.prems"(2)] unfolding topo_levels_snoc by blast
    show ?thesis
    proof (rule "1.hyps" [OF False rel [symmetric] "1.prems"(1) _ topo])
      show "kinv p (concat (levels @ [queue])) (sort_strings nxt) d'"
        using inv' by (rule kinv_perm) simp
      show "level_loop (children p) (sort_strings nxt) d' (visited + length queue) (levels @ [queue]) = (n, ls)"
        using "1.prems"(7) False rel by (subst (asm) level_loop.simps) simp
    qed (use "1.prems" False in auto)
  qed
qed

lemma level_loop_correct:
  assumes "ok p"
    and "level_loop (children p) (sort_strings (filter (\<lambda>v. deg (indeg p) v = 0) (ids p))) (indeg p) 0 []
           = (n, ls)"
  shows "n = length (ids p) \<longleftrightarrow> acyclic (set (edges p))"
    and "n = length (ids p) \<Longrightarrow>
           mset (concat ls) = mset (ids p) \<and> topo_levels (set (edges p)) {} ls
           \<and> [] \<notin> set ls \<and> (\<forall>l \<in> set ls. sorted l)"
proof -
  let ?q = "filter (\<lambda>v. deg (indeg p) v = 0) (ids p)"
  have "kinv p (concat []) (sort_strings ?q) (indeg p)"
    using kinv_perm [OF kinv_init [OF assms(1)]] by simp
  from level_loop_inv [OF assms(1) this _ _ _ _ assms(2)]
  obtain d' where inv: "kinv p (concat ls) [] d'" and topo: "topo_levels (set (edges p)) {} ls"
      and n: "n = length (concat ls)" and ne: "[] \<notin> set ls" and srt: "\<forall>l \<in> set ls. sorted l"
    by auto
  note done_iff = kinv_end(1) [OF assms(1) inv]
  have cyc: "\<not> acyclic (set (edges p))" if "n \<noteq> length (ids p)"
    using kinv_end(2) [OF assms(1) inv] that done_iff n by blast
  have acyc: "acyclic (set (edges p))" if "n = length (ids p)"
  proof (rule topo_levels_acyclic [OF topo])
    have "set (concat ls) = set (ids p)" using that n done_iff by simp
    then show "set (edges p) \<subseteq> UNIV \<times> set (concat ls)"
      using edges_ids [OF assms(1)] by fastforce
  qed
  from cyc acyc show "n = length (ids p) \<longleftrightarrow> acyclic (set (edges p))" by blast
  assume "n = length (ids p)"
  then have "set (concat ls) = set (ids p)" using n done_iff by simp
  moreover have "distinct (concat ls)" using inv by (simp add: kinv_def)
  ultimately have "mset (concat ls) = mset (ids p)"
    using ids_distinct [OF assms(1)] set_eq_iff_mset_eq_distinct by blast
  with topo ne srt show "mset (concat ls) = mset (ids p) \<and> topo_levels (set (edges p)) {} ls
           \<and> [] \<notin> set ls \<and> (\<forall>l \<in> set ls. sorted l)" by blast
qed

lemma order_loop_inv:
  assumes "ok p" and "kinv p ordered queue d"
    and "topo_levels (set (edges p)) {} (map (\<lambda>v. [v]) ordered)"
  shows "\<exists>d'. kinv p (order_loop (children p) queue d ordered) [] d'
           \<and> topo_levels (set (edges p)) {} (map (\<lambda>v. [v]) (order_loop (children p) queue d ordered))"
  using assms
proof (induction "children p" queue d ordered rule: order_loop.induct)
  case (2 cur queue d ordered)
  obtain d' queue' where rel: "release_children (fm_get [] (children p) cur) d queue = (d', queue')"
    by fastforce
  have inv': "kinv p (ordered @ [cur]) queue' d'"
    using kinv_step [OF "2.prems"(1), of ordered "[cur]" queue d d' queue'] "2.prems"(2) rel by simp
  have topo: "topo_levels (set (edges p)) {} (map (\<lambda>v. [v]) (ordered @ [cur]))"
    using "2.prems"(2,3) kinv_ready [of p ordered "cur # queue" d cur]
    by (auto simp: topo_levels_snoc comp_def)
  from "2.hyps" [OF rel [symmetric] "2.prems"(1) inv' topo] rel show ?case by simp
qed auto

lemma order_loop_correct:
  assumes "ok p"
  defines "out \<equiv> order_loop (children p) (filter (\<lambda>v. deg (indeg p) v = 0) (ids p)) (indeg p) []"
  shows "length out = length (ids p) \<longleftrightarrow> acyclic (set (edges p))"
    and "length out = length (ids p) \<Longrightarrow>
           mset out = mset (ids p) \<and> topo_levels (set (edges p)) {} (map (\<lambda>v. [v]) out)"
proof -
  from order_loop_inv [OF assms(1) kinv_init [OF assms(1)]]
  obtain d' where inv: "kinv p out [] d'"
      and topo: "topo_levels (set (edges p)) {} (map (\<lambda>v. [v]) out)"
    unfolding out_def by auto
  note done_iff = kinv_end(1) [OF assms(1) inv]
  have cyc: "\<not> acyclic (set (edges p))" if "length out \<noteq> length (ids p)"
    using kinv_end(2) [OF assms(1) inv] that done_iff by blast
  have acyc: "acyclic (set (edges p))" if "length out = length (ids p)"
  proof (rule topo_levels_acyclic [OF topo])
    have "set out = set (ids p)" using that done_iff by simp
    then show "set (edges p) \<subseteq> UNIV \<times> set (concat (map (\<lambda>v. [v]) out))"
      using edges_ids [OF assms(1)] by fastforce
  qed
  from cyc acyc show "length out = length (ids p) \<longleftrightarrow> acyclic (set (edges p))" by blast
  assume "length out = length (ids p)"
  then have "set out = set (ids p)" using done_iff by simp
  moreover have "distinct out" using inv by (simp add: kinv_def)
  ultimately have "mset out = mset (ids p)"
    using ids_distinct [OF assms(1)] set_eq_iff_mset_eq_distinct by blast
  with topo show "mset out = mset (ids p) \<and> topo_levels (set (edges p)) {} (map (\<lambda>v. [v]) out)" by blast
qed

end

end
