(* ===== verification/AgentTypes.thy ===== *)
theory AgentTypes
  imports GoErrors
begin

text \<open>
  The types of \<open>src/pkg/agentfunc/types.go\<close>: the payload an agent receives and returns, and the
  policies that configure the router. Field names carry a prefix for their struct. A nil slice or
  map is \<open>None\<close>.

  An agent is code outside the program. Its model is a function of the time budget it is given, of
  its input and of the state \<open>'w\<close> of the world it lives in (the clock, the services it calls, its
  own memory); it returns an output and an error, or panics.
\<close>

record AgentInput =
  ai_TaskID :: string
  ai_RequestID :: string
  ai_Payload :: "bytes option"
  ai_Metadata :: "(string, string) mapping option"
  ai_Timestamp :: time

record AgentOutput =
  ao_RequestID :: string
  ao_Payload :: "bytes option"
  ao_Metadata :: "(string, string) mapping option"
  ao_Duration :: duration

definition empty_input :: AgentInput where
  "empty_input = \<lparr>ai_TaskID = [], ai_RequestID = [], ai_Payload = None, ai_Metadata = None,
     ai_Timestamp = time_zero\<rparr>"

definition empty_output :: AgentOutput where
  "empty_output = \<lparr>ao_RequestID = [], ao_Payload = None, ao_Metadata = None, ao_Duration = 0\<rparr>"

text \<open>A nil byte slice reads as the empty one.\<close>

definition slice_bytes :: "bytes option \<Rightarrow> bytes" where
  "slice_bytes p = (case p of None \<Rightarrow> [] | Some b \<Rightarrow> b)"

type_synonym BackoffStrategy = string

definition BackoffLinear :: BackoffStrategy where "BackoffLinear = ''linear''"
definition BackoffExponential :: BackoffStrategy where "BackoffExponential = ''exponential''"
definition BackoffExponentialJitter :: BackoffStrategy where
  "BackoffExponentialJitter = ''exponential_jitter''"

lemmas backoff_names = BackoffLinear_def BackoffExponential_def BackoffExponentialJitter_def

record RetryPolicy =
  rp_MaxAttempts :: go_int
  rp_Backoff :: BackoffStrategy
  rp_RetryableErrs :: "goerr list"

record CircuitBreakerPolicy =
  cp_FailureThreshold :: go_int
  cp_ResetTimeout :: duration
  cp_ProbeTimeout :: duration

record RouterConfig =
  rc_WorkerPoolSize :: go_int
  rc_ChannelBuffer :: go_int
  rc_DefaultTimeout :: duration
  rc_RetryPolicy :: RetryPolicy
  rc_CircuitBreaker :: CircuitBreakerPolicy

datatype call_outcome = Returned AgentOutput "goerr option" | Panicked string

type_synonym 'w AgentFunc = "duration \<Rightarrow> AgentInput \<Rightarrow> 'w \<Rightarrow> call_outcome \<times> 'w"

end
