(* ===== verification/Trace.thy ===== *)
theory Trace
  imports AgentTypes
begin

text \<open>
  \<open>src/internal/trace/trace.go\<close> and \<open>recorder.go\<close>: the execution trace and the recorder that
  collects its steps. \<open>AddStep\<close> runs under the recorder's mutex, so the goroutines of a run append
  their steps in some order; \<open>Finalize\<close> sorts them. The result does not depend on that order.
\<close>

record Step =
  s_InvocationID :: string
  s_AgentID :: string
  s_RequestID :: string
  s_Input :: AgentInput
  s_Output :: AgentOutput
  s_Error :: string
  s_Duration :: duration
  s_Attempt :: go_int

record ExecutionTrace =
  t_TaskID :: string
  t_Steps :: "Step list"
  t_StartTime :: time
  t_EndTime :: time
  t_TotalLatency :: duration

definition empty_step :: Step where
  "empty_step = \<lparr>s_InvocationID = [], s_AgentID = [], s_RequestID = [], s_Input = empty_input,
     s_Output = empty_output, s_Error = [], s_Duration = 0, s_Attempt = 0\<rparr>"

section \<open>The recorder\<close>

type_synonym trace_recorder = ExecutionTrace

definition NewRecorder :: "string \<Rightarrow> time \<Rightarrow> trace_recorder" where
  "NewRecorder taskID start = \<lparr>t_TaskID = taskID, t_Steps = [], t_StartTime = start,
     t_EndTime = time_zero, t_TotalLatency = 0\<rparr>"

text \<open>
  \<open>append([]byte(nil), b...)\<close> copies the bytes; with no bytes to copy it gives nil. The copy of a
  metadata map has the same entries.
\<close>

definition clone_bytes :: "bytes option \<Rightarrow> bytes option" where
  "clone_bytes p = (case p of None \<Rightarrow> None | Some b \<Rightarrow> if b = [] then None else Some b)"

definition cloneInput :: "AgentInput \<Rightarrow> AgentInput" where
  "cloneInput inp = inp\<lparr>ai_Payload := clone_bytes (ai_Payload inp)\<rparr>"

definition cloneOutput :: "AgentOutput \<Rightarrow> AgentOutput" where
  "cloneOutput out = out\<lparr>ao_Payload := clone_bytes (ao_Payload out)\<rparr>"

definition clone_step :: "Step \<Rightarrow> Step" where
  "clone_step step = step\<lparr>s_Input := cloneInput (s_Input step), s_Output := cloneOutput (s_Output step)\<rparr>"

definition AddStep :: "Step \<Rightarrow> trace_recorder \<Rightarrow> trace_recorder" where
  "AddStep step r = r\<lparr>t_Steps := t_Steps r @ [clone_step step]\<rparr>"

text \<open>The order of \<open>Finalize\<close>: by invocation, then attempt, then request.\<close>

definition step_key :: "Step \<Rightarrow> string \<times> int \<times> string" where
  "step_key s = (s_InvocationID s, s_Attempt s, s_RequestID s)"

definition Finalize :: "time \<Rightarrow> trace_recorder \<Rightarrow> ExecutionTrace" where
  "Finalize end_time r =
     \<lparr>t_TaskID = t_TaskID r, t_Steps = sort_slice step_key (t_Steps r), t_StartTime = t_StartTime r,
      t_EndTime = end_time, t_TotalLatency = time_sub end_time (t_StartTime r)\<rparr>"

section \<open>Facts\<close>

lemma slice_bytes_clone [simp]: "slice_bytes (clone_bytes p) = slice_bytes p"
  by (auto simp: slice_bytes_def clone_bytes_def split: option.splits)

lemma clone_step_fields [simp]:
  "s_InvocationID (clone_step s) = s_InvocationID s" "s_AgentID (clone_step s) = s_AgentID s"
  "s_RequestID (clone_step s) = s_RequestID s" "s_Error (clone_step s) = s_Error s"
  "s_Attempt (clone_step s) = s_Attempt s" "s_Duration (clone_step s) = s_Duration s"
  "s_Input (clone_step s) = cloneInput (s_Input s)" "s_Output (clone_step s) = cloneOutput (s_Output s)"
  by (simp_all add: clone_step_def)

lemma clone_output_fields [simp]:
  "ao_RequestID (cloneOutput o') = ao_RequestID o'" "ao_Metadata (cloneOutput o') = ao_Metadata o'"
  "ao_Duration (cloneOutput o') = ao_Duration o'"
  "slice_bytes (ao_Payload (cloneOutput o')) = slice_bytes (ao_Payload o')"
  by (simp_all add: cloneOutput_def)

lemma step_key_clone [simp]: "step_key (clone_step s) = step_key s"
  by (simp add: step_key_def)

lemma AddStep_fields [simp]:
  "t_Steps (AddStep s r) = t_Steps r @ [clone_step s]" "t_TaskID (AddStep s r) = t_TaskID r"
  "t_StartTime (AddStep s r) = t_StartTime r"
  by (simp_all add: AddStep_def)

lemma fold_AddStep:
  "fold AddStep ss r = r\<lparr>t_Steps := t_Steps r @ map clone_step ss\<rparr>"
  by (induction ss arbitrary: r) (simp_all add: AddStep_def)

lemma Finalize_steps [simp]: "t_Steps (Finalize e r) = sort_slice step_key (t_Steps r)"
  by (simp add: Finalize_def)

text \<open>
  Traces are deterministic. Whatever the order in which concurrent goroutines add the same
  steps to the recorder, the finalized trace is the same, as long as no two steps agree on
  invocation, attempt and request.
\<close>

theorem finalize_schedule_independent:
  assumes "mset ss = mset ss'" and "distinct (map step_key ss)"
  shows "Finalize e (fold AddStep ss (NewRecorder task start))
       = Finalize e (fold AddStep ss' (NewRecorder task start))"
proof -
  have "sort_slice step_key (map clone_step ss) = sort_slice step_key (map clone_step ss')"
    by (rule slices.sorter_schedule_independent) (use assms in \<open>simp_all add: o_def\<close>)
  then show ?thesis by (simp add: fold_AddStep Finalize_def NewRecorder_def)
qed

definition step_at :: "string \<Rightarrow> go_int \<Rightarrow> Step" where
  "step_at i k = empty_step\<lparr>s_InvocationID := i, s_Attempt := k\<rparr>"

theorem finalize_schedule_independent_witness:
  "Finalize 9 (fold AddStep [step_at ''b'' 1, step_at ''a'' 2, step_at ''a'' 1] (NewRecorder ''t'' 1))
   = Finalize 9 (fold AddStep [step_at ''a'' 1, step_at ''a'' 2, step_at ''b'' 1] (NewRecorder ''t'' 1))"
  by (rule finalize_schedule_independent) (simp_all add: step_at_def step_key_def empty_step_def)

text \<open>
  \<open>Finalize\<close> keeps every recorded step and orders them by invocation, attempt and request; the
  latency is the (saturated) difference of the two clock readings.
\<close>

theorem finalize_sorted_complete:
  "mset (t_Steps (Finalize e (fold AddStep ss (NewRecorder task start)))) = mset (map clone_step ss)
   \<and> sorted (map step_key (t_Steps (Finalize e (fold AddStep ss (NewRecorder task start)))))
   \<and> t_TotalLatency (Finalize e (fold AddStep ss (NewRecorder task start))) = time_sub e start"
  by (simp add: fold_AddStep NewRecorder_def Finalize_def)

end
