(* ===== verification/PlanGraph.thy ===== *)
theory PlanGraph
  imports Kahn Trace
begin

text \<open>
  The plan types of \<open>src/internal/router/router.go\<close> and \<open>buildGraph\<close>, which checks a plan and cuts
  it into levels. \<open>buildGraph\<close> accepts exactly the plans with non-empty distinct ids, known
  dependencies and no cycle, and its levels are a topological partition of the plan.
\<close>

section \<open>Types\<close>

record AgentInvocation =
  inv_ID :: string
  inv_AgentID :: string
  inv_Input :: AgentInput

record PlanNode =
  pn_Invocation :: AgentInvocation
  pn_DependsOn :: "string list"
  pn_RetryPolicy :: RetryPolicy
  pn_CircuitBreakerPolicy :: CircuitBreakerPolicy

record ExecutionPlan =
  ep_TaskID :: string
  ep_Nodes :: "PlanNode list"

record AgentResult =
  ar_Invocation :: AgentInvocation
  ar_Output :: AgentOutput
  ar_Err :: "goerr option"

record planGraph =
  pg_nodes :: "PlanNode list"
  pg_nodesByID :: "string \<rightharpoonup> PlanNode"
  pg_levels :: "string list list"

abbreviation node_id :: "PlanNode \<Rightarrow> string" where
  "node_id n \<equiv> inv_ID (pn_Invocation n)"

definition empty_invocation :: AgentInvocation where
  "empty_invocation = \<lparr>inv_ID = [], inv_AgentID = [], inv_Input = empty_input\<rparr>"

section \<open>buildGraph\<close>

text \<open>The first loop: ids are non-empty and new; the in-degree is the number of dependencies.\<close>

fun index_nodes :: "PlanNode list \<Rightarrow> (string \<rightharpoonup> PlanNode) \<Rightarrow> indegree
    \<Rightarrow> ((string \<rightharpoonup> PlanNode) \<times> indegree) result" where
  "index_nodes [] nodesByID inDegree = Inr (nodesByID, inDegree)"
| "index_nodes (n # ns) nodesByID inDegree =
     (if node_id n = [] then Inl (Errorf ''execution plan has node with empty invocation id'')
      else if nodesByID (node_id n) \<noteq> None
      then Inl (Errorf (''execution plan has duplicate invocation id '' @ fmt_q (node_id n)))
      else index_nodes ns (nodesByID(node_id n \<mapsto> n))
             (inDegree(node_id n \<mapsto> int (length (pn_DependsOn n)))))"

text \<open>The second loop: dependencies are known and not the node itself; children are collected.\<close>

fun link_deps :: "(string \<rightharpoonup> PlanNode) \<Rightarrow> string \<Rightarrow> string list \<Rightarrow> children \<Rightarrow> children result" where
  "link_deps nodesByID i [] ch = Inr ch"
| "link_deps nodesByID i (depID # ds) ch =
     (if nodesByID depID = None
      then Inl (Errorf (''execution plan node '' @ fmt_q i @ '' depends on unknown invocation '' @ fmt_q depID))
      else if depID = i
      then Inl (Errorf (''execution plan node '' @ fmt_q i @ '' depends on itself''))
      else link_deps nodesByID i ds (fmupd depID (fm_get [] ch depID @ [i]) ch))"

fun link_nodes :: "(string \<rightharpoonup> PlanNode) \<Rightarrow> PlanNode list \<Rightarrow> children \<Rightarrow> children result" where
  "link_nodes nodesByID [] ch = Inr ch"
| "link_nodes nodesByID (n # ns) ch =
     (case link_deps nodesByID (node_id n) (pn_DependsOn n) ch of
        Inl e \<Rightarrow> Inl e
      | Inr ch' \<Rightarrow> link_nodes nodesByID ns ch')"

definition buildGraph :: "ExecutionPlan \<Rightarrow> planGraph result" where
  "buildGraph plan =
     (if ep_Nodes plan = [] then Inl (Errorf ''execution plan has no nodes'')
      else case index_nodes (ep_Nodes plan) Map.empty Map.empty of
        Inl e \<Rightarrow> Inl e
      | Inr (nodesByID, inDegree) \<Rightarrow>
          (case link_nodes nodesByID (ep_Nodes plan) fmempty of
             Inl e \<Rightarrow> Inl e
           | Inr ch \<Rightarrow>
               (let queue = sort_strings
                      (filter (\<lambda>i. map_get 0 inDegree i = 0) (map node_id (ep_Nodes plan)))
                in case level_loop ch queue inDegree 0 [] of
                  (visited, levels) \<Rightarrow>
                    if visited \<noteq> length (ep_Nodes plan)
                    then Inl (Errorf ''execution plan contains cycle'')
                    else Inr \<lparr>pg_nodes = ep_Nodes plan, pg_nodesByID = nodesByID, pg_levels = levels\<rparr>)))"

definition inferTaskID :: "AgentInvocation list \<Rightarrow> string" where
  "inferTaskID invocations =
     (case invocations of
        [] \<Rightarrow> []
      | i # _ \<Rightarrow> if ai_TaskID (inv_Input i) \<noteq> [] then ai_TaskID (inv_Input i) else ''task_default'')"

fun dependency_error_loop ::
  "string list \<Rightarrow> planGraph \<Rightarrow> (string \<rightharpoonup> AgentResult) \<Rightarrow> goerr option" where
  "dependency_error_loop [] g results = None"
| "dependency_error_loop (depID # ds) g results =
     (case results depID of
        None \<Rightarrow> Some (Errorf (''dependency result missing: '' @ depID))
      | Some r \<Rightarrow>
          (case ar_Err r of
             Some e \<Rightarrow> Some (Errorf (''dependency failed: '' @ depID @ '': '' @ err_text e))
           | None \<Rightarrow>
               if pg_nodesByID g depID = None
               then Some (Errorf (''dependency missing in graph: '' @ depID))
               else dependency_error_loop ds g results))"

definition dependencyError :: "PlanNode \<Rightarrow> planGraph \<Rightarrow> (string \<rightharpoonup> AgentResult) \<Rightarrow> goerr option" where
  "dependencyError node g results = dependency_error_loop (pn_DependsOn node) g results"

section \<open>The specification of a plan\<close>

definition plan_ids :: "ExecutionPlan \<Rightarrow> string list" where
  "plan_ids plan = map node_id (ep_Nodes plan)"

text \<open>One edge \<open>(d, n)\<close> per entry \<open>d\<close> of \<open>DependsOn\<close> of node \<open>n\<close>.\<close>

definition plan_edges :: "ExecutionPlan \<Rightarrow> (string \<times> string) list" where
  "plan_edges plan = concat (map (\<lambda>n. map (\<lambda>d. (d, node_id n)) (pn_DependsOn n)) (ep_Nodes plan))"

definition plan_wellformed :: "ExecutionPlan \<Rightarrow> bool" where
  "plan_wellformed plan \<longleftrightarrow>
     ep_Nodes plan \<noteq> [] \<and> [] \<notin> set (plan_ids plan) \<and> distinct (plan_ids plan)
     \<and> (\<forall>e \<in> set (plan_edges plan). fst e \<in> set (plan_ids plan) \<and> fst e \<noteq> snd e)"

section \<open>The loops build the maps of the specification\<close>

lemma index_nodes_ok:
  "(\<exists>r. index_nodes ns m d = Inr r) \<longleftrightarrow>
     [] \<notin> set (map node_id ns) \<and> distinct (map node_id ns) \<and> (\<forall>n \<in> set ns. m (node_id n) = None)"
  by (induction ns arbitrary: m d) (auto simp: image_iff)

lemma index_nodes_maps:
  assumes "index_nodes ns m d = Inr (m', d')"
  shows "m' = m ++ map_of (map (\<lambda>n. (node_id n, n)) ns)
       \<and> d' = d ++ map_of (map (\<lambda>n. (node_id n, int (length (pn_DependsOn n)))) ns)"
  using assms
proof (induction ns arbitrary: m d)
  case (Cons n ns)
  from Cons.prems have rec: "index_nodes ns (m(node_id n \<mapsto> n))
      (d(node_id n \<mapsto> int (length (pn_DependsOn n)))) = Inr (m', d')"
    by (auto split: if_splits)
  then have "node_id n \<notin> set (map node_id ns)"
    using index_nodes_ok [of ns "m(node_id n \<mapsto> n)"] by fastforce
  then have "map_of (map (\<lambda>n. (node_id n, n)) ns) (node_id n) = None"
      and "map_of (map (\<lambda>n. (node_id n, int (length (pn_DependsOn n)))) ns) (node_id n) = None"
    by (auto simp: map_of_eq_None_iff image_iff)
  with Cons.IH [OF rec] show ?case by (auto simp: map_add_def fun_eq_iff split: option.splits)
qed simp

lemma index_nodes_indegree:
  assumes "distinct (map node_id ns)"
  shows "map_get 0 (map_of (map (\<lambda>n. (node_id n, int (length (pn_DependsOn n)))) ns)) v
       = int (length (filter (\<lambda>e. snd e = v)
           (concat (map (\<lambda>n. map (\<lambda>d. (d, node_id n)) (pn_DependsOn n)) ns))))"
  using assms
proof (induction ns)
  case (Cons n ns)
  have own: "length (filter ((\<lambda>e. snd e = v) \<circ> (\<lambda>d. (d, node_id n))) ds)
      = (if v = node_id n then length ds else 0)" for ds
    by (induction ds) auto
  have "length (filter (\<lambda>e. snd e = node_id n)
      (concat (map (\<lambda>n. map (\<lambda>d. (d, node_id n)) (pn_DependsOn n)) ns))) = 0"
    using Cons.prems by (auto simp: filter_empty_conv image_iff)
  with Cons own show ?case by (auto simp: map_get_def filter_map)
qed simp

lemma link_deps_ok:
  "(\<exists>r. link_deps m i ds ch = Inr r) \<longleftrightarrow> (\<forall>d \<in> set ds. m d \<noteq> None \<and> d \<noteq> i)"
  by (induction ds arbitrary: ch) auto

lemma link_deps_get:
  "link_deps m i ds ch = Inr ch' \<Longrightarrow>
   fm_get [] ch' u = fm_get [] ch u @ map snd (filter (\<lambda>e. fst e = u) (map (\<lambda>d. (d, i)) ds))"
  by (induction ds arbitrary: ch) (auto split: if_splits)

lemma link_nodes_ok:
  "(\<exists>r. link_nodes m ns ch = Inr r) \<longleftrightarrow>
     (\<forall>n \<in> set ns. \<forall>d \<in> set (pn_DependsOn n). m d \<noteq> None \<and> d \<noteq> node_id n)"
proof (induction ns arbitrary: ch)
  case (Cons n ns)
  have "link_deps m (node_id n) (pn_DependsOn n) ch = Inl e \<Longrightarrow>
      \<not> (\<forall>d \<in> set (pn_DependsOn n). m d \<noteq> None \<and> d \<noteq> node_id n)" for e
    using link_deps_ok [of m "node_id n" "pn_DependsOn n" ch] by auto
  moreover have "link_deps m (node_id n) (pn_DependsOn n) ch = Inr ch' \<Longrightarrow>
      \<forall>d \<in> set (pn_DependsOn n). m d \<noteq> None \<and> d \<noteq> node_id n" for ch'
    using link_deps_ok [of m "node_id n" "pn_DependsOn n" ch] by blast
  ultimately show ?case using Cons.IH by (auto split: sum.splits)
qed simp

lemma link_nodes_get:
  "link_nodes m ns ch = Inr ch' \<Longrightarrow>
   fm_get [] ch' u = fm_get [] ch u @ map snd (filter (\<lambda>e. fst e = u)
     (concat (map (\<lambda>n. map (\<lambda>d. (d, node_id n)) (pn_DependsOn n)) ns)))"
  by (induction ns arbitrary: ch) (auto split: sum.splits dest: link_deps_get)

definition plan_nodesByID :: "ExecutionPlan \<Rightarrow> string \<rightharpoonup> PlanNode" where
  "plan_nodesByID plan = map_of (map (\<lambda>n. (node_id n, n)) (ep_Nodes plan))"

definition plan_indegree :: "ExecutionPlan \<Rightarrow> indegree" where
  "plan_indegree plan =
     map_of (map (\<lambda>n. (node_id n, int (length (pn_DependsOn n)))) (ep_Nodes plan))"

definition plan_children :: "ExecutionPlan \<Rightarrow> children" where
  "plan_children plan =
     (case link_nodes (plan_nodesByID plan) (ep_Nodes plan) fmempty of Inr ch \<Rightarrow> ch | Inl _ \<Rightarrow> fmempty)"

lemma plan_nodesByID_None: "plan_nodesByID plan i = None \<longleftrightarrow> i \<notin> set (plan_ids plan)"
  by (simp add: plan_nodesByID_def plan_ids_def map_of_eq_None_iff image_image)

lemma plan_wellformed_links:
  assumes "plan_wellformed plan"
  shows "link_nodes (plan_nodesByID plan) (ep_Nodes plan) fmempty = Inr (plan_children plan)"
proof -
  have "\<exists>r. link_nodes (plan_nodesByID plan) (ep_Nodes plan) fmempty = Inr r"
    using assms unfolding link_nodes_ok plan_nodesByID_None
    by (fastforce simp: plan_wellformed_def plan_edges_def)
  then show ?thesis by (auto simp: plan_children_def)
qed

interpretation plan: kahn_source plan_wellformed plan_ids plan_edges plan_children plan_indegree
proof unfold_locales
  fix p e u v
  assume ok: "plan_wellformed p"
  show "distinct (plan_ids p)" using ok by (simp add: plan_wellformed_def)
  show "e \<in> set (plan_edges p) \<Longrightarrow> fst e \<in> set (plan_ids p) \<and> snd e \<in> set (plan_ids p)"
    using ok by (auto simp: plan_wellformed_def plan_edges_def plan_ids_def)
  show "fm_get [] (plan_children p) u = map snd (filter (\<lambda>e. fst e = u) (plan_edges p))"
    using link_nodes_get [OF plan_wellformed_links [OF ok]] by (simp add: plan_edges_def)
  show "deg (plan_indegree p) v = int (length (filter (\<lambda>e. snd e = v) (plan_edges p)))"
    using ok index_nodes_indegree [of "ep_Nodes p"]
    by (simp add: plan_indegree_def plan_edges_def plan_wellformed_def plan_ids_def)
qed

lemma buildGraph_wellformed:
  assumes "plan_wellformed plan"
  shows "buildGraph plan =
     (case level_loop (plan_children plan)
             (sort_strings (filter (\<lambda>v. deg (plan_indegree plan) v = 0) (plan_ids plan)))
             (plan_indegree plan) 0 [] of
        (visited, levels) \<Rightarrow>
          if visited \<noteq> length (plan_ids plan)
          then Inl (Errorf ''execution plan contains cycle'')
          else Inr \<lparr>pg_nodes = ep_Nodes plan, pg_nodesByID = plan_nodesByID plan, pg_levels = levels\<rparr>)"
proof -
  have "\<exists>r. index_nodes (ep_Nodes plan) Map.empty Map.empty = Inr r"
    using assms unfolding index_nodes_ok by (auto simp: plan_wellformed_def plan_ids_def)
  then have "index_nodes (ep_Nodes plan) Map.empty Map.empty = Inr (plan_nodesByID plan, plan_indegree plan)"
    using index_nodes_maps [of "ep_Nodes plan" Map.empty Map.empty]
    by (auto simp: plan_nodesByID_def plan_indegree_def)
  then show ?thesis
    using assms by (simp add: buildGraph_def plan_wellformed_links plan_ids_def plan_wellformed_def Let_def)
qed

lemma buildGraph_illformed:
  assumes "buildGraph plan = Inr g"
  shows "plan_wellformed plan"
proof -
  from assms obtain m d where ne: "ep_Nodes plan \<noteq> []"
      and idx: "index_nodes (ep_Nodes plan) Map.empty Map.empty = Inr (m, d)"
      and lnk: "\<exists>r. link_nodes m (ep_Nodes plan) fmempty = Inr r"
    by (auto simp: buildGraph_def split: if_splits sum.splits prod.splits)
  have m: "m = plan_nodesByID plan"
    using index_nodes_maps [OF idx] by (simp add: plan_nodesByID_def)
  have ids: "[] \<notin> set (plan_ids plan)" "distinct (plan_ids plan)"
    using idx index_nodes_ok [of "ep_Nodes plan" Map.empty Map.empty] by (auto simp: plan_ids_def)
  have "\<forall>e \<in> set (plan_edges plan). fst e \<in> set (plan_ids plan) \<and> fst e \<noteq> snd e"
    using lnk unfolding link_nodes_ok m plan_nodesByID_None by (fastforce simp: plan_edges_def)
  with ne ids show ?thesis by (simp add: plan_wellformed_def)
qed

section \<open>Properties\<close>

lemma buildGraph_Inr_iff:
  "(\<exists>g. buildGraph plan = Inr g) \<longleftrightarrow> plan_wellformed plan \<and> acyclic (set (plan_edges plan))"
proof -
  have "(\<exists>g. buildGraph plan = Inr g) \<longleftrightarrow> acyclic (set (plan_edges plan))" if ok: "plan_wellformed plan"
  proof -
    obtain n ls where run: "level_loop (plan_children plan)
        (sort_strings (filter (\<lambda>v. deg (plan_indegree plan) v = 0) (plan_ids plan)))
        (plan_indegree plan) 0 [] = (n, ls)" by fastforce
    show ?thesis
      using plan.level_loop_correct(1) [OF ok run] by (simp add: buildGraph_wellformed [OF ok] run)
  qed
  with buildGraph_illformed show ?thesis by blast
qed

text \<open>
  C7: \<open>buildGraph\<close> accepts a plan if and only if it has nodes, its invocation ids are non-empty and
  distinct, every dependency names another node of the plan, and the dependency relation has no
  cycle. In particular a cyclic plan is always rejected and an acyclic one never is.
\<close>

theorem buildGraph_accepts_iff:
  "(\<exists>g. buildGraph plan = Inr g) \<longleftrightarrow> plan_wellformed plan \<and> acyclic (set (plan_edges plan))"
  by (rule buildGraph_Inr_iff)

text \<open>The levels of an accepted plan; the engine's proofs use this fact.\<close>

lemma buildGraph_levels:
  assumes "buildGraph plan = Inr g"
  shows "mset (concat (pg_levels g)) = mset (plan_ids plan)"
    and "topo_levels (set (plan_edges plan)) {} (pg_levels g)"
    and "[] \<notin> set (pg_levels g)" and "\<forall>l \<in> set (pg_levels g). sorted l"
    and "pg_nodes g = ep_Nodes plan" and "pg_nodesByID g = plan_nodesByID plan"
proof -
  note ok = buildGraph_illformed [OF assms]
  obtain n ls where run: "level_loop (plan_children plan)
      (sort_strings (filter (\<lambda>v. deg (plan_indegree plan) v = 0) (plan_ids plan)))
      (plan_indegree plan) 0 [] = (n, ls)" by fastforce
  from assms have n: "n = length (plan_ids plan)"
      and g: "g = \<lparr>pg_nodes = ep_Nodes plan, pg_nodesByID = plan_nodesByID plan, pg_levels = ls\<rparr>"
    by (auto simp: buildGraph_wellformed [OF ok] run split: if_splits)
  from plan.level_loop_correct(2) [OF ok run n] g
  show "mset (concat (pg_levels g)) = mset (plan_ids plan)"
    and "topo_levels (set (plan_edges plan)) {} (pg_levels g)"
    and "[] \<notin> set (pg_levels g)" and "\<forall>l \<in> set (pg_levels g). sorted l"
    and "pg_nodes g = ep_Nodes plan" and "pg_nodesByID g = plan_nodesByID plan"
    by auto
qed

text \<open>
  The levels of an accepted plan partition its nodes (every invocation id occurs in exactly one
  level, once), no level is empty, each level is sorted, and every dependency of a node lies in an
  earlier level, so a level can run concurrently once the levels before it are complete.
\<close>

theorem buildGraph_topological:
  assumes "buildGraph plan = Inr g"
  shows "mset (concat (pg_levels g)) = mset (plan_ids plan)
       \<and> topo_levels (set (plan_edges plan)) {} (pg_levels g)
       \<and> [] \<notin> set (pg_levels g) \<and> (\<forall>l \<in> set (pg_levels g). sorted l)"
  using buildGraph_levels [OF assms] by blast

definition default_retry :: RetryPolicy where
  "default_retry = \<lparr>rp_MaxAttempts = 0, rp_Backoff = [], rp_RetryableErrs = []\<rparr>"

definition default_breaker :: CircuitBreakerPolicy where
  "default_breaker = \<lparr>cp_FailureThreshold = 0, cp_ResetTimeout = 0, cp_ProbeTimeout = 0\<rparr>"

definition mk_node :: "string \<Rightarrow> string \<Rightarrow> string list \<Rightarrow> PlanNode" where
  "mk_node i a ds = \<lparr>pn_Invocation = \<lparr>inv_ID = i, inv_AgentID = a, inv_Input = empty_input\<rparr>,
     pn_DependsOn = ds, pn_RetryPolicy = default_retry, pn_CircuitBreakerPolicy = default_breaker\<rparr>"

definition diamond :: ExecutionPlan where
  "diamond = \<lparr>ep_TaskID = ''t'', ep_Nodes = [mk_node ''d'' ''x'' [''b'', ''c''], mk_node ''c'' ''x'' [''a''],
     mk_node ''b'' ''y'' [''a''], mk_node ''a'' ''y'' []]\<rparr>"

lemma diamond_levels:
  "map_sum id pg_levels (buildGraph diamond) = Inr [[''a''], [''b'', ''c''], [''d'']]"
  by (simp add: diamond_def mk_node_def buildGraph_def level_loop.simps sort_strings_def sort_slice_def Let_def)

theorem buildGraph_topological_witness:
  "\<exists>g. buildGraph diamond = Inr g \<and> pg_levels g = [[''a''], [''b'', ''c''], [''d'']]
     \<and> topo_levels (set (plan_edges diamond)) {} (pg_levels g)"
proof -
  obtain g where g: "buildGraph diamond = Inr g" and l: "pg_levels g = [[''a''], [''b'', ''c''], [''d'']]"
    using diamond_levels by (cases "buildGraph diamond") auto
  with buildGraph_topological [OF g] show ?thesis by blast
qed

end
