(* ===== verification/Retry.thy ===== *)
theory Retry
  imports AgentTypes
begin

text \<open>
  \<open>src/internal/retry/retry.go\<close>: the backoff schedule with Go's 64-bit arithmetic, and the generic
  retry loop \<open>Execute\<close>. The function that is retried and the wait between attempts (a \<open>select\<close> on
  the context and a timer) act on a world state \<open>'w\<close>.
\<close>

section \<open>Backoff\<close>

text \<open>\<open>1 << uint(k)\<close> at type \<open>time.Duration\<close>: a shift by 64 or more gives 0.\<close>

definition shl1 :: "int \<Rightarrow> int" where
  "shl1 k = (let u = k mod 2 ^ 64 in if u < 64 then wrap64 (2 ^ nat u) else 0)"

text \<open>Go's remainder takes the sign of the dividend.\<close>

definition go_rem :: "int \<Rightarrow> int \<Rightarrow> int" where
  "go_rem a b = sgn a * (\<bar>a\<bar> mod \<bar>b\<bar>)"

definition BackoffDuration :: "BackoffStrategy \<Rightarrow> go_int \<Rightarrow> duration" where
  "BackoffDuration strategy attempt =
     (let base = 100 * millisecond in
      if strategy = BackoffExponential then wrap64 (base * shl1 (attempt - 1))
      else if strategy = BackoffExponentialJitter then
        (let exp = wrap64 (base * shl1 (attempt - 1));
             jitter = wrap64 (go_rem (wrap64 (attempt * 37)) 100 * millisecond)
         in wrap64 (exp + jitter))
      else wrap64 (base * attempt))"

section \<open>Execute\<close>

function execute_loop ::
  "RetryPolicy \<Rightarrow> ('w \<Rightarrow> goerr option \<times> 'w) \<Rightarrow> (duration \<Rightarrow> 'w \<Rightarrow> goerr option \<times> 'w)
   \<Rightarrow> go_int \<Rightarrow> go_int \<Rightarrow> goerr option \<Rightarrow> 'w \<Rightarrow> goerr option \<times> 'w" where
  "execute_loop policy fn wait attempts i lastErr w =
     (if i \<le> attempts then
        (case fn w of
           (None, w') \<Rightarrow> (None, w')
         | (Some err, w') \<Rightarrow>
             if i = attempts then (Some err, w')
             else
               (case wait (BackoffDuration (rp_Backoff policy) i) w' of
                  (Some ctxErr, w'') \<Rightarrow> (Some ctxErr, w'')
                | (None, w'') \<Rightarrow>
                    execute_loop policy fn wait attempts (i + 1) (Some err) w''))
      else (lastErr, w))"
  by pat_completeness auto
termination
  by (relation "measure (\<lambda>(_, _, _, attempts, i, _, _). nat (attempts + 1 - i))") auto

declare execute_loop.simps [simp del]

definition Execute ::
  "RetryPolicy \<Rightarrow> ('w \<Rightarrow> goerr option \<times> 'w) \<Rightarrow> (duration \<Rightarrow> 'w \<Rightarrow> goerr option \<times> 'w)
   \<Rightarrow> 'w \<Rightarrow> goerr option \<times> 'w" where
  "Execute policy fn wait w =
     (let attempts = (if rp_MaxAttempts policy \<le> 0 then 1 else rp_MaxAttempts policy)
      in execute_loop policy fn wait attempts 1 None w)"

section \<open>The backoff schedule\<close>

lemma shl1_small: "0 \<le> k \<Longrightarrow> k < 63 \<Longrightarrow> shl1 k = 2 ^ nat k"
proof -
  assume k: "0 \<le> k" "k < 63"
  have "(2::int) ^ nat k < 2 ^ 63" by (rule power_strict_increasing) (use k in auto)
  moreover have "k mod 2 ^ 64 = k" by (rule mod_pos_pos_trivial) (use k in auto)
  ultimately show ?thesis using k by (simp add: shl1_def)
qed

lemma pow2_le_36: "0 \<le> k \<Longrightarrow> k \<le> 36 \<Longrightarrow> (2::int) ^ nat k \<le> 2 ^ 36"
  by (rule power_increasing) auto

lemma exponential_exact:
  assumes "1 \<le> n" and "n \<le> 37"
  shows "wrap64 (100 * millisecond * shl1 (n - 1)) = 100 * millisecond * 2 ^ nat (n - 1)"
  using assms pow2_le_36 [of "n - 1"] by (simp add: shl1_small)

text \<open>
  The backoff schedule is the documented one as long as the 64-bit duration can hold it:
  linear waits grow by 100ms per attempt, exponential waits double from 100ms, and the jittered
  wait exceeds the exponential one by less than 100ms. The bound is 37 attempts.
\<close>

theorem backoff_schedule:
  assumes "1 \<le> n" and "n \<le> 37"
  shows "BackoffDuration BackoffLinear n = 100 * millisecond * n
       \<and> BackoffDuration BackoffExponential n = 100 * millisecond * 2 ^ nat (n - 1)
       \<and> BackoffDuration BackoffExponentialJitter n
           = 100 * millisecond * 2 ^ nat (n - 1) + (n * 37 mod 100) * millisecond"
proof -
  have pow: "100 * millisecond * 2 ^ nat (n - 1) \<le> 100 * millisecond * 2 ^ 36"
    using assms pow2_le_36 [of "n - 1"] by simp
  have wrap: "wrap64 (n * 37) = n * 37" using assms by simp
  have rem: "go_rem (n * 37) 100 = n * 37 mod 100"
    using assms by (simp add: go_rem_def)
  have m: "n * 37 mod 100 < 100" by simp
  have jit: "wrap64 ((n * 37 mod 100) * millisecond) = (n * 37 mod 100) * millisecond"
    using m by (intro wrap64_small) auto
  have "wrap64 (100 * millisecond * 2 ^ nat (n - 1) + (n * 37 mod 100) * millisecond)
      = 100 * millisecond * 2 ^ nat (n - 1) + (n * 37 mod 100) * millisecond"
    using pow m by (intro wrap64_small) auto
  then show ?thesis
    using assms exponential_exact [OF assms]
    by (simp add: BackoffDuration_def Let_def backoff_names wrap rem jit)
qed

theorem backoff_schedule_witness:
  "BackoffDuration BackoffLinear 3 = 300 * millisecond
   \<and> BackoffDuration BackoffExponential 3 = 400 * millisecond
   \<and> BackoffDuration BackoffExponentialJitter 3 = 411 * millisecond"
  using backoff_schedule [of 3] by simp

text \<open>
  Past 37 attempts the exponential schedule leaves the range of a duration: the wait of the
  38th attempt is negative, and from the 57th on it is 0, so a policy with that many attempts
  stops waiting at all.
\<close>

theorem backoff_overflow:
  "BackoffDuration BackoffExponential 38 < 0
   \<and> BackoffDuration BackoffExponential 57 = 0
   \<and> BackoffDuration BackoffExponential 65 = 0"
  by (simp add: BackoffDuration_def backoff_names shl1_def wrap64_def)

section \<open>The retry loop\<close>

text \<open>Counting the calls of the retried function: a counter beside the world state.\<close>

definition counted :: "('w \<Rightarrow> goerr option \<times> 'w) \<Rightarrow> 'w \<times> nat \<Rightarrow> goerr option \<times> ('w \<times> nat)" where
  "counted fn s = (case fn (fst s) of (e, w) \<Rightarrow> (e, (w, Suc (snd s))))"

definition uncounted ::
  "(duration \<Rightarrow> 'w \<Rightarrow> goerr option \<times> 'w) \<Rightarrow> duration \<Rightarrow> 'w \<times> nat \<Rightarrow> goerr option \<times> ('w \<times> nat)" where
  "uncounted wait d s = (case wait d (fst s) of (e, w) \<Rightarrow> (e, (w, snd s)))"

lemma execute_loop_calls:
  assumes "execute_loop policy (counted fn) (uncounted wait) attempts i lastErr (w, k) = (r, (w', n))"
    and "i \<le> attempts"
  shows "Suc k \<le> n \<and> int n \<le> int k + (attempts + 1 - i)"
  using assms
proof (induction "nat (attempts + 1 - i)" arbitrary: i lastErr w k rule: less_induct)
  case less
  let ?step = "execute_loop policy (counted fn) (uncounted wait) attempts"
  note run = less.prems(1) [unfolded execute_loop.simps [of policy _ _ attempts i lastErr]]
  obtain e w1 where fn: "fn w = (e, w1)" by (cases "fn w")
  show ?case
  proof (cases "e = None \<or> i = attempts")
    case True
    with run fn less.prems(2) show ?thesis by (auto simp: counted_def split: option.splits)
  next
    case False
    then obtain err where e: "e = Some err" and i: "i < attempts" using less.prems(2) by auto
    obtain c w2 where wait: "wait (BackoffDuration (rp_Backoff policy) i) w1 = (c, w2)"
      by (cases "wait (BackoffDuration (rp_Backoff policy) i) w1")
    show ?thesis
    proof (cases c)
      case None
      with run fn wait e i have "?step (i + 1) (Some err) (w2, Suc k) = (r, (w', n))"
        by (simp add: counted_def uncounted_def)
      then have "Suc (Suc k) \<le> n \<and> int n \<le> int (Suc k) + (attempts + 1 - (i + 1))"
        by (rule less.hyps [rotated]) (use i in auto)
      then show ?thesis by auto
    next
      case (Some ctxErr)
      with run fn wait e i show ?thesis by (auto simp: counted_def uncounted_def)
    qed
  qed
qed

text \<open>
  \<open>Execute\<close> calls the function at least once and never more often than the policy allows
  (once when \<open>MaxAttempts\<close> is not positive), whatever the function and the context do.
\<close>

theorem execute_call_bounds:
  assumes "Execute policy (counted fn) (uncounted wait) (w, 0) = (r, (w', n))"
  shows "1 \<le> n \<and> int n \<le> max 1 (rp_MaxAttempts policy)"
  using execute_loop_calls [of policy fn wait 1 1 None w 0 r w' n]
    execute_loop_calls [of policy fn wait "rp_MaxAttempts policy" 1 None w 0 r w' n] assms
  by (auto simp: Execute_def Let_def split: if_splits)

definition failing_fn :: "nat \<Rightarrow> goerr option \<times> nat" where
  "failing_fn w = (Some (Errorf ''boom''), Suc w)"

definition no_wait :: "duration \<Rightarrow> 'w \<Rightarrow> goerr option \<times> 'w" where
  "no_wait d w = (None, w)"

definition three_attempts :: RetryPolicy where
  "three_attempts = \<lparr>rp_MaxAttempts = 3, rp_Backoff = BackoffLinear, rp_RetryableErrs = []\<rparr>"

theorem execute_call_bounds_witness:
  "Execute three_attempts (counted failing_fn) (uncounted no_wait) (0, 0)
     = (Some (Errorf ''boom''), (3, 3))
   \<and> (1::nat) \<le> 3 \<and> int 3 \<le> max 1 (rp_MaxAttempts three_attempts)"
proof -
  have run: "Execute three_attempts (counted failing_fn) (uncounted no_wait) (0, 0)
      = (Some (Errorf ''boom''), (3, 3))"
    by (simp add: Execute_def three_attempts_def execute_loop.simps counted_def uncounted_def
        failing_fn_def no_wait_def numeral_eq_Suc)
  with execute_call_bounds [OF run] show ?thesis by blast
qed

text \<open>
  The plain specification of a retry: try again until success or until the attempts are used up,
  and report the last error.
\<close>

fun run_attempts :: "('w \<Rightarrow> goerr option \<times> 'w) \<Rightarrow> nat \<Rightarrow> 'w \<Rightarrow> goerr option \<times> 'w" where
  "run_attempts fn 0 w = fn w"
| "run_attempts fn (Suc k) w =
     (case fn w of (None, w') \<Rightarrow> (None, w') | (Some e, w') \<Rightarrow> run_attempts fn k w')"

lemma execute_loop_run_attempts:
  "i \<le> attempts \<Longrightarrow>
   execute_loop policy fn no_wait attempts i lastErr w = run_attempts fn (nat (attempts - i)) w"
proof (induction "nat (attempts - i)" arbitrary: i lastErr w)
  case 0
  then show ?case
    by (subst execute_loop.simps) (auto split: prod.splits option.splits)
next
  case (Suc k)
  then have "nat (attempts - i) = Suc k" and "k = nat (attempts - (i + 1))" and "i < attempts"
    by auto
  with Suc.hyps(1) [of "i + 1"] show ?case
    by (subst execute_loop.simps) (auto simp: no_wait_def split: prod.splits option.splits)
qed


end
