(* ===== verification/CircuitBreaker.thy ===== *)
theory CircuitBreaker
  imports Retry
begin

text \<open>
  \<open>src/internal/retry/circuit_breaker.go\<close>. The breaker is a map from agent ids to states; each
  method runs under the breaker's mutex, so concurrent callers produce a sequence of atomic
  events. The specification is the state machine Closed / Open / Half-open of the README
  (section "Resilience model"), one per agent; the methods refine it for every sequence of events.
\<close>

section \<open>The breaker of the code\<close>

record circuitState =
  consecutiveFailures :: go_int
  openUntil :: time
  halfOpenProbeActive :: bool

type_synonym breaker = "string \<rightharpoonup> circuitState"

definition zero_state :: circuitState where
  "zero_state = \<lparr>consecutiveFailures = 0, openUntil = time_zero, halfOpenProbeActive = False\<rparr>"

definition NewCircuitBreaker :: breaker where
  "NewCircuitBreaker = Map.empty"

definition breaker_state :: "breaker \<Rightarrow> string \<Rightarrow> circuitState" where
  "breaker_state cb a = map_get zero_state cb a"

definition Allow ::
  "string \<Rightarrow> CircuitBreakerPolicy \<Rightarrow> time \<Rightarrow> breaker \<Rightarrow> (bool \<times> bool) \<times> breaker" where
  "Allow agentID policy now cb =
     (if cp_FailureThreshold policy \<le> 0 then ((True, False), cb)
      else let s = breaker_state cb agentID in
        if halfOpenProbeActive s then ((False, False), cb)
        else if time_is_zero (openUntil s) then ((True, False), cb)
        else if time_before now (openUntil s) then ((False, False), cb)
        else ((True, True), cb(agentID \<mapsto>
               s\<lparr>openUntil := time_zero, consecutiveFailures := 0, halfOpenProbeActive := True\<rparr>)))"

definition RecordSuccess :: "string \<Rightarrow> breaker \<Rightarrow> breaker" where
  "RecordSuccess agentID cb =
     (let s = breaker_state cb agentID
      in cb(agentID \<mapsto> s\<lparr>consecutiveFailures := 0, openUntil := time_zero,
                          halfOpenProbeActive := False\<rparr>))"

definition RecordFailure ::
  "string \<Rightarrow> CircuitBreakerPolicy \<Rightarrow> time \<Rightarrow> breaker \<Rightarrow> breaker" where
  "RecordFailure agentID policy now cb =
     (if cp_FailureThreshold policy \<le> 0 then cb
      else
        let reset = (if cp_ResetTimeout policy \<le> 0 then 60 * second else cp_ResetTimeout policy);
            s = breaker_state cb agentID
        in if halfOpenProbeActive s then
             cb(agentID \<mapsto> s\<lparr>openUntil := time_add now reset, consecutiveFailures := 0,
                               halfOpenProbeActive := False\<rparr>)
           else
             let s1 = s\<lparr>consecutiveFailures := wrap64 (consecutiveFailures s + 1)\<rparr>;
                 s2 = (if consecutiveFailures s1 \<ge> cp_FailureThreshold policy
                       then s1\<lparr>openUntil := time_add now reset, consecutiveFailures := 0,
                               halfOpenProbeActive := False\<rparr>
                       else s1)
             in cb(agentID \<mapsto> s2))"

section \<open>The specification\<close>

datatype phase = Closed int | Open time int | HalfOpen

definition phase_of :: "circuitState \<Rightarrow> phase" where
  "phase_of s =
     (if halfOpenProbeActive s then HalfOpen
      else if time_is_zero (openUntil s) then Closed (consecutiveFailures s)
      else Open (openUntil s) (consecutiveFailures s))"

definition breaker_phase :: "breaker \<Rightarrow> string \<Rightarrow> phase" where
  "breaker_phase cb a = phase_of (breaker_state cb a)"

definition reset_of :: "CircuitBreakerPolicy \<Rightarrow> duration" where
  "reset_of p = (if cp_ResetTimeout p \<le> 0 then 60 * second else cp_ResetTimeout p)"

fun spec_allow :: "CircuitBreakerPolicy \<Rightarrow> time \<Rightarrow> phase \<Rightarrow> (bool \<times> bool) \<times> phase" where
  "spec_allow p now (Closed n) = ((True, False), Closed n)"
| "spec_allow p now (Open t n) =
     (if cp_FailureThreshold p \<le> 0 then ((True, False), Open t n)
      else if now < t then ((False, False), Open t n)
      else ((True, True), HalfOpen))"
| "spec_allow p now HalfOpen =
     (if cp_FailureThreshold p \<le> 0 then ((True, False), HalfOpen) else ((False, False), HalfOpen))"

fun spec_failure :: "CircuitBreakerPolicy \<Rightarrow> time \<Rightarrow> phase \<Rightarrow> phase" where
  "spec_failure p now (Closed n) =
     (if cp_FailureThreshold p \<le> 0 then Closed n
      else if cp_FailureThreshold p \<le> n + 1 then Open (now + reset_of p) 0
      else Closed (n + 1))"
| "spec_failure p now (Open t n) =
     (if cp_FailureThreshold p \<le> 0 then Open t n
      else if cp_FailureThreshold p \<le> n + 1 then Open (now + reset_of p) 0
      else Open t (n + 1))"
| "spec_failure p now HalfOpen =
     (if cp_FailureThreshold p \<le> 0 then HalfOpen else Open (now + reset_of p) 0)"

section \<open>Invariant and interface\<close>

definition state_ok :: "circuitState \<Rightarrow> bool" where
  "state_ok s \<longleftrightarrow> 0 \<le> consecutiveFailures s \<and> consecutiveFailures s < 2 ^ 63 - 1
     \<and> (halfOpenProbeActive s \<longrightarrow> time_is_zero (openUntil s) \<and> consecutiveFailures s = 0)"

definition breaker_ok :: "breaker \<Rightarrow> bool" where
  "breaker_ok cb \<longleftrightarrow> (\<forall>a. state_ok (breaker_state cb a))"

text \<open>What a caller supplies: a clock reading after the zero time, and a threshold that is an \<open>int\<close>.\<close>

definition call_ok :: "CircuitBreakerPolicy \<Rightarrow> time \<Rightarrow> bool" where
  "call_ok p now \<longleftrightarrow> 0 < now \<and> int64 (cp_FailureThreshold p)"

lemma breaker_state_upd [simp]:
  "breaker_state (cb(a \<mapsto> s)) b = (if b = a then s else breaker_state cb b)"
  by (simp add: breaker_state_def)

lemma reset_of_pos: "0 < reset_of p"
  by (simp add: reset_of_def)

lemmas breaker_defs = Allow_def RecordSuccess_def RecordFailure_def breaker_phase_def phase_of_def
  state_ok_def Let_def time_defs reset_of_def

text \<open>
  The contract between the engine and the breaker. \<open>view\<close> is the phase of an agent; every method
  changes the phase of the agent it is called for as the specification says, and of no other.
\<close>

locale breaker_contract =
  fixes inv :: "'b \<Rightarrow> bool"
    and view :: "'b \<Rightarrow> string \<Rightarrow> phase"
    and allow :: "string \<Rightarrow> CircuitBreakerPolicy \<Rightarrow> time \<Rightarrow> 'b \<Rightarrow> (bool \<times> bool) \<times> 'b"
    and success :: "string \<Rightarrow> 'b \<Rightarrow> 'b"
    and failure :: "string \<Rightarrow> CircuitBreakerPolicy \<Rightarrow> time \<Rightarrow> 'b \<Rightarrow> 'b"
  assumes allow_result: "inv b \<Longrightarrow> fst (allow a p now b) = fst (spec_allow p now (view b a))"
    and allow_view: "inv b \<Longrightarrow> view (snd (allow a p now b)) a' =
          (if a' = a then snd (spec_allow p now (view b a)) else view b a')"
    and success_view: "inv b \<Longrightarrow> view (success a b) a' = (if a' = a then Closed 0 else view b a')"
    and failure_view: "inv b \<Longrightarrow> call_ok p now \<Longrightarrow>
          view (failure a p now b) a' = (if a' = a then spec_failure p now (view b a) else view b a')"
    and allow_inv: "inv b \<Longrightarrow> inv (snd (allow a p now b))"
    and success_inv: "inv b \<Longrightarrow> inv (success a b)"
    and failure_inv: "inv b \<Longrightarrow> call_ok p now \<Longrightarrow> inv (failure a p now b)"
begin

lemma half_open_denies:
  assumes "inv b" and "view b a = HalfOpen" and "0 < cp_FailureThreshold p"
  shows "fst (allow a p now b) = (False, False)"
  using assms by (simp add: allow_result)

lemma granted_probe:
  assumes "inv b" and "fst (allow a p now b) = (True, True)"
  shows "view (snd (allow a p now b)) a = HalfOpen \<and> (\<exists>t n. view b a = Open t n \<and> t \<le> now)"
  using assms by (cases "view b a") (auto simp: allow_result allow_view split: if_splits)

lemma probe_failure_reopens:
  assumes "inv b" and "view b a = HalfOpen" and "0 < cp_FailureThreshold p" and "call_ok p now"
  shows "view (failure a p now b) a = Open (now + reset_of p) 0"
  using assms by (simp add: failure_view)

end

lemma state_ok_zero [simp]: "state_ok zero_state"
  by (simp add: state_ok_def zero_state_def time_defs)

lemma breaker_ok_new: "breaker_ok NewCircuitBreaker"
  by (simp add: breaker_ok_def NewCircuitBreaker_def breaker_state_def)

lemma breaker_ok_upd: "breaker_ok cb \<Longrightarrow> state_ok s \<Longrightarrow> breaker_ok (cb(a \<mapsto> s))"
  by (simp add: breaker_ok_def)

lemma breaker_okD: "breaker_ok cb \<Longrightarrow> state_ok (breaker_state cb a)"
  by (simp add: breaker_ok_def)

lemma Allow_ok: "breaker_ok cb \<Longrightarrow> breaker_ok (snd (Allow a p now cb))"
  by (auto simp: Allow_def Let_def state_ok_def time_defs intro!: breaker_ok_upd)

lemma RecordSuccess_ok: "breaker_ok cb \<Longrightarrow> breaker_ok (RecordSuccess a cb)"
  by (auto simp: RecordSuccess_def Let_def state_ok_def time_defs intro!: breaker_ok_upd)

lemma failure_count_exact:
  "state_ok s \<Longrightarrow> wrap64 (consecutiveFailures s + 1) = consecutiveFailures s + 1"
  by (auto simp: state_ok_def)

lemma RecordFailure_ok:
  assumes "breaker_ok cb" and "call_ok p now"
  shows "breaker_ok (RecordFailure a p now cb)"
  using assms breaker_okD [OF assms(1), of a]
  by (auto simp: RecordFailure_def Let_def failure_count_exact state_ok_def call_ok_def int64_def
      time_defs intro!: breaker_ok_upd)

lemma RecordFailure_phase:
  assumes "breaker_ok cb" and "call_ok p now"
  shows "breaker_phase (RecordFailure a p now cb) a = spec_failure p now (breaker_phase cb a)"
proof -
  let ?s = "breaker_state cb a"
  have ok: "state_ok ?s" using assms(1) by (rule breaker_okD)
  have pos: "now + reset_of p \<noteq> 0"
    using assms(2) reset_of_pos [of p] by (auto simp: call_ok_def)
  show ?thesis
    using ok pos
    by (auto simp: RecordFailure_def Let_def breaker_phase_def phase_of_def failure_count_exact
        state_ok_def time_defs reset_of_def)
qed

interpretation breaker: breaker_contract breaker_ok breaker_phase Allow RecordSuccess RecordFailure
proof unfold_locales
  fix b a a' p now
  assume ok: "breaker_ok b"
  show "fst (Allow a p now b) = fst (spec_allow p now (breaker_phase b a))"
    by (auto simp: Allow_def Let_def breaker_phase_def phase_of_def time_defs)
  show "breaker_phase (snd (Allow a p now b)) a' =
      (if a' = a then snd (spec_allow p now (breaker_phase b a)) else breaker_phase b a')"
    by (auto simp: Allow_def Let_def breaker_phase_def phase_of_def time_defs)
  show "breaker_phase (RecordSuccess a b) a' = (if a' = a then Closed 0 else breaker_phase b a')"
    by (simp add: RecordSuccess_def Let_def breaker_phase_def phase_of_def time_defs)
  show "breaker_ok (snd (Allow a p now b))" using ok by (rule Allow_ok)
  show "breaker_ok (RecordSuccess a b)" using ok by (rule RecordSuccess_ok)
  assume call: "call_ok p now"
  show "breaker_ok (RecordFailure a p now b)" using ok call by (rule RecordFailure_ok)
  have "breaker_phase (RecordFailure a p now b) a' = breaker_phase b a'" if "a' \<noteq> a"
    using that by (simp add: RecordFailure_def Let_def breaker_phase_def)
  then show "breaker_phase (RecordFailure a p now b) a' =
      (if a' = a then spec_failure p now (breaker_phase b a) else breaker_phase b a')"
    using RecordFailure_phase [OF ok call, of a] by simp
qed

section \<open>Sequences of events\<close>

datatype cb_event =
    EvAllow string CircuitBreakerPolicy time
  | EvSuccess string
  | EvFailure string CircuitBreakerPolicy time

fun ev_agent :: "cb_event \<Rightarrow> string" where
  "ev_agent (EvAllow a _ _) = a"
| "ev_agent (EvSuccess a) = a"
| "ev_agent (EvFailure a _ _) = a"

fun ev_ok :: "cb_event \<Rightarrow> bool" where
  "ev_ok (EvFailure _ p now) \<longleftrightarrow> call_ok p now"
| "ev_ok _ \<longleftrightarrow> True"

fun cb_apply :: "cb_event \<Rightarrow> breaker \<Rightarrow> breaker" where
  "cb_apply (EvAllow a p now) cb = snd (Allow a p now cb)"
| "cb_apply (EvSuccess a) cb = RecordSuccess a cb"
| "cb_apply (EvFailure a p now) cb = RecordFailure a p now cb"

fun phase_apply :: "cb_event \<Rightarrow> phase \<Rightarrow> phase" where
  "phase_apply (EvAllow _ p now) ph = snd (spec_allow p now ph)"
| "phase_apply (EvSuccess _) ph = Closed 0"
| "phase_apply (EvFailure _ p now) ph = spec_failure p now ph"

lemma cb_apply_ok: "breaker_ok cb \<Longrightarrow> ev_ok e \<Longrightarrow> breaker_ok (cb_apply e cb)"
  by (cases e) (simp_all add: Allow_ok RecordSuccess_ok RecordFailure_ok)

lemma cb_run_ok: "breaker_ok cb \<Longrightarrow> list_all ev_ok evs \<Longrightarrow> breaker_ok (fold cb_apply evs cb)"
  by (induction evs arbitrary: cb) (simp_all add: cb_apply_ok)

lemma cb_apply_phase:
  "breaker_ok cb \<Longrightarrow> ev_ok e \<Longrightarrow>
   breaker_phase (cb_apply e cb) a =
     (if ev_agent e = a then phase_apply e (breaker_phase cb a) else breaker_phase cb a)"
  by (cases e) (simp_all add: breaker.allow_view breaker.success_view breaker.failure_view)

lemma cb_run_phase:
  "breaker_ok cb \<Longrightarrow> list_all ev_ok evs \<Longrightarrow>
   breaker_phase (fold cb_apply evs cb) a
     = fold phase_apply (filter (\<lambda>e. ev_agent e = a) evs) (breaker_phase cb a)"
  by (induction evs arbitrary: cb) (auto simp: cb_apply_phase cb_apply_ok)


definition two_failures :: CircuitBreakerPolicy where
  "two_failures = \<lparr>cp_FailureThreshold = 2, cp_ResetTimeout = 100, cp_ProbeTimeout = 10\<rparr>"

definition trip_events :: "cb_event list" where
  "trip_events = [EvAllow ''a'' two_failures 1, EvFailure ''a'' two_failures 2,
     EvSuccess ''b'', EvAllow ''a'' two_failures 3, EvFailure ''a'' two_failures 4]"


text \<open>Between a granted probe and the next outcome recorded for the agent nothing else is let through.\<close>

lemma half_open_stable:
  assumes "breaker_ok cb" and "breaker_phase cb a = HalfOpen"
    and "\<forall>e \<in> set evs. ev_agent e = a \<longrightarrow> (\<exists>p now. e = EvAllow a p now)"
    and "list_all ev_ok evs"
  shows "breaker_ok (fold cb_apply evs cb) \<and> breaker_phase (fold cb_apply evs cb) a = HalfOpen"
  using assms
proof (induction evs arbitrary: cb)
  case (Cons e evs)
  have "breaker_phase (cb_apply e cb) a = HalfOpen"
    using Cons.prems by (cases e)
      (auto simp: breaker.allow_view breaker.success_view breaker.failure_view)
  with Cons show ?case by (simp add: cb_apply_ok)
qed simp

text \<open>
  Half-open admits exactly one trial. Once \<open>Allow\<close> has granted a probe for an agent, every
  further \<open>Allow\<close> for that agent under a policy with a positive threshold is refused, whatever
  other calls come in between, until an outcome of the agent is recorded.
\<close>

theorem single_probe:
  assumes "breaker_ok cb" and "fst (Allow a p now cb) = (True, True)"
    and "\<forall>e \<in> set evs. ev_agent e = a \<longrightarrow> (\<exists>p now. e = EvAllow a p now)"
    and "list_all ev_ok evs" and "0 < cp_FailureThreshold q"
  shows "fst (Allow a q now' (fold cb_apply evs (snd (Allow a p now cb)))) = (False, False)"
  using half_open_stable [OF Allow_ok [OF assms(1)] _ assms(3,4)]
    breaker.granted_probe [OF assms(1,2)] breaker.half_open_denies assms(5) by blast

theorem single_probe_witness:
  "fst (Allow ''a'' two_failures 500 (fold cb_apply [EvAllow ''a'' two_failures 300, EvSuccess ''b'']
     (snd (Allow ''a'' two_failures 200 (fold cb_apply trip_events NewCircuitBreaker)))))
   = (False, False)"
proof (rule single_probe)
  show "breaker_ok (fold cb_apply trip_events NewCircuitBreaker)"
    by (rule cb_run_ok [OF breaker_ok_new])
      (simp add: trip_events_def call_ok_def two_failures_def int64_def)
  show "fst (Allow ''a'' two_failures 200 (fold cb_apply trip_events NewCircuitBreaker)) = (True, True)"
    by (simp add: trip_events_def two_failures_def Allow_def RecordFailure_def RecordSuccess_def
        NewCircuitBreaker_def breaker_state_def zero_state_def time_defs)
qed (auto simp: two_failures_def)

section \<open>Tripping and recovering\<close>

lemma closed_failures:
  assumes "0 < cp_FailureThreshold p" and "n + int (length ts) < cp_FailureThreshold p"
  shows "fold phase_apply (map (EvFailure a p) ts) (Closed n) = Closed (n + int (length ts))"
  using assms
proof (induction ts arbitrary: n)
  case (Cons t ts)
  then have "phase_apply (EvFailure a p t) (Closed n) = Closed (n + 1)" by simp
  with Cons show ?case by (simp add: algebra_simps)
qed simp

lemma threshold_failures:
  assumes "0 < cp_FailureThreshold p" and "int (length ts) = cp_FailureThreshold p"
  shows "fold phase_apply (map (EvFailure a p) ts) (Closed 0) = Open (last ts + reset_of p) 0"
proof -
  from assms obtain us u where ts: "ts = us @ [u]" by (cases ts rule: rev_cases) auto
  with assms closed_failures [of p 0 us a] show ?thesis by simp
qed

text \<open>
  A closed breaker opens exactly at the threshold. Consecutive failures below the threshold
  leave the circuit closed to probing and requests pass; the failure that reaches it opens the
  circuit for the reset timeout, during which every request is refused, and the first request
  after it is granted as the probe.
\<close>

theorem trips_at_threshold:
  assumes "breaker_ok cb" and "breaker_phase cb a = Closed 0"
    and "0 < cp_FailureThreshold p" and "int64 (cp_FailureThreshold p)" and "\<forall>t \<in> set ts. 0 < t"
  shows "(int (length ts) < cp_FailureThreshold p \<longrightarrow>
            fst (Allow a p now (fold cb_apply (map (EvFailure a p) ts) cb)) = (True, False))
       \<and> (int (length ts) = cp_FailureThreshold p \<longrightarrow>
            fst (Allow a p now (fold cb_apply (map (EvFailure a p) ts) cb)) =
              (if now < last ts + reset_of p then (False, False) else (True, True)))"
proof -
  have ok: "list_all ev_ok (map (EvFailure a p) ts)"
    using assms(4,5) by (simp add: list_all_iff call_ok_def)
  have "filter (\<lambda>e. ev_agent e = a) (map (EvFailure a p) ts) = map (EvFailure a p) ts"
    by (simp add: filter_map o_def)
  with cb_run_phase [OF assms(1) ok, of a] assms(2)
  have ph: "breaker_phase (fold cb_apply (map (EvFailure a p) ts) cb) a
      = fold phase_apply (map (EvFailure a p) ts) (Closed 0)" by simp
  show ?thesis
    using cb_run_ok [OF assms(1) ok] assms(3) closed_failures [of p 0 ts a]
    by (auto simp: breaker.allow_result ph threshold_failures)
qed

theorem trips_at_threshold_witness:
  "fst (Allow ''a'' two_failures 50
      (fold cb_apply (map (EvFailure ''a'' two_failures) [7, 9]) NewCircuitBreaker)) = (False, False)
   \<and> fst (Allow ''a'' two_failures 109
      (fold cb_apply (map (EvFailure ''a'' two_failures) [7, 9]) NewCircuitBreaker)) = (True, True)"
proof -
  have closed: "breaker_phase NewCircuitBreaker ''a'' = Closed 0"
    by (simp add: breaker_phase_def breaker_state_def NewCircuitBreaker_def phase_of_def
        zero_state_def time_defs)
  show ?thesis
    using trips_at_threshold [OF breaker_ok_new closed, of two_failures "[7, 9]" 50]
      trips_at_threshold [OF breaker_ok_new closed, of two_failures "[7, 9]" 109]
    by (simp add: two_failures_def int64_def reset_of_def)
qed

text \<open>
  A recorded success closes the circuit from every phase, also while it is open. A request
  that was let through before the circuit opened and succeeds later ends the open phase before the
  reset timeout: the next request passes at once, and not as a probe.
\<close>

theorem late_success_closes:
  assumes "breaker_ok cb"
  shows "fst (Allow a p now (RecordSuccess a cb)) = (True, False)"
  using assms by (simp add: breaker.allow_result breaker.success_view breaker.success_inv)

theorem late_success_closes_witness:
  "fst (Allow ''a'' two_failures 50 (fold cb_apply trip_events NewCircuitBreaker)) = (False, False)
   \<and> fst (Allow ''a'' two_failures 50
        (RecordSuccess ''a'' (fold cb_apply trip_events NewCircuitBreaker))) = (True, False)"
proof -
  have ok: "breaker_ok (fold cb_apply trip_events NewCircuitBreaker)"
    by (rule cb_run_ok [OF breaker_ok_new])
      (simp add: trip_events_def call_ok_def two_failures_def int64_def)
  have "fst (Allow ''a'' two_failures 50 (fold cb_apply trip_events NewCircuitBreaker)) = (False, False)"
    by (simp add: trip_events_def two_failures_def Allow_def RecordFailure_def RecordSuccess_def
        NewCircuitBreaker_def breaker_state_def zero_state_def time_defs)
  with late_success_closes [OF ok] show ?thesis by blast
qed

end
