(* ===== verification/Registry.thy ===== *)
theory Registry
  imports AgentTypes
begin

text \<open>
  \<open>src/internal/agent/registry.go\<close>: the store of agent implementations under \<open>id@version\<close>. A nil
  function is \<open>None\<close>. The interface the rest of the program uses (\<open>Register\<close> and \<open>Get\<close>, both at
  version \<open>v1\<close>) is the locale \<open>agent_store\<close>.
\<close>

type_synonym 'f registry = "string \<rightharpoonup> 'f"

definition NewRegistry :: "'f registry" where
  "NewRegistry = Map.empty"

definition VersionedID :: "string \<Rightarrow> string \<Rightarrow> string" where
  "VersionedID agentID version =
     (let v = (if version = [] then ''v1'' else version) in agentID @ ''@'' @ v)"

definition RegisterVersion ::
  "string \<Rightarrow> string \<Rightarrow> 'f option \<Rightarrow> 'f registry \<Rightarrow> goerr option \<times> 'f registry" where
  "RegisterVersion agentID version fn r =
     (if agentID = [] then (Some (Sentinel ErrEmptyAgentID), r)
      else
        let v = (if version = [] then ''v1'' else version) in
        case fn of
          None \<Rightarrow> (Some (Sentinel ErrNilAgentFunc), r)
        | Some f \<Rightarrow>
            (let key = VersionedID agentID v in
             if r key \<noteq> None
             then (Some (WrapErr [] (Sentinel ErrDuplicateAgentID) ('': '' @ key)), r)
             else (None, r(key \<mapsto> f))))"

definition Register :: "string \<Rightarrow> 'f option \<Rightarrow> 'f registry \<Rightarrow> goerr option \<times> 'f registry" where
  "Register agentID fn r = RegisterVersion agentID ''v1'' fn r"

definition GetVersion :: "string \<Rightarrow> string \<Rightarrow> 'f registry \<Rightarrow> 'f option" where
  "GetVersion agentID version r =
     (let v = (if version = [] then ''v1'' else version) in r (VersionedID agentID v))"

definition registry_get :: "string \<Rightarrow> 'f registry \<Rightarrow> 'f option" where
  "registry_get agentID r = GetVersion agentID ''v1'' r"

text \<open>Registering several agents in order, stopping at the first error, as the callers do.\<close>

fun register_list ::
  "(string \<Rightarrow> 'f option \<Rightarrow> 's \<Rightarrow> goerr option \<times> 's) \<Rightarrow> (string \<times> 'f) list \<Rightarrow> 's \<Rightarrow> goerr option \<times> 's"
where
  "register_list reg [] s = (None, s)"
| "register_list reg ((a, f) # xs) s =
     (case reg a (Some f) s of
        (Some e, s') \<Rightarrow> (Some e, s')
      | (None, s') \<Rightarrow> register_list reg xs s')"

section \<open>The interface\<close>

locale agent_store =
  fixes register :: "string \<Rightarrow> 'f option \<Rightarrow> 's \<Rightarrow> goerr option \<times> 's"
    and get :: "string \<Rightarrow> 's \<Rightarrow> 'f option"
  assumes register_stored: "register a f s = (None, s') \<Longrightarrow>
      a \<noteq> [] \<and> f \<noteq> None \<and> get a s = None \<and> (\<forall>b. get b s' = (if b = a then f else get b s))"
    and register_refused: "register a f s = (Some e, s') \<Longrightarrow>
      s' = s \<and> (a = [] \<or> f = None \<or> get a s \<noteq> None)"
begin

lemma register_succeeds:
  assumes "a \<noteq> []" and "get a s = None"
  shows "\<exists>s'. register a (Some f) s = (None, s')"
proof -
  obtain e s' where reg: "register a (Some f) s = (e, s')" by fastforce
  with assms register_refused [of a "Some f" s] show ?thesis by (cases e) auto
qed

lemma register_list_get:
  assumes "distinct (map fst xs)" and "\<forall>x \<in> set xs. fst x \<noteq> [] \<and> get (fst x) s = None"
  shows "\<exists>s'. register_list register xs s = (None, s')
           \<and> (\<forall>b. get b s' = (case map_of xs b of None \<Rightarrow> get b s | Some f \<Rightarrow> Some f))"
  using assms
proof (induction xs arbitrary: s)
  case (Cons x xs)
  obtain a f where x: "x = (a, f)" by (cases x)
  from Cons.prems x obtain s1 where s1: "register a (Some f) s = (None, s1)"
    using register_succeeds [of a s f] by auto
  then have get1: "get b s1 = (if b = a then Some f else get b s)" for b
    by (simp add: register_stored)
  have "\<forall>y \<in> set xs. fst y \<noteq> [] \<and> get (fst y) s1 = None"
    using Cons.prems x by (auto simp: get1 image_iff)
  then obtain s' where "register_list register xs s1 = (None, s')"
      and "\<forall>b. get b s' = (case map_of xs b of None \<Rightarrow> get b s1 | Some f \<Rightarrow> Some f)"
    using Cons.IH [of s1] Cons.prems(1) by auto
  moreover have "map_of xs a = None"
    using Cons.prems(1) x by (simp add: map_of_eq_None_iff)
  ultimately show ?case using s1 x by (auto simp: get1 split: option.splits)
qed simp

end

lemma VersionedID_v1 [simp]: "VersionedID a ''v1'' = a @ ''@v1''"
  by (simp add: VersionedID_def)

interpretation registry: agent_store Register registry_get
  by unfold_locales
    (auto simp: Register_def RegisterVersion_def registry_get_def GetVersion_def Let_def
      split: if_splits option.splits)

section \<open>Properties\<close>

lemma VersionedID_inj:
  assumes "CHR ''@'' \<notin> set a" and "CHR ''@'' \<notin> set b" and "v \<noteq> []" and "w \<noteq> []"
    and "VersionedID a v = VersionedID b w"
  shows "a = b \<and> v = w"
proof -
  have id: "takeWhile (\<lambda>c. c \<noteq> CHR ''@'') (VersionedID x u) = x" if "CHR ''@'' \<notin> set x" for x u
    using takeWhile_no_char [OF that] by (simp add: VersionedID_def)
  have "a = b" using id [OF assms(1), of v] id [OF assms(2), of w] assms(5) by simp
  with assms show ?thesis by (simp add: VersionedID_def)
qed

text \<open>
  Registration is a write-once store. A successful \<open>RegisterVersion\<close> makes exactly that
  id and version resolve to the new function; an empty id, a nil function or an id and version
  that are already taken are refused and leave the registry as it was. An empty version means v1.
  Ids that contain no \<open>@\<close> never share a key.
\<close>

theorem registry_write_once:
  assumes "CHR ''@'' \<notin> set a" and "CHR ''@'' \<notin> set b"
  shows "case RegisterVersion a v f r of
           (None, r') \<Rightarrow>
             a \<noteq> [] \<and> f \<noteq> None \<and> GetVersion a v r = None
             \<and> GetVersion b w r' =
                 (if b = a \<and> (if w = [] then ''v1'' else w) = (if v = [] then ''v1'' else v)
                  then f else GetVersion b w r)
         | (Some e, r') \<Rightarrow> r' = r \<and> (a = [] \<or> f = None \<or> GetVersion a v r \<noteq> None)"
proof -
  define v' where "v' = (if v = [] then ''v1'' else v)"
  define w' where "w' = (if w = [] then ''v1'' else w)"
  have ne: "v' \<noteq> []" "w' \<noteq> []" by (auto simp: v'_def w'_def)
  have key: "VersionedID b w' = VersionedID a v' \<longleftrightarrow> b = a \<and> w' = v'"
    using VersionedID_inj [OF assms(2,1) ne(2,1)] by blast
  show ?thesis
    unfolding RegisterVersion_def GetVersion_def Let_def v'_def [symmetric] w'_def [symmetric]
    using key by (auto split: option.splits)
qed

theorem registry_write_once_witness:
  "fst (RegisterVersion ''echo'' [] (Some (1::nat)) NewRegistry) = None
   \<and> GetVersion ''echo'' ''v1'' (snd (RegisterVersion ''echo'' [] (Some (1::nat)) NewRegistry)) = Some (1::nat)
   \<and> fst (RegisterVersion ''echo'' ''v1'' (Some 2)
        (snd (RegisterVersion ''echo'' [] (Some (1::nat)) NewRegistry))) \<noteq> None"
  using registry_write_once [where a = "''echo''" and b = "''echo''" and v = "[]" and f = "Some (1::nat)"
      and r = NewRegistry and w = "''v1''"]
  by (simp add: RegisterVersion_def NewRegistry_def GetVersion_def VersionedID_def Let_def)

end
