(* ===== verification/Metrics.thy ===== *)
theory Metrics
  imports AgentTypes
begin

text \<open>
  \<open>src/internal/metrics/metrics.go\<close> and \<open>multi.go\<close>. The interface \<open>Recorder\<close> is a record of its
  three methods over a state type \<open>'m\<close>; \<open>NoopRecorder\<close>, \<open>InMemoryRecorder\<close> and \<open>MultiRecorder\<close> are
  values of it. Counters are unbounded here: they count calls, and no run makes \<open>2 ^ 63\<close> of them.
\<close>

record 'm Recorder =
  ObserveInvocation :: "string \<Rightarrow> string \<Rightarrow> duration \<Rightarrow> 'm \<Rightarrow> 'm"
  ObserveRetry :: "string \<Rightarrow> 'm \<Rightarrow> 'm"
  ObserveCircuitOpen :: "string \<Rightarrow> 'm \<Rightarrow> 'm"

definition NoopRecorder :: "'m Recorder" where
  "NoopRecorder = \<lparr>ObserveInvocation = (\<lambda>_ _ _ m. m), ObserveRetry = (\<lambda>_ m. m),
     ObserveCircuitOpen = (\<lambda>_ m. m)\<rparr>"

record AgentStats =
  st_Successes :: int
  st_Errors :: int
  st_Retries :: int
  st_CircuitOpens :: int
  st_TotalDuration :: duration

definition zero_stats :: AgentStats where
  "zero_stats = \<lparr>st_Successes = 0, st_Errors = 0, st_Retries = 0, st_CircuitOpens = 0,
     st_TotalDuration = 0\<rparr>"

record InMemoryRecorder =
  im_byAgent :: "(string, AgentStats) mapping"
  im_total :: int
  im_errors :: int
  im_retries :: int
  im_opens :: int

record Snapshot =
  sn_TotalInvocations :: int
  sn_ErrorInvocations :: int
  sn_RetryAttempts :: int
  sn_CircuitOpens :: int
  sn_ByAgent :: "(string, AgentStats) mapping"

definition NewInMemoryRecorder :: InMemoryRecorder where
  "NewInMemoryRecorder = \<lparr>im_byAgent = Mapping.empty, im_total = 0, im_errors = 0,
     im_retries = 0, im_opens = 0\<rparr>"

definition agent_stats :: "InMemoryRecorder \<Rightarrow> string \<Rightarrow> AgentStats" where
  "agent_stats r a = Mapping.lookup_default zero_stats (im_byAgent r) a"

definition inmem_invocation :: "string \<Rightarrow> string \<Rightarrow> duration \<Rightarrow> InMemoryRecorder \<Rightarrow> InMemoryRecorder" where
  "inmem_invocation agentID status d r =
     (let s = agent_stats r agentID;
          s1 = (if status = ''success'' then s\<lparr>st_Successes := st_Successes s + 1\<rparr>
                else s\<lparr>st_Errors := st_Errors s + 1\<rparr>);
          r1 = (if status = ''success'' then r else r\<lparr>im_errors := im_errors r + 1\<rparr>);
          s2 = s1\<lparr>st_TotalDuration := wrap64 (st_TotalDuration s1 + d)\<rparr>
      in r1\<lparr>im_byAgent := Mapping.update agentID s2 (im_byAgent r1), im_total := im_total r1 + 1\<rparr>)"

definition inmem_retry :: "string \<Rightarrow> InMemoryRecorder \<Rightarrow> InMemoryRecorder" where
  "inmem_retry agentID r =
     (let s = agent_stats r agentID
      in r\<lparr>im_byAgent := Mapping.update agentID (s\<lparr>st_Retries := st_Retries s + 1\<rparr>) (im_byAgent r),
           im_retries := im_retries r + 1\<rparr>)"

definition inmem_circuit_open :: "string \<Rightarrow> InMemoryRecorder \<Rightarrow> InMemoryRecorder" where
  "inmem_circuit_open agentID r =
     (let s = agent_stats r agentID
      in r\<lparr>im_byAgent := Mapping.update agentID (s\<lparr>st_CircuitOpens := st_CircuitOpens s + 1\<rparr>) (im_byAgent r),
           im_opens := im_opens r + 1\<rparr>)"

definition inmem_recorder :: "InMemoryRecorder Recorder" where
  "inmem_recorder = \<lparr>ObserveInvocation = inmem_invocation, ObserveRetry = inmem_retry,
     ObserveCircuitOpen = inmem_circuit_open\<rparr>"

definition inmem_snapshot :: "InMemoryRecorder \<Rightarrow> Snapshot" where
  "inmem_snapshot r = \<lparr>sn_TotalInvocations = im_total r, sn_ErrorInvocations = im_errors r,
     sn_RetryAttempts = im_retries r, sn_CircuitOpens = im_opens r, sn_ByAgent = im_byAgent r\<rparr>"

text \<open>\<open>MultiRecorder\<close>: the recorders that are not nil, each with its own state, called in order.\<close>

definition NewMultiRecorder :: "'m Recorder option list \<Rightarrow> 'm Recorder list" where
  "NewMultiRecorder rs = map the (filter (\<lambda>r. r \<noteq> None) rs)"

definition multi_recorder :: "'m Recorder list \<Rightarrow> 'm list Recorder" where
  "multi_recorder rs =
     \<lparr>ObserveInvocation = (\<lambda>a st d ms. map2 (\<lambda>r m. ObserveInvocation r a st d m) rs ms),
      ObserveRetry = (\<lambda>a ms. map2 (\<lambda>r m. ObserveRetry r a m) rs ms),
      ObserveCircuitOpen = (\<lambda>a ms. map2 (\<lambda>r m. ObserveCircuitOpen r a m) rs ms)\<rparr>"

section \<open>Calls as events\<close>

datatype metric_event =
    Invocation string string duration
  | Retried string
  | CircuitOpened string

fun observe :: "'m Recorder \<Rightarrow> metric_event \<Rightarrow> 'm \<Rightarrow> 'm" where
  "observe r (Invocation a st d) m = ObserveInvocation r a st d m"
| "observe r (Retried a) m = ObserveRetry r a m"
| "observe r (CircuitOpened a) m = ObserveCircuitOpen r a m"

fun is_invocation :: "metric_event \<Rightarrow> bool" where
  "is_invocation (Invocation _ _ _) = True" | "is_invocation _ = False"

fun is_error :: "metric_event \<Rightarrow> bool" where
  "is_error (Invocation _ st _) \<longleftrightarrow> st \<noteq> ''success''" | "is_error _ \<longleftrightarrow> False"

fun is_retry :: "metric_event \<Rightarrow> bool" where
  "is_retry (Retried _) = True" | "is_retry _ = False"

fun is_open :: "metric_event \<Rightarrow> bool" where
  "is_open (CircuitOpened _) = True" | "is_open _ = False"

fun metric_agent :: "metric_event \<Rightarrow> string" where
  "metric_agent (Invocation a _ _) = a"
| "metric_agent (Retried a) = a"
| "metric_agent (CircuitOpened a) = a"

definition count_ev :: "(metric_event \<Rightarrow> bool) \<Rightarrow> metric_event list \<Rightarrow> int" where
  "count_ev P evs = int (length (filter P evs))"

lemma count_ev_simps [simp]:
  "count_ev P [] = 0" "count_ev P (evs @ [e]) = count_ev P evs + (if P e then 1 else 0)"
  by (simp_all add: count_ev_def)

lemmas inmem_defs = inmem_recorder_def inmem_invocation_def inmem_retry_def inmem_circuit_open_def
  agent_stats_def Let_def

lemma lookup_default_update [simp]:
  "Mapping.lookup_default z (Mapping.update k v m) k'
     = (if k' = k then v else Mapping.lookup_default z m k')"
  by (simp add: Mapping.lookup_default_def Mapping.lookup_update')

text \<open>
  The in-memory recorder counts exactly what it is told, over any sequence of calls: the totals
  of a snapshot are the numbers of invocations, of invocations with a status other than success,
  of retries and of open circuits, and the statistics of an agent are the same numbers taken over
  that agent's calls alone.
\<close>

theorem inmem_counts:
  defines "after evs \<equiv> foldl (\<lambda>m e. observe inmem_recorder e m) NewInMemoryRecorder evs"
  shows "sn_TotalInvocations (inmem_snapshot (after evs)) = count_ev is_invocation evs
       \<and> sn_ErrorInvocations (inmem_snapshot (after evs)) = count_ev is_error evs
       \<and> sn_RetryAttempts (inmem_snapshot (after evs)) = count_ev is_retry evs
       \<and> sn_CircuitOpens (inmem_snapshot (after evs)) = count_ev is_open evs
       \<and> (let own = (\<lambda>P e. metric_agent e = a \<and> P e); st = agent_stats (after evs) a
          in st_Errors st = count_ev (own is_error) evs
           \<and> st_Successes st + st_Errors st = count_ev (own is_invocation) evs
           \<and> st_Retries st = count_ev (own is_retry) evs
           \<and> st_CircuitOpens st = count_ev (own is_open) evs)"
proof (induction evs rule: rev_induct)
  case Nil
  show ?case
    by (simp add: after_def NewInMemoryRecorder_def inmem_snapshot_def agent_stats_def zero_stats_def
        Mapping.lookup_default_empty Let_def)
next
  case (snoc e evs)
  have "after (evs @ [e]) = observe inmem_recorder e (after evs)" by (simp add: after_def)
  with snoc show ?case
    by (cases e) (auto simp: inmem_snapshot_def inmem_defs)
qed

text \<open>
  A multi recorder forwards every call to each of its recorders: after any sequence of calls the
  state of each is what it would be alone. Nil recorders are dropped when the multi recorder is built.
\<close>

theorem multi_fan_out:
  "foldl (\<lambda>ms e. observe (multi_recorder (NewMultiRecorder ros)) e ms) (map (\<lambda>_. m0) (NewMultiRecorder ros)) evs
     = map (\<lambda>r. foldl (\<lambda>m e. observe r e m) m0 evs) [r. Some r \<leftarrow> ros]"
proof -
  have rs: "NewMultiRecorder ros = [r. Some r \<leftarrow> ros]" for ros :: "'a Recorder option list"
    by (induction ros) (auto simp: NewMultiRecorder_def split: option.splits)
  have obs: "observe (multi_recorder rs) e (map f rs) = map (\<lambda>r. observe r e (f r)) rs"
    for rs :: "'a Recorder list" and e f
    by (cases e; induction rs) (auto simp: multi_recorder_def)
  show ?thesis
    unfolding rs
    by (induction evs rule: rev_induct) (simp_all add: obs)
qed

end
