(* ===== verification/Scheduler.thy ===== *)
theory Scheduler
  imports GoPrelude
begin

text \<open>
  Goroutines. The body of a goroutine is a tree of atomic actions on the shared state; an action is
  one critical section of the source (a method that holds a mutex, a call of an agent, a clock
  reading). A pool is the situation of \<open>executeLevel\<close> (\<open>src/internal/router/router.go\<close>): the main
  goroutine works through a list of launches, each of which either produces its result at once or
  starts a goroutine; a started goroutine waits for a slot of the semaphore channel, runs, sends
  its result to the result channel and frees the slot.

  A schedule is a list of choices: \<open>None\<close> lets the main goroutine make a step, \<open>Some i\<close> the
  goroutine \<open>i\<close>. A choice that cannot move (a goroutine waiting for a slot while all are taken)
  leaves the pool as it is. Statements are about every schedule.
\<close>

section \<open>Programs and pools\<close>

datatype ('s, 'r) prog = Return 'r | Atomic "'s \<Rightarrow> 's \<times> ('s, 'r) prog"

definition act :: "('s \<Rightarrow> 'a \<times> 's) \<Rightarrow> ('a \<Rightarrow> ('s, 'r) prog) \<Rightarrow> ('s, 'r) prog" where
  "act g k = Atomic (\<lambda>s. case g s of (a, s') \<Rightarrow> (s', k a))"

datatype ('s, 'r) launch = Direct "'s \<Rightarrow> 's" 'r | Spawn "('s, 'r) prog"

datatype ('s, 'r) thread = Waiting "('s, 'r) prog" | Running "('s, 'r) prog" | Finished

record ('s, 'r) pool =
  p_launch :: "('s, 'r) launch list"
  p_threads :: "('s, 'r) thread list"
  p_shared :: 's
  p_channel :: "'r list"

fun is_running :: "('s, 'r) thread \<Rightarrow> bool" where
  "is_running (Running _) = True" | "is_running _ = False"

fun is_finished :: "('s, 'r) thread \<Rightarrow> bool" where
  "is_finished Finished = True" | "is_finished _ = False"

definition running :: "('s, 'r) pool \<Rightarrow> nat" where
  "running P = length (filter is_running (p_threads P))"

definition pool_done :: "('s, 'r) pool \<Rightarrow> bool" where
  "pool_done P \<longleftrightarrow> p_launch P = [] \<and> list_all is_finished (p_threads P)"

fun main_step :: "('s, 'r) launch list \<Rightarrow> ('s, 'r) pool \<Rightarrow> ('s, 'r) pool" where
  "main_step [] P = P"
| "main_step (Direct f r # ls) P =
     P\<lparr>p_launch := ls, p_shared := f (p_shared P), p_channel := p_channel P @ [r]\<rparr>"
| "main_step (Spawn p # ls) P = P\<lparr>p_launch := ls, p_threads := p_threads P @ [Waiting p]\<rparr>"

fun thread_step :: "nat \<Rightarrow> nat \<Rightarrow> ('s, 'r) thread \<Rightarrow> ('s, 'r) pool \<Rightarrow> ('s, 'r) pool" where
  "thread_step W i (Waiting p) P =
     (if running P < W then P\<lparr>p_threads := (p_threads P)[i := Running p]\<rparr> else P)"
| "thread_step W i (Running (Atomic f)) P =
     (case f (p_shared P) of
        (s', p') \<Rightarrow> P\<lparr>p_threads := (p_threads P)[i := Running p'], p_shared := s'\<rparr>)"
| "thread_step W i (Running (Return r)) P =
     P\<lparr>p_threads := (p_threads P)[i := Finished], p_channel := p_channel P @ [r]\<rparr>"
| "thread_step W i Finished P = P"

fun sched_step :: "nat \<Rightarrow> nat option \<Rightarrow> ('s, 'r) pool \<Rightarrow> ('s, 'r) pool" where
  "sched_step W None P = main_step (p_launch P) P"
| "sched_step W (Some i) P =
     (if i < length (p_threads P) then thread_step W i (p_threads P ! i) P else P)"

definition run_sched :: "nat \<Rightarrow> nat option list \<Rightarrow> ('s, 'r) pool \<Rightarrow> ('s, 'r) pool" where
  "run_sched W sched P = fold (sched_step W) sched P"

definition start_pool :: "('s, 'r) launch list \<Rightarrow> 's \<Rightarrow> ('s, 'r) pool" where
  "start_pool ls s = \<lparr>p_launch = ls, p_threads = [], p_shared = s, p_channel = []\<rparr>"

lemma run_sched_append: "run_sched W (xs @ ys) P = run_sched W ys (run_sched W xs P)"
  by (simp add: run_sched_def)

lemma run_sched_Cons: "run_sched W (c # cs) P = run_sched W cs (sched_step W c P)"
  by (simp add: run_sched_def)

section \<open>The semaphore bounds the running goroutines\<close>

lemma running_update:
  assumes "i < length ts"
  shows "length (filter is_running (ts[i := t])) + (if is_running (ts ! i) then 1 else 0)
       = length (filter is_running ts) + (if is_running t then 1 else 0)"
  using assms
proof (induction ts arbitrary: i)
  case (Cons x ts)
  then show ?case by (cases i) auto
qed simp

lemma sched_step_running:
  assumes "running P \<le> W"
  shows "running (sched_step W c P) \<le> W"
proof (cases c)
  case None
  then show ?thesis
    using assms by (cases "p_launch P" rule: list.exhaust; cases "hd (p_launch P)") (auto simp: running_def)
next
  case (Some i)
  show ?thesis
  proof (cases "i < length (p_threads P)")
    case True
    note upd = running_update [OF True]
    show ?thesis
    proof (cases "p_threads P ! i")
      case (Waiting p)
      with Some True upd [of "Running p"] show ?thesis using assms by (auto simp: running_def)
    next
      case (Running p)
      show ?thesis
      proof (cases p)
        case (Return r)
        with Some True Running upd [of Finished] show ?thesis using assms by (auto simp: running_def)
      next
        case (Atomic f)
        with Some True Running upd [of "Running (snd (f (p_shared P)))"] show ?thesis
          using assms by (auto simp: running_def split: prod.splits)
      qed
    next
      case Finished
      with Some True show ?thesis using assms by simp
    qed
  next
    case False
    with Some show ?thesis using assms by simp
  qed
qed

lemma run_sched_running: "running P \<le> W \<Longrightarrow> running (run_sched W sched P) \<le> W"
  unfolding run_sched_def
  by (induction sched arbitrary: P) (simp_all add: sched_step_running)

section \<open>No deadlock: every pool can be completed\<close>

definition completable :: "nat \<Rightarrow> ('s, 'r) pool \<Rightarrow> bool" where
  "completable W P \<longleftrightarrow> (\<exists>sched. pool_done (run_sched W sched P))"

lemma completable_step: "completable W (sched_step W c P) \<Longrightarrow> completable W P"
  unfolding completable_def run_sched_def by (metis fold_simps(2))

lemma launch_all: "\<exists>sched. p_launch (run_sched W sched P) = []"
proof (induction "length (p_launch P)" arbitrary: P)
  case 0
  then show ?case by (intro exI [of _ "[]"]) (simp add: run_sched_def)
next
  case (Suc n)
  then have "n = length (p_launch (sched_step W None P))"
    by (cases "p_launch P" rule: list.exhaust; cases "hd (p_launch P)") auto
  from Suc.hyps(1) [OF this] show ?case
    unfolding run_sched_def by (metis fold_simps(2))
qed

definition open_threads :: "('s, 'r) pool \<Rightarrow> nat" where
  "open_threads P = length (filter (\<lambda>t. \<not> is_finished t) (p_threads P))"

text \<open>A body run alone, from its start to its result.\<close>

primrec run_prog :: "('s, 'r) prog \<Rightarrow> 's \<Rightarrow> 'r \<times> 's" where
  "run_prog (Return r) = (\<lambda>s. (r, s))"
| "run_prog (Atomic f) = (\<lambda>s. case (map_prod id run_prog \<circ> f) s of (s', k) \<Rightarrow> k s')"

lemma run_prog_Atomic: "run_prog (Atomic f) s = (case f s of (s', p) \<Rightarrow> run_prog p s')"
  by (cases "f s") simp

declare run_prog.simps(2) [simp del]

lemma run_prog_act [simp]: "run_prog (act g c) s = (case g s of (a, s') \<Rightarrow> run_prog (c a) s')"
  by (cases "g s") (simp add: act_def run_prog_Atomic)

lemma finish_running:
  assumes "i < length (p_threads P)" and "p_threads P ! i = Running p"
  shows "\<exists>sched. run_sched W sched P =
           P\<lparr>p_threads := (p_threads P)[i := Finished], p_shared := snd (run_prog p (p_shared P)),
             p_channel := p_channel P @ [fst (run_prog p (p_shared P))]\<rparr>"
  using assms
proof (induction p arbitrary: P)
  case (Return r)
  then have "run_sched W [Some i] P = P\<lparr>p_threads := (p_threads P)[i := Finished],
      p_shared := p_shared P, p_channel := p_channel P @ [r]\<rparr>"
    by (cases P) (simp add: run_sched_def)
  then show ?case by (intro exI [of _ "[Some i]"]) simp
next
  case (Atomic f)
  obtain s' p' where f: "f (p_shared P) = (s', p')" by fastforce
  let ?P = "P\<lparr>p_threads := (p_threads P)[i := Running p'], p_shared := s'\<rparr>"
  have step: "sched_step W (Some i) P = ?P" using Atomic.prems f by simp
  have "(s', p') \<in> range f" using f by (metis rangeI)
  moreover have "p' \<in> Basic_BNFs.snds (s', p')" by simp
  moreover note Atomic.prems
  ultimately obtain sched where
    "run_sched W sched ?P = ?P\<lparr>p_threads := (p_threads ?P)[i := Finished],
       p_shared := snd (run_prog p' (p_shared ?P)), p_channel := p_channel ?P @ [fst (run_prog p' (p_shared ?P))]\<rparr>"
    using Atomic.IH [of "(s', p')" p' ?P] by auto
  then have "run_sched W (Some i # sched) P =
      P\<lparr>p_threads := (p_threads P)[i := Finished], p_shared := snd (run_prog (Atomic f) (p_shared P)),
        p_channel := p_channel P @ [fst (run_prog (Atomic f) (p_shared P))]\<rparr>"
    unfolding run_sched_Cons step by (simp add: run_prog_Atomic f)
  then show ?case by blast
qed

lemma open_threads_update:
  assumes "i < length (p_threads P)" and "\<not> is_finished (p_threads P ! i)"
  shows "Suc (length (filter (\<lambda>t. \<not> is_finished t) ((p_threads P)[i := Finished]))) = open_threads P"
proof -
  have "Suc (length (filter (\<lambda>t. \<not> is_finished t) (ts[j := Finished])))
      = length (filter (\<lambda>t. \<not> is_finished t) ts)"
    if "j < length ts" "\<not> is_finished (ts ! j)" for j and ts :: "('a, 'b) thread list"
    using that
  proof (induction ts arbitrary: j)
    case (Cons x ts)
    then show ?case by (cases j) auto
  qed simp
  with assms show ?thesis by (simp add: open_threads_def)
qed

lemma finish_one:
  assumes "p_launch P = []" and "open_threads P \<noteq> 0" and "0 < W"
  shows "\<exists>sched. p_launch (run_sched W sched P) = [] \<and> open_threads (run_sched W sched P) < open_threads P"
proof -
  have fin: "\<exists>sched. p_launch (run_sched W sched Q) = [] \<and> open_threads (run_sched W sched Q) < open_threads Q"
    if Q: "p_launch Q = []" "i < length (p_threads Q)" "p_threads Q ! i = Running p" for i p and Q :: "('a, 'b) pool"
  proof -
    from finish_running [OF Q(2,3), of W] obtain sched s ch where
      "run_sched W sched Q = Q\<lparr>p_threads := (p_threads Q)[i := Finished], p_shared := s, p_channel := ch\<rparr>"
      by blast
    then show ?thesis
      using Q open_threads_update [of i Q]
      by (intro exI [of _ sched]) (simp add: open_threads_def)
  qed
  show ?thesis
  proof (cases "running P = 0")
    case False
    then obtain i p where "i < length (p_threads P)" "p_threads P ! i = Running p"
      by (auto simp: running_def filter_empty_conv in_set_conv_nth elim!: is_running.elims)
    with fin assms(1) show ?thesis by blast
  next
    case True
    from assms(2) obtain i where i: "i < length (p_threads P)" "\<not> is_finished (p_threads P ! i)"
      by (auto simp: open_threads_def filter_empty_conv in_set_conv_nth)
    moreover have "\<not> is_running (p_threads P ! i)"
      using True i(1) by (auto simp: running_def filter_empty_conv)
    ultimately obtain p where p: "p_threads P ! i = Waiting p" by (cases "p_threads P ! i") auto
    let ?P = "P\<lparr>p_threads := (p_threads P)[i := Running p]\<rparr>"
    have step: "run_sched W [Some i] P = ?P" using i p True assms(3) by (simp add: run_sched_def)
    have "open_threads ?P = open_threads P"
      using running_update i p open_threads_update [OF i] open_threads_update [of i ?P]
      by (auto simp: open_threads_def)
    moreover obtain sched where "p_launch (run_sched W sched ?P) = []"
        "open_threads (run_sched W sched ?P) < open_threads ?P"
      using fin [of ?P i p] i assms(1) by auto
    ultimately show ?thesis
      by (intro exI [of _ "[Some i] @ sched"]) (simp only: run_sched_append step)
  qed
qed

text \<open>
  Whatever has been scheduled so far, the pool can still be run to its end, provided the semaphore
  has at least one slot: no goroutine is ever stuck.
\<close>

theorem pool_completable:
  assumes "0 < W"
  shows "completable W P"
proof -
  obtain sched0 where l: "p_launch (run_sched W sched0 P) = []" using launch_all by blast
  have "p_launch Q = [] \<Longrightarrow> completable W Q" for Q :: "('a, 'b) pool"
  proof (induction "open_threads Q" arbitrary: Q rule: less_induct)
    case less
    show ?case
    proof (cases "open_threads Q = 0")
      case True
      with less.prems show ?thesis
        unfolding completable_def
        by (intro exI [of _ "[]"])
          (auto simp: run_sched_def pool_done_def open_threads_def list_all_iff filter_empty_conv)
    next
      case False
      from finish_one [OF less.prems False assms] obtain sched where
        s: "p_launch (run_sched W sched Q) = []" "open_threads (run_sched W sched Q) < open_threads Q"
        by blast
      from less.hyps [OF s(2,1)] show ?thesis
        unfolding completable_def by (metis run_sched_append)
    qed
  qed
  from this [OF l] show ?thesis unfolding completable_def by (metis run_sched_append)
qed

section \<open>The sequential schedule\<close>

text \<open>The launches one after the other, each run to its end before the next one starts.\<close>

fun run_launch :: "('s, 'r) launch \<Rightarrow> 's \<Rightarrow> 'r \<times> 's" where
  "run_launch (Direct f r) s = (r, f s)"
| "run_launch (Spawn p) s = run_prog p s"

fun run_sequential :: "('s, 'r) launch list \<Rightarrow> 's \<Rightarrow> 'r list \<times> 's" where
  "run_sequential [] s = ([], s)"
| "run_sequential (l # ls) s =
     (case run_launch l s of (r, s') \<Rightarrow> case run_sequential ls s' of (rs, s'') \<Rightarrow> (r # rs, s''))"

lemma launch_sequential:
  assumes "p_launch P = l # ls" and "list_all is_finished (p_threads P)" and "0 < W"
  shows "\<exists>sched ts. list_all is_finished ts \<and> run_sched W sched P =
    P\<lparr>p_launch := ls, p_threads := ts, p_shared := snd (run_launch l (p_shared P)),
      p_channel := p_channel P @ [fst (run_launch l (p_shared P))]\<rparr>"
proof (cases l)
  case (Direct f r)
  with assms show ?thesis
    by (intro exI [of _ "[None]"] exI [of _ "p_threads P"]) (simp add: run_sched_def)
next
  case (Spawn p)
  let ?i = "length (p_threads P)"
  let ?P = "P\<lparr>p_launch := ls, p_threads := p_threads P @ [Running p]\<rparr>"
  have none: "filter is_running (p_threads P) = []"
    using assms(2) by (auto simp: list_all_iff filter_empty_conv elim!: is_running.elims)
  have start: "run_sched W [None, Some ?i] P = ?P"
    using assms(1,3) Spawn none by (simp add: run_sched_def running_def)
  from finish_running [of ?i ?P p W] obtain sched where
    "run_sched W sched ?P = ?P\<lparr>p_threads := (p_threads ?P)[?i := Finished],
       p_shared := snd (run_prog p (p_shared ?P)), p_channel := p_channel ?P @ [fst (run_prog p (p_shared ?P))]\<rparr>"
    by (auto simp: nth_append)
  then have "run_sched W ([None, Some ?i] @ sched) P =
    P\<lparr>p_launch := ls, p_threads := p_threads P @ [Finished], p_shared := snd (run_launch l (p_shared P)),
      p_channel := p_channel P @ [fst (run_launch l (p_shared P))]\<rparr>"
    unfolding run_sched_append start by (simp add: Spawn list_update_append)
  moreover have "list_all is_finished (p_threads P @ [Finished])" using assms(2) by simp
  ultimately show ?thesis by blast
qed

lemma run_sequential_schedule:
  assumes "0 < W"
  shows "\<exists>sched. pool_done (run_sched W sched (start_pool ls s))
    \<and> p_channel (run_sched W sched (start_pool ls s)) = fst (run_sequential ls s)
    \<and> p_shared (run_sched W sched (start_pool ls s)) = snd (run_sequential ls s)"
proof -
  have "\<exists>sched. pool_done (run_sched W sched P)
      \<and> p_channel (run_sched W sched P) = p_channel P @ fst (run_sequential (p_launch P) (p_shared P))
      \<and> p_shared (run_sched W sched P) = snd (run_sequential (p_launch P) (p_shared P))"
    if "list_all is_finished (p_threads P)" for P :: "('a, 'b) pool"
    using that
  proof (induction "p_launch P" arbitrary: P)
    case Nil
    then show ?case by (intro exI [of _ "[]"]) (simp add: run_sched_def pool_done_def)
  next
    case (Cons l ls)
    from launch_sequential [OF Cons.hyps(2) [symmetric] Cons.prems assms] obtain sched ts where
      ts: "list_all is_finished ts" and run: "run_sched W sched P =
        P\<lparr>p_launch := ls, p_threads := ts, p_shared := snd (run_launch l (p_shared P)),
          p_channel := p_channel P @ [fst (run_launch l (p_shared P))]\<rparr>" (is "_ = ?P") by blast
    from Cons.hyps(1) [of ?P] ts obtain sched' where "pool_done (run_sched W sched' ?P)"
      "p_channel (run_sched W sched' ?P) = p_channel ?P @ fst (run_sequential ls (p_shared ?P))"
      "p_shared (run_sched W sched' ?P) = snd (run_sequential ls (p_shared ?P))" by auto
    then show ?case
      by (intro exI [of _ "sched @ sched'"])
        (simp add: run_sched_append run Cons.hyps(2) [symmetric] split: prod.splits)
  qed
  from this [of "start_pool ls s"] show ?thesis by (simp add: start_pool_def)
qed

section \<open>Goroutines with separate views\<close>

text \<open>
  The proof rule for pools. Every launch has a key \<open>k\<close>, and the shared state has a part \<open>view k\<close>
  that only the goroutine with that key changes. \<open>prog_sat\<close> is the weakest precondition of a
  goroutine body: whatever the rest of the shared state holds when each action happens, the body
  changes its own view only and ends with a result and a view that satisfy \<open>post\<close>.
\<close>

primrec prog_sat ::
  "('k \<Rightarrow> 's \<Rightarrow> 'v) \<Rightarrow> ('s \<Rightarrow> bool) \<Rightarrow> ('k \<Rightarrow> 'v \<Rightarrow> 'r \<Rightarrow> bool) \<Rightarrow> 'k \<Rightarrow> ('s, 'r) prog \<Rightarrow> 'v \<Rightarrow> bool"
where
  "prog_sat view I post k (Return r) = (\<lambda>v. post k v r)"
| "prog_sat view I post k (Atomic f) = (\<lambda>v. \<forall>s. view k s = v \<longrightarrow> I s \<longrightarrow>
     I (fst (f s)) \<and> (\<forall>k'. k' \<noteq> k \<longrightarrow> view k' (fst (f s)) = view k' s)
     \<and> snd ((map_prod id (prog_sat view I post k) \<circ> f) s) (view k (fst (f s))))"

lemma prog_sat_Atomic:
  "prog_sat view I post k (Atomic f) v \<longleftrightarrow>
     (\<forall>s. view k s = v \<longrightarrow> I s \<longrightarrow>
        I (fst (f s)) \<and> (\<forall>k'. k' \<noteq> k \<longrightarrow> view k' (fst (f s)) = view k' s)
        \<and> prog_sat view I post k (snd (f s)) (view k (fst (f s))))"
  by simp

declare prog_sat.simps(2) [simp del]

lemma prog_sat_act:
  assumes "\<And>s a s'. view k s = v \<Longrightarrow> I s \<Longrightarrow> g s = (a, s') \<Longrightarrow>
     I s' \<and> (\<forall>k'. k' \<noteq> k \<longrightarrow> view k' s' = view k' s) \<and> prog_sat view I post k (c a) (view k s')"
  shows "prog_sat view I post k (act g c) v"
  unfolding act_def prog_sat_Atomic
proof (intro allI impI)
  fix s
  assume s: "view k s = v" "I s"
  obtain a s' where g: "g s = (a, s')" by fastforce
  from assms [OF s g] show "I (fst (case g s of (a, s') \<Rightarrow> (s', c a)))
      \<and> (\<forall>k'. k' \<noteq> k \<longrightarrow> view k' (fst (case g s of (a, s') \<Rightarrow> (s', c a))) = view k' s)
      \<and> prog_sat view I post k (snd (case g s of (a, s') \<Rightarrow> (s', c a)))
          (view k (fst (case g s of (a, s') \<Rightarrow> (s', c a))))"
    unfolding g by simp
qed

fun launch_sat ::
  "('k \<Rightarrow> 's \<Rightarrow> 'v) \<Rightarrow> ('s \<Rightarrow> bool) \<Rightarrow> ('k \<Rightarrow> 'v \<Rightarrow> 'r \<Rightarrow> bool) \<Rightarrow> 'k \<Rightarrow> ('s, 'r) launch \<Rightarrow> 'v \<Rightarrow> bool"
where
  "launch_sat view I post k (Spawn p) v = prog_sat view I post k p v"
| "launch_sat view I post k (Direct f r) v =
     prog_sat view I post k (Atomic (\<lambda>s. (f s, Return r))) v"

fun thread_sat ::
  "('k \<Rightarrow> 's \<Rightarrow> 'v) \<Rightarrow> ('s \<Rightarrow> bool) \<Rightarrow> ('k \<Rightarrow> 'v \<Rightarrow> 'r \<Rightarrow> bool) \<Rightarrow> 'k option \<Rightarrow> ('s, 'r) thread \<Rightarrow> 's \<Rightarrow> bool"
where
  "thread_sat view I post (Some k) (Waiting p) s = prog_sat view I post k p (view k s)"
| "thread_sat view I post (Some k) (Running p) s = prog_sat view I post k p (view k s)"
| "thread_sat view I post None Finished s = True"
| "thread_sat view I post _ _ s = False"

text \<open>
  The invariant of a pool. The ghost lists \<open>kl\<close>, \<open>kt\<close>, \<open>kc\<close> give the keys of the launches, of the
  goroutines that are not finished (\<open>None\<close> once they are) and of the results in the channel;
  together they are the keys \<open>K\<close> of the level.
\<close>

definition somes :: "'k option list \<Rightarrow> 'k list" where
  "somes ks = map the (filter (\<lambda>k. k \<noteq> None) ks)"

definition pool_sat ::
  "('k \<Rightarrow> 's \<Rightarrow> 'v) \<Rightarrow> ('s \<Rightarrow> bool) \<Rightarrow> ('k \<Rightarrow> 'v \<Rightarrow> 'r \<Rightarrow> bool) \<Rightarrow> 'k list \<Rightarrow> 's
   \<Rightarrow> 'k list \<Rightarrow> 'k option list \<Rightarrow> 'k list \<Rightarrow> ('s, 'r) pool \<Rightarrow> bool" where
  "pool_sat view I post K s0 kl kt kc P \<longleftrightarrow>
     I (p_shared P)
     \<and> list_all2 (\<lambda>k l. launch_sat view I post k l (view k (p_shared P))) kl (p_launch P)
     \<and> list_all2 (\<lambda>k t. thread_sat view I post k t (p_shared P)) kt (p_threads P)
     \<and> list_all2 (\<lambda>k r. post k (view k (p_shared P)) r) kc (p_channel P)
     \<and> mset kl + mset (somes kt) + mset kc = mset K
     \<and> (\<forall>k. k \<notin> set K \<longrightarrow> view k (p_shared P) = view k s0)"

lemma somes_simps [simp]:
  "somes [] = []" "somes (None # ks) = somes ks" "somes (Some k # ks) = k # somes ks"
  "somes (ks @ ks') = somes ks @ somes ks'"
  by (simp_all add: somes_def)

lemma set_somes [simp]: "set (somes ks) = {k. Some k \<in> set ks}"
  by (force simp: somes_def image_iff)

lemma somes_clear:
  "i < length ks \<Longrightarrow> ks ! i = Some k \<Longrightarrow> add_mset k (mset (somes (ks[i := None]))) = mset (somes ks)"
proof (induction ks arbitrary: i)
  case (Cons x ks)
  then show ?case by (cases i; cases x) (auto simp: add_mset_commute)
qed simp

lemma somes_unique:
  assumes "distinct (somes ks)" and "i < length ks" and "j < length ks"
    and "ks ! i = Some k" and "ks ! j = Some k"
  shows "i = j"
proof (rule ccontr)
  assume "i \<noteq> j"
  with assms(3,5) have "Some k \<in> set (ks[i := None])"
    by (metis length_list_update nth_list_update_neq nth_mem)
  then have "k \<in># mset (somes (ks[i := None]))" by simp
  moreover have "add_mset k (mset (somes (ks[i := None]))) = mset (somes ks)"
    by (rule somes_clear [OF assms(2,4)])
  ultimately show False using assms(1) by (metis distinct.simps(2) mset.simps(2) mset_eq_imp_distinct_iff set_mset_mset)
qed

lemma thread_sat_view:
  assumes "thread_sat view I post ko t s" and "\<And>k. ko = Some k \<Longrightarrow> view k s' = view k s"
  shows "thread_sat view I post ko t s'"
  using assms by (cases ko; cases t) auto

text \<open>An action of key \<open>k\<close> leaves what is known of the other launches, goroutines and results.\<close>

lemma pool_sat_frame:
  assumes "\<forall>k'. k' \<noteq> k \<longrightarrow> view k' s' = view k' s"
  shows "k \<notin> set kl \<Longrightarrow> list_all2 (\<lambda>k l. launch_sat view I post k l (view k s)) kl ls \<Longrightarrow>
           list_all2 (\<lambda>k l. launch_sat view I post k l (view k s')) kl ls"
    and "k \<notin> set kc \<Longrightarrow> list_all2 (\<lambda>k r. post k (view k s) r) kc rs \<Longrightarrow>
           list_all2 (\<lambda>k r. post k (view k s') r) kc rs"
    and "Some k \<notin> set kt \<Longrightarrow> list_all2 (\<lambda>k t. thread_sat view I post k t s) kt ts \<Longrightarrow>
           list_all2 (\<lambda>k t. thread_sat view I post k t s') kt ts"
proof -
  show "k \<notin> set kl \<Longrightarrow> list_all2 (\<lambda>k l. launch_sat view I post k l (view k s)) kl ls \<Longrightarrow>
      list_all2 (\<lambda>k l. launch_sat view I post k l (view k s')) kl ls"
    by (erule list.rel_mono_strong) (metis assms)
  show "k \<notin> set kc \<Longrightarrow> list_all2 (\<lambda>k r. post k (view k s) r) kc rs \<Longrightarrow>
      list_all2 (\<lambda>k r. post k (view k s') r) kc rs"
    by (erule list.rel_mono_strong) (metis assms)
  show "Some k \<notin> set kt \<Longrightarrow> list_all2 (\<lambda>k t. thread_sat view I post k t s) kt ts \<Longrightarrow>
      list_all2 (\<lambda>k t. thread_sat view I post k t s') kt ts"
    by (erule list.rel_mono_strong) (metis assms thread_sat_view)
qed

lemma keys_apart:
  assumes "distinct K" and "mset kl + mset (somes kt) + mset kc = mset K"
  shows "distinct kl" and "distinct (somes kt)" and "distinct kc"
    and "set kl \<inter> set (somes kt) = {}" and "set kl \<inter> set kc = {}" and "set (somes kt) \<inter> set kc = {}"
    and "set kl \<union> set (somes kt) \<union> set kc = set K"
proof -
  have eq: "mset (kl @ somes kt @ kc) = mset K" using assms(2) by (simp add: add.assoc)
  then have "distinct (kl @ somes kt @ kc)" using assms(1) by (metis mset_eq_imp_distinct_iff)
  then show "distinct kl" and "distinct (somes kt)" and "distinct kc"
    and "set kl \<inter> set (somes kt) = {}" and "set kl \<inter> set kc = {}" and "set (somes kt) \<inter> set kc = {}"
    by auto
  show "set kl \<union> set (somes kt) \<union> set kc = set K"
    using mset_eq_setD [OF eq] by (simp add: Un_assoc)
qed

lemma main_step_sat:
  assumes K: "distinct K" and inv: "pool_sat view I post K s0 kl kt kc P"
  shows "\<exists>kl kt kc. pool_sat view I post K s0 kl kt kc (main_step (p_launch P) P)"
proof (cases "p_launch P")
  case Nil
  with inv show ?thesis by auto
next
  case (Cons l ls)
  with inv obtain k kl' where kl: "kl = k # kl'"
    and l: "launch_sat view I post k l (view k (p_shared P))"
    and ls: "list_all2 (\<lambda>k l. launch_sat view I post k l (view k (p_shared P))) kl' ls"
    by (auto simp: pool_sat_def list_all2_Cons2)
  have sum: "mset kl + mset (somes kt) + mset kc = mset K" using inv by (simp add: pool_sat_def)
  note apart = keys_apart [OF K sum]
  show ?thesis
  proof (cases l)
    case (Spawn p)
    have "pool_sat view I post K s0 kl' (kt @ [Some k]) kc (main_step (p_launch P) P)"
      using inv l ls kl Cons Spawn by (auto simp: pool_sat_def list_all2_appendI)
    then show ?thesis by blast
  next
    case (Direct f r)
    let ?s = "f (p_shared P)"
    from l Direct inv have I: "I ?s" and fr: "\<forall>k'. k' \<noteq> k \<longrightarrow> view k' ?s = view k' (p_shared P)"
      and post: "post k (view k ?s) r"
      by (auto simp: prog_sat_Atomic pool_sat_def)
    have "k \<notin> set kl'" "k \<notin> set kc" "Some k \<notin> set kt" "k \<in> set K"
      using apart unfolding kl by auto
    note out = this
    note frame = pool_sat_frame [OF fr]
    have outside: "view k' ?s = view k' s0" if "k' \<notin> set K" for k'
      using inv fr that out by (auto simp: pool_sat_def)
    have "pool_sat view I post K s0 kl' kt (kc @ [k]) (main_step (p_launch P) P)"
      unfolding pool_sat_def using I frame(1) [OF out(1) ls] sum
      by (simp add: Cons Direct kl list_all2_appendI post outside frame(2,3) out inv [unfolded pool_sat_def])
    then show ?thesis by blast
  qed
qed

lemma thread_step_sat:
  assumes K: "distinct K" and inv: "pool_sat view I post K s0 kl kt kc P"
    and i: "i < length (p_threads P)"
  shows "\<exists>kl kt kc. pool_sat view I post K s0 kl kt kc (thread_step W i (p_threads P ! i) P)"
proof -
  have sum: "mset kl + mset (somes kt) + mset kc = mset K"
    and ts: "list_all2 (\<lambda>k t. thread_sat view I post k t (p_shared P)) kt (p_threads P)"
    and Is: "I (p_shared P)"
    using inv by (simp_all add: pool_sat_def)
  note apart = keys_apart [OF K sum]
  from ts i have li: "i < length kt" and ti: "thread_sat view I post (kt ! i) (p_threads P ! i) (p_shared P)"
    by (auto simp: list_all2_conv_all_nth)
  show ?thesis
  proof (cases "p_threads P ! i")
    case Finished
    with inv show ?thesis by auto
  next
    case (Waiting p)
    with ti have "thread_sat view I post (kt ! i) (Running p) (p_shared P)" by (cases "kt ! i") auto
    with ts have "list_all2 (\<lambda>k t. thread_sat view I post k t (p_shared P)) kt ((p_threads P)[i := Running p])"
      by (metis list_all2_update_cong list_update_id)
    with inv Waiting show ?thesis by (auto simp: pool_sat_def)
  next
    case (Running p)
    then obtain k where k: "kt ! i = Some k" using ti by (cases "kt ! i") auto
    let ?kt = "kt[i := None]"
    have clear: "add_mset k (mset (somes ?kt)) = mset (somes kt)" by (rule somes_clear [OF li k])
    have kin: "k \<in> set (somes kt)" using k li by (metis mem_Collect_eq nth_mem set_somes)
    then have out: "k \<notin> set kl" "k \<notin> set kc" "k \<in> set K" using apart by auto
    have kout: "Some k \<notin> set ?kt"
    proof
      assume "Some k \<in> set ?kt"
      then have "k \<in># mset (somes ?kt)" by simp
      with clear apart(2) show False
        by (metis distinct.simps(2) mset.simps(2) mset_eq_imp_distinct_iff set_mset_mset)
    qed
    have tf: "list_all2 (\<lambda>k t. thread_sat view I post k t (p_shared P)) ?kt ((p_threads P)[i := Finished])"
      using ts by (rule list_all2_update_cong) simp
    show ?thesis
    proof (cases p)
      case (Return r)
      with Running k ti have "post k (view k (p_shared P)) r" by simp
      then have "pool_sat view I post K s0 kl ?kt (kc @ [k]) (thread_step W i (p_threads P ! i) P)"
        using inv tf sum unfolding pool_sat_def
        by (simp add: Running Return list_all2_appendI flip: clear)
      then show ?thesis by blast
    next
      case (Atomic f)
      obtain s' p' where f: "f (p_shared P) = (s', p')" by fastforce
      from Running Atomic k ti f Is have I': "I s'"
        and fr: "\<forall>k'. k' \<noteq> k \<longrightarrow> view k' s' = view k' (p_shared P)"
        and sat: "prog_sat view I post k p' (view k s')"
        by (auto simp: prog_sat_Atomic)
      note frame = pool_sat_frame [OF fr]
      have outside: "view k' s' = view k' s0" if "k' \<notin> set K" for k'
        using inv fr that out by (auto simp: pool_sat_def)
      from frame(3) [OF kout tf] have
        "list_all2 (\<lambda>k t. thread_sat view I post k t s') (?kt[i := Some k]) ((p_threads P)[i := Finished, i := Running p'])"
        by (rule list_all2_update_cong) (simp add: sat)
      moreover have "?kt[i := Some k] = kt" using k li by (metis list_update_id list_update_overwrite)
      ultimately have "list_all2 (\<lambda>k t. thread_sat view I post k t s') kt ((p_threads P)[i := Running p'])"
        by simp
      then have "pool_sat view I post K s0 kl kt kc (thread_step W i (p_threads P ! i) P)"
        unfolding pool_sat_def using I' sum outside
        by (simp add: Running Atomic f frame(1,2) out inv [unfolded pool_sat_def])
      then show ?thesis by blast
    qed
  qed
qed

lemma run_sched_sat:
  assumes "distinct K" and "pool_sat view I post K s0 kl kt kc P"
  shows "\<exists>kl kt kc. pool_sat view I post K s0 kl kt kc (run_sched W sched P)"
  using assms(2)
proof (induction sched arbitrary: P kl kt kc)
  case Nil
  then show ?case by (auto simp: run_sched_def)
next
  case (Cons c sched)
  have "\<exists>kl kt kc. pool_sat view I post K s0 kl kt kc (sched_step W c P)"
    using main_step_sat [OF assms(1) Cons.prems] thread_step_sat [OF assms(1) Cons.prems] Cons.prems
    by (cases c) auto
  with Cons.IH show ?case unfolding run_sched_Cons by blast
qed

text \<open>
  The rule itself: a pool whose launches, with pairwise different keys, satisfy \<open>post\<close> on their own,
  ends under every schedule with exactly one result per key in the channel, each satisfying \<open>post\<close>
  on the final state.
\<close>

lemma pool_rule:
  assumes "distinct K" and "I s"
    and "list_all2 (\<lambda>k l. launch_sat view I post k l (view k s)) K ls"
    and P: "P = run_sched W sched (start_pool ls s)" and fin: "pool_done P"
  shows "\<exists>kc. mset kc = mset K
     \<and> list_all2 (\<lambda>k r. post k (view k (p_shared P)) r) kc (p_channel P)
     \<and> I (p_shared P) \<and> (\<forall>k. k \<notin> set K \<longrightarrow> view k (p_shared P) = view k s)"
proof -
  have "pool_sat view I post K s K [] [] (start_pool ls s)"
    using assms(1-3) by (simp add: pool_sat_def start_pool_def)
  from run_sched_sat [OF assms(1) this, of W sched] obtain kl kt kc
    where inv: "pool_sat view I post K s kl kt kc P" unfolding P by blast
  have kl: "kl = []" using inv fin by (auto simp: pool_sat_def pool_done_def)
  have "kt ! i = None" if "i < length kt" for i
  proof -
    have "thread_sat view I post (kt ! i) (p_threads P ! i) (p_shared P)" "is_finished (p_threads P ! i)"
      using inv fin that by (auto simp: pool_sat_def pool_done_def list_all2_conv_all_nth list_all_length)
    then show ?thesis by (cases "kt ! i"; cases "p_threads P ! i") auto
  qed
  then have "set kt \<subseteq> {None}" by (auto simp: in_set_conv_nth)
  then have "somes kt = []" by (auto simp: somes_def filter_empty_conv)
  with inv kl show ?thesis by (intro exI [of _ kc]) (simp add: pool_sat_def)
qed

end
