(* ===== verification/Engine.thy ===== *)
theory Engine
  imports PlanGraph CircuitBreaker Registry Metrics Scheduler
begin

text \<open>
  The engine of \<open>src/internal/router/router.go\<close>. A node of a plan is executed by a goroutine whose
  body is a \<open>prog\<close>: one action for every clock reading, breaker call, metrics call, recorder call,
  agent call and wait, so that a schedule may interleave two nodes between any two of them. A level
  is a pool of such goroutines behind a semaphore; a plan is the sequence of its levels.

  The environment \<open>env\<close> holds what the program reads from outside: the clock (\<open>time.Now\<close>) and the
  \<open>select\<close> on the caller's context and a timer (\<open>None\<close> when the timer fires, the context's error when
  it is done first). OpenTelemetry spans are write-only and are left out.
\<close>

section \<open>State\<close>

record 'w env =
  e_now :: "'w \<Rightarrow> time \<times> 'w"
  e_wait :: "duration \<Rightarrow> 'w \<Rightarrow> goerr option \<times> 'w"

record ('w, 'm) Engine =
  eng_registry :: "'w AgentFunc registry"
  eng_cfg :: RouterConfig
  eng_metrics :: "'m Recorder"

text \<open>What the goroutines of a run share: the engine's breaker and metrics, the recorder, the world.\<close>

record ('w, 'm) shared =
  sh_breaker :: breaker
  sh_metrics :: 'm
  sh_recorder :: trace_recorder
  sh_world :: 'w

section \<open>Construction\<close>

definition normalize_retry :: "RetryPolicy \<Rightarrow> RetryPolicy" where
  "normalize_retry rp =
     (let rp = (if rp_MaxAttempts rp \<le> 0 then rp\<lparr>rp_MaxAttempts := 1\<rparr> else rp)
      in if rp_Backoff rp = [] then rp\<lparr>rp_Backoff := BackoffLinear\<rparr> else rp)"

definition normalize_breaker :: "CircuitBreakerPolicy \<Rightarrow> CircuitBreakerPolicy" where
  "normalize_breaker cp =
     (let cp = (if cp_ResetTimeout cp \<le> 0 then cp\<lparr>cp_ResetTimeout := 60 * second\<rparr> else cp);
          cp = (if cp_ProbeTimeout cp \<le> 0 then cp\<lparr>cp_ProbeTimeout := 5 * second\<rparr> else cp)
      in if cp_FailureThreshold cp < 0 then cp\<lparr>cp_FailureThreshold := 0\<rparr> else cp)"

definition normalize_config :: "RouterConfig \<Rightarrow> RouterConfig" where
  "normalize_config cfg =
     (let cfg = (if rc_ChannelBuffer cfg \<le> 0 then cfg\<lparr>rc_ChannelBuffer := 1\<rparr> else cfg);
          cfg = (if rc_DefaultTimeout cfg \<le> 0 then cfg\<lparr>rc_DefaultTimeout := 30 * second\<rparr> else cfg);
          cfg = (if rc_WorkerPoolSize cfg \<le> 0 then cfg\<lparr>rc_WorkerPoolSize := 1\<rparr> else cfg)
      in cfg\<lparr>rc_RetryPolicy := normalize_retry (rc_RetryPolicy cfg),
             rc_CircuitBreaker := normalize_breaker (rc_CircuitBreaker cfg)\<rparr>)"

text \<open>The engine and the breaker it owns.\<close>

definition NewEngine :: "'w AgentFunc registry \<Rightarrow> RouterConfig \<Rightarrow> ('w, 'm) Engine \<times> breaker" where
  "NewEngine registry cfg =
     (\<lparr>eng_registry = registry, eng_cfg = normalize_config cfg, eng_metrics = NoopRecorder\<rparr>,
      NewCircuitBreaker)"

definition SetMetricsRecorder :: "'m Recorder option \<Rightarrow> ('w, 'm) Engine \<Rightarrow> ('w, 'm) Engine" where
  "SetMetricsRecorder rec e =
     (case rec of None \<Rightarrow> e\<lparr>eng_metrics := NoopRecorder\<rparr> | Some r \<Rightarrow> e\<lparr>eng_metrics := r\<rparr>)"

section \<open>One invocation\<close>

definition safeCall :: "'w AgentFunc \<Rightarrow> duration \<Rightarrow> AgentInput \<Rightarrow> 'w \<Rightarrow> (AgentOutput \<times> goerr option) \<times> 'w" where
  "safeCall fn timeout inp w =
     (case fn timeout inp w of
        (Returned out err, w') \<Rightarrow> ((out, err), w')
      | (Panicked r, w') \<Rightarrow>
          ((empty_output, NonRetryable (Some (WrapErr [] (Sentinel ErrAgentPanic) ('': '' @ r)))), w'))"

definition normalizeInvocationError :: "goerr option \<Rightarrow> goerr option" where
  "normalizeInvocationError err =
     (case err of
        None \<Rightarrow> None
      | Some e \<Rightarrow>
          if errors_is e (Sentinel CtxDeadlineExceeded)
          then Some (WrapErr [] (Sentinel ErrAgentTimeout) ('': '' @ err_text e))
          else Some e)"

definition shouldRetry :: "goerr option \<Rightarrow> RetryPolicy \<Rightarrow> bool" where
  "shouldRetry err policy =
     (case err of
        None \<Rightarrow> False
      | Some e \<Rightarrow>
          (case errors_as_agent e of
             Some ae \<Rightarrow> Retryable ae
           | None \<Rightarrow>
               if errors_is e (Sentinel CtxCanceled) then False
               else if rp_RetryableErrs policy = [] then True
               else list_ex (errors_is e) (rp_RetryableErrs policy)))"

definition node_policy :: "RouterConfig \<Rightarrow> PlanNode \<Rightarrow> RetryPolicy" where
  "node_policy cfg node =
     (let policy = pn_RetryPolicy node;
          policy = (if rp_MaxAttempts policy \<le> 0 then rc_RetryPolicy cfg else policy);
          policy = (if rp_MaxAttempts policy \<le> 0 then policy\<lparr>rp_MaxAttempts := 1\<rparr> else policy)
      in if rp_Backoff policy = [] then policy\<lparr>rp_Backoff := BackoffLinear\<rparr> else policy)"

definition node_cb_policy :: "RouterConfig \<Rightarrow> PlanNode \<Rightarrow> CircuitBreakerPolicy" where
  "node_cb_policy cfg node =
     (let cb = pn_CircuitBreakerPolicy node;
          cb = (if cp_FailureThreshold cb \<le> 0 then rc_CircuitBreaker cfg else cb);
          cb = (if cp_ResetTimeout cb \<le> 0 then cb\<lparr>cp_ResetTimeout := 60 * second\<rparr> else cb)
      in if cp_ProbeTimeout cb \<le> 0 then cb\<lparr>cp_ProbeTimeout := 5 * second\<rparr> else cb)"

definition attempt_timeout :: "RouterConfig \<Rightarrow> CircuitBreakerPolicy \<Rightarrow> bool \<Rightarrow> duration" where
  "attempt_timeout cfg cb halfOpenProbe =
     (if halfOpenProbe \<and> 0 < cp_ProbeTimeout cb \<and> cp_ProbeTimeout cb < rc_DefaultTimeout cfg
      then cp_ProbeTimeout cb else rc_DefaultTimeout cfg)"

text \<open>The actions of a goroutine.\<close>

definition clock_act :: "'w env \<Rightarrow> (time \<Rightarrow> (('w, 'm) shared, 'r) prog) \<Rightarrow> (('w, 'm) shared, 'r) prog" where
  "clock_act env = act (\<lambda>s. case e_now env (sh_world s) of (t, w) \<Rightarrow> (t, s\<lparr>sh_world := w\<rparr>))"

definition wait_act ::
  "'w env \<Rightarrow> duration \<Rightarrow> (goerr option \<Rightarrow> (('w, 'm) shared, 'r) prog) \<Rightarrow> (('w, 'm) shared, 'r) prog" where
  "wait_act env d = act (\<lambda>s. case e_wait env d (sh_world s) of (r, w) \<Rightarrow> (r, s\<lparr>sh_world := w\<rparr>))"

definition call_act ::
  "'w AgentFunc \<Rightarrow> duration \<Rightarrow> AgentInput \<Rightarrow> (AgentOutput \<times> goerr option \<Rightarrow> (('w, 'm) shared, 'r) prog)
   \<Rightarrow> (('w, 'm) shared, 'r) prog" where
  "call_act fn timeout inp = act (\<lambda>s. case safeCall fn timeout inp (sh_world s) of
     (r, w) \<Rightarrow> (r, s\<lparr>sh_world := w\<rparr>))"

definition allow_act ::
  "string \<Rightarrow> CircuitBreakerPolicy \<Rightarrow> time \<Rightarrow> (bool \<times> bool \<Rightarrow> (('w, 'm) shared, 'r) prog)
   \<Rightarrow> (('w, 'm) shared, 'r) prog" where
  "allow_act agentID cb now = act (\<lambda>s. case Allow agentID cb now (sh_breaker s) of
     (r, b) \<Rightarrow> (r, s\<lparr>sh_breaker := b\<rparr>))"

definition breaker_act :: "(breaker \<Rightarrow> breaker) \<Rightarrow> (('w, 'm) shared, 'r) prog \<Rightarrow> (('w, 'm) shared, 'r) prog" where
  "breaker_act f p = act (\<lambda>s. ((), s\<lparr>sh_breaker := f (sh_breaker s)\<rparr>)) (\<lambda>_. p)"

definition metrics_act :: "('m \<Rightarrow> 'm) \<Rightarrow> (('w, 'm) shared, 'r) prog \<Rightarrow> (('w, 'm) shared, 'r) prog" where
  "metrics_act f p = act (\<lambda>s. ((), s\<lparr>sh_metrics := f (sh_metrics s)\<rparr>)) (\<lambda>_. p)"

definition step_act :: "Step \<Rightarrow> (('w, 'm) shared, 'r) prog \<Rightarrow> (('w, 'm) shared, 'r) prog" where
  "step_act st p = act (\<lambda>s. ((), s\<lparr>sh_recorder := AddStep st (sh_recorder s)\<rparr>)) (\<lambda>_. p)"

text \<open>The step a node records: its identity and input, and the fields that vary.\<close>

definition node_step :: "AgentInvocation \<Rightarrow> AgentOutput \<Rightarrow> string \<Rightarrow> duration \<Rightarrow> go_int \<Rightarrow> Step" where
  "node_step invoc out err d attempt = \<lparr>s_InvocationID = inv_ID invoc, s_AgentID = inv_AgentID invoc,
     s_RequestID = ai_RequestID (inv_Input invoc), s_Input = inv_Input invoc, s_Output = out,
     s_Error = err, s_Duration = d, s_Attempt = attempt\<rparr>"

definition ok_result :: "AgentInvocation \<Rightarrow> AgentOutput \<Rightarrow> AgentResult" where
  "ok_result invoc out = \<lparr>ar_Invocation = invoc, ar_Output = out, ar_Err = None\<rparr>"

definition err_result :: "AgentInvocation \<Rightarrow> goerr option \<Rightarrow> AgentResult" where
  "err_result invoc err = \<lparr>ar_Invocation = invoc, ar_Output = empty_output, ar_Err = err\<rparr>"

definition circuit_open_error :: "string \<Rightarrow> goerr option" where
  "circuit_open_error agentID =
     NonRetryable (Some (WrapErr [] (Sentinel ErrCircuitOpen) ('': '' @ agentID)))"

definition with_duration :: "AgentOutput \<Rightarrow> duration \<Rightarrow> AgentOutput" where
  "with_duration out d = (if ao_Duration out = 0 then out\<lparr>ao_Duration := d\<rparr> else out)"

text \<open>\<open>err.Error()\<close> of an error that is not nil.\<close>

definition error_string :: "goerr option \<Rightarrow> string" where
  "error_string err = (case err of None \<Rightarrow> [] | Some e \<Rightarrow> err_text e)"

function attempt_loop ::
  "'w env \<Rightarrow> ('w, 'm) Engine \<Rightarrow> 'w AgentFunc \<Rightarrow> RetryPolicy \<Rightarrow> CircuitBreakerPolicy \<Rightarrow> AgentInvocation
   \<Rightarrow> go_int \<Rightarrow> goerr option \<Rightarrow> (('w, 'm) shared, AgentResult) prog" where
  "attempt_loop env e fn policy cb invoc attempt lastErr =
     (if attempt \<le> rp_MaxAttempts policy then
        clock_act env (\<lambda>now. allow_act (inv_AgentID invoc) cb now (\<lambda>(allow, halfOpenProbe).
          if \<not> allow then
            (let err = circuit_open_error (inv_AgentID invoc) in
             metrics_act (ObserveInvocation (eng_metrics e) (inv_AgentID invoc) ''circuit_open'' 0)
             (metrics_act (ObserveCircuitOpen (eng_metrics e) (inv_AgentID invoc))
             (step_act (node_step invoc empty_output (error_string err) 0 attempt)
             (Return (err_result invoc err)))))
          else
            clock_act env (\<lambda>started.
            call_act fn (attempt_timeout (eng_cfg e) cb halfOpenProbe) (inv_Input invoc) (\<lambda>(out, rawErr).
            clock_act env (\<lambda>finished.
              (let duration = time_sub finished started;
                   err = normalizeInvocationError rawErr
               in if err = None then
                    (let out = with_duration out duration in
                     breaker_act (RecordSuccess (inv_AgentID invoc))
                     (metrics_act (ObserveInvocation (eng_metrics e) (inv_AgentID invoc) ''success'' (ao_Duration out))
                     (step_act (node_step invoc out [] duration attempt)
                     (Return (ok_result invoc out)))))
                  else
                    clock_act env (\<lambda>now.
                    breaker_act (RecordFailure (inv_AgentID invoc) cb now)
                    (metrics_act (ObserveInvocation (eng_metrics e) (inv_AgentID invoc) ''error'' duration)
                    (step_act (node_step invoc out (error_string err) duration attempt)
                    (if attempt = rp_MaxAttempts policy \<or> \<not> shouldRetry err policy
                     then Return (err_result invoc err)
                     else
                       metrics_act (ObserveRetry (eng_metrics e) (inv_AgentID invoc))
                       (wait_act env (BackoffDuration (rp_Backoff policy) attempt) (\<lambda>done.
                         if done \<noteq> None then Return (err_result invoc done)
                         else attempt_loop env e fn policy cb invoc (attempt + 1) err))))))))))))
      else Return (err_result invoc lastErr))"
  by pat_completeness auto
termination
  by (relation "measure (\<lambda>(_, _, _, policy, _, _, attempt, _). nat (rp_MaxAttempts policy + 1 - attempt))") auto

declare attempt_loop.simps [simp del]

definition executeNode ::
  "'w env \<Rightarrow> ('w, 'm) Engine \<Rightarrow> PlanNode \<Rightarrow> (('w, 'm) shared, AgentResult) prog" where
  "executeNode env e node =
     (let invoc = pn_Invocation node in
      case registry_get (inv_AgentID invoc) (eng_registry e) of
        None \<Rightarrow>
          (let err = Some (Errorf (''agent not registered: '' @ inv_AgentID invoc)) in
           metrics_act (ObserveInvocation (eng_metrics e) (inv_AgentID invoc) ''error'' 0)
           (step_act (node_step invoc empty_output (error_string err) 0 1)
           (Return (err_result invoc err))))
      | Some fn \<Rightarrow>
          attempt_loop env e fn (node_policy (eng_cfg e) node) (node_cb_policy (eng_cfg e) node) invoc 1 None)"

section \<open>Levels and plans\<close>

definition empty_node :: PlanNode where
  "empty_node = \<lparr>pn_Invocation = empty_invocation, pn_DependsOn = [],
     pn_RetryPolicy = default_retry, pn_CircuitBreakerPolicy = default_breaker\<rparr>"

definition empty_result :: AgentResult where
  "empty_result = \<lparr>ar_Invocation = empty_invocation, ar_Output = empty_output, ar_Err = None\<rparr>"

definition node_launch ::
  "'w env \<Rightarrow> ('w, 'm) Engine \<Rightarrow> planGraph \<Rightarrow> (string \<rightharpoonup> AgentResult) \<Rightarrow> string
   \<Rightarrow> (('w, 'm) shared, AgentResult) launch" where
  "node_launch env e graph resultsByID nodeID =
     (let node = map_get empty_node (pg_nodesByID graph) nodeID; invoc = pn_Invocation node in
      case dependencyError node graph resultsByID of
        Some depErr \<Rightarrow>
          Direct (\<lambda>s. s\<lparr>sh_recorder :=
                    AddStep (node_step invoc empty_output (err_text depErr) 0 0) (sh_recorder s)\<rparr>)
                 (err_result invoc (Some depErr))
      | None \<Rightarrow> Spawn (executeNode env e node))"

definition result_id :: "AgentResult \<Rightarrow> string" where
  "result_id r = inv_ID (ar_Invocation r)"

definition level_pool ::
  "'w env \<Rightarrow> ('w, 'm) Engine \<Rightarrow> string list \<Rightarrow> planGraph \<Rightarrow> (string \<rightharpoonup> AgentResult) \<Rightarrow> nat option list
   \<Rightarrow> ('w, 'm) shared \<Rightarrow> (('w, 'm) shared, AgentResult) pool" where
  "level_pool env e level graph resultsByID sched s =
     run_sched (nat (rc_WorkerPoolSize (eng_cfg e))) sched
       (start_pool (map (node_launch env e graph resultsByID) level) s)"

text \<open>
  \<open>wg.Wait()\<close> returns when every goroutine has finished; a schedule that stops before that gives
  \<open>None\<close>.
\<close>

definition executeLevel ::
  "'w env \<Rightarrow> ('w, 'm) Engine \<Rightarrow> string list \<Rightarrow> planGraph \<Rightarrow> (string \<rightharpoonup> AgentResult) \<Rightarrow> nat option list
   \<Rightarrow> ('w, 'm) shared \<Rightarrow> (AgentResult list \<times> ('w, 'm) shared) option" where
  "executeLevel env e level graph resultsByID sched s =
     (let P = level_pool env e level graph resultsByID sched s in
      if pool_done P then Some (sort_slice result_id (p_channel P), p_shared P) else None)"

definition store_results :: "AgentResult list \<Rightarrow> (string \<rightharpoonup> AgentResult) \<Rightarrow> (string \<rightharpoonup> AgentResult)" where
  "store_results rs m = foldl (\<lambda>m r. m(result_id r \<mapsto> r)) m rs"

text \<open>One schedule per level.\<close>

fun run_levels ::
  "'w env \<Rightarrow> ('w, 'm) Engine \<Rightarrow> planGraph \<Rightarrow> string list list \<Rightarrow> nat option list list
   \<Rightarrow> (string \<rightharpoonup> AgentResult) \<Rightarrow> ('w, 'm) shared \<Rightarrow> ((string \<rightharpoonup> AgentResult) \<times> ('w, 'm) shared) option" where
  "run_levels env e graph [] scheds resultsByID s = Some (resultsByID, s)"
| "run_levels env e graph (level # levels) [] resultsByID s = None"
| "run_levels env e graph (level # levels) (sched # scheds) resultsByID s =
     (case executeLevel env e level graph resultsByID sched s of
        None \<Rightarrow> None
      | Some (levelResults, s') \<Rightarrow>
          run_levels env e graph levels scheds (store_results levelResults resultsByID) s')"

definition finish_run :: "'w env \<Rightarrow> ('w, 'm) shared \<Rightarrow> ExecutionTrace \<times> ('w, 'm) shared" where
  "finish_run env s =
     (case e_now env (sh_world s) of
        (end_time, w) \<Rightarrow> (Finalize end_time (sh_recorder s), s\<lparr>sh_world := w\<rparr>))"

definition RunPlan ::
  "'w env \<Rightarrow> ('w, 'm) Engine \<Rightarrow> ExecutionPlan \<Rightarrow> nat option list list \<Rightarrow> ('w, 'm) shared
   \<Rightarrow> (AgentResult list \<times> ExecutionTrace \<times> ('w, 'm) shared) option" where
  "RunPlan env e plan scheds s =
     (case e_now env (sh_world s) of (start, w) \<Rightarrow>
      let s = s\<lparr>sh_world := w, sh_recorder := NewRecorder (ep_TaskID plan) start\<rparr> in
      case buildGraph plan of
        Inl err \<Rightarrow>
          (let s = s\<lparr>sh_recorder := AddStep (empty_step\<lparr>s_InvocationID := ''plan_validation'',
                       s_AgentID := ''router'', s_RequestID := [], s_Error := err_text err,
                       s_Attempt := 0\<rparr>) (sh_recorder s)\<rparr>
           in Some ([empty_result\<lparr>ar_Err := Some err\<rparr>], finish_run env s))
      | Inr graph \<Rightarrow>
          (case run_levels env e graph (pg_levels graph) scheds Map.empty s of
             None \<Rightarrow> None
           | Some (resultsByID, s) \<Rightarrow>
               (let results = sort_slice result_id
                      (map (\<lambda>n. map_get empty_result resultsByID (node_id n)) (pg_nodes graph))
                in Some (results, finish_run env s))))"

definition engine_run ::
  "'w env \<Rightarrow> ('w, 'm) Engine \<Rightarrow> AgentInvocation list \<Rightarrow> nat option list list \<Rightarrow> ('w, 'm) shared
   \<Rightarrow> (AgentResult list \<times> ('w, 'm) shared) option" where
  "engine_run env e invocations scheds s =
     (let nodes = map (\<lambda>invoc. empty_node\<lparr>pn_Invocation := invoc\<rparr>) invocations in
      map_option (\<lambda>(results, _, s). (results, s))
        (RunPlan env e \<lparr>ep_TaskID = inferTaskID invocations, ep_Nodes = nodes\<rparr> scheds s))"

end
