(* ===== verification/EngineSpec.thy ===== *)
theory EngineSpec
  imports Engine
begin

text \<open>
  What the engine promises, for every schedule. The specification of one node is the relation
  \<open>node_run\<close>: the steps a node records and the result it gives, attempt by attempt. The body of
  \<open>executeNode\<close> satisfies it whatever the other goroutines do between its actions; the pool rule of
  the scheduler then gives the levels, and an induction over the levels the whole plan.
\<close>

section \<open>The specification of a node\<close>

text \<open>Some call of the agent, with the node's input and an admissible time budget, gave this outcome.\<close>

definition called ::
  "RouterConfig \<Rightarrow> 'w AgentFunc \<Rightarrow> CircuitBreakerPolicy \<Rightarrow> AgentInvocation \<Rightarrow> AgentOutput \<Rightarrow> goerr option \<Rightarrow> bool" where
  "called cfg fn cb invoc out err \<longleftrightarrow>
     (\<exists>probe w raw w'. safeCall fn (attempt_timeout cfg cb probe) (inv_Input invoc) w = ((out, raw), w')
        \<and> err = normalizeInvocationError raw)"

inductive node_run ::
  "'w env \<Rightarrow> RouterConfig \<Rightarrow> 'w AgentFunc \<Rightarrow> RetryPolicy \<Rightarrow> CircuitBreakerPolicy \<Rightarrow> AgentInvocation
   \<Rightarrow> go_int \<Rightarrow> Step list \<Rightarrow> AgentResult \<Rightarrow> bool"
  for env cfg fn policy cb invoc
where
  run_open: "0 < cp_FailureThreshold cb \<Longrightarrow>
     node_run env cfg fn policy cb invoc k
       [node_step invoc empty_output (error_string (circuit_open_error (inv_AgentID invoc))) 0 k]
       (err_result invoc (circuit_open_error (inv_AgentID invoc)))"
| run_success: "called cfg fn cb invoc out None \<Longrightarrow>
     node_run env cfg fn policy cb invoc k
       [node_step invoc (with_duration out d) [] d k] (ok_result invoc (with_duration out d))"
| run_giveup: "called cfg fn cb invoc out (Some err) \<Longrightarrow>
     k = rp_MaxAttempts policy \<or> \<not> shouldRetry (Some err) policy \<Longrightarrow>
     node_run env cfg fn policy cb invoc k
       [node_step invoc out (err_text err) d k] (err_result invoc (Some err))"
| run_cancelled: "called cfg fn cb invoc out (Some err) \<Longrightarrow>
     k < rp_MaxAttempts policy \<Longrightarrow> shouldRetry (Some err) policy \<Longrightarrow>
     e_wait env (BackoffDuration (rp_Backoff policy) k) w = (Some c, w') \<Longrightarrow>
     node_run env cfg fn policy cb invoc k
       [node_step invoc out (err_text err) d k] (err_result invoc (Some c))"
| run_retry: "called cfg fn cb invoc out (Some err) \<Longrightarrow>
     k < rp_MaxAttempts policy \<Longrightarrow> shouldRetry (Some err) policy \<Longrightarrow>
     e_wait env (BackoffDuration (rp_Backoff policy) k) w = (None, w') \<Longrightarrow>
     node_run env cfg fn policy cb invoc (k + 1) ss r \<Longrightarrow>
     node_run env cfg fn policy cb invoc k (node_step invoc out (err_text err) d k # ss) r"

lemma node_step_fields [simp]:
  "s_InvocationID (node_step invoc out err d k) = inv_ID invoc"
  "s_AgentID (node_step invoc out err d k) = inv_AgentID invoc"
  "s_RequestID (node_step invoc out err d k) = ai_RequestID (inv_Input invoc)"
  "s_Attempt (node_step invoc out err d k) = k" "s_Error (node_step invoc out err d k) = err"
  "s_Input (node_step invoc out err d k) = inv_Input invoc"
  "s_Output (node_step invoc out err d k) = out" "s_Duration (node_step invoc out err d k) = d"
  by (simp_all add: node_step_def)

lemma result_fields [simp]:
  "ar_Invocation (ok_result invoc out) = invoc" "ar_Output (ok_result invoc out) = out"
  "ar_Err (ok_result invoc out) = None" "ar_Invocation (err_result invoc e) = invoc"
  "ar_Output (err_result invoc e) = empty_output" "ar_Err (err_result invoc e) = e"
  by (simp_all add: ok_result_def err_result_def)

lemma error_string_simps [simp]: "error_string None = []" "error_string (Some e) = err_text e"
  by (simp_all add: error_string_def)

lemma circuit_open_error_not_None [simp]: "circuit_open_error a \<noteq> None"
  by (simp add: circuit_open_error_def NonRetryable_def)

section \<open>A node satisfies it under every interleaving\<close>

definition own_steps :: "string \<Rightarrow> ('w, 'm) shared \<Rightarrow> Step list" where
  "own_steps i s = filter (\<lambda>st. s_InvocationID st = i) (t_Steps (sh_recorder s))"

definition same_trace :: "string \<Rightarrow> time \<Rightarrow> ('w, 'm) shared \<Rightarrow> bool" where
  "same_trace task start s \<longleftrightarrow> t_TaskID (sh_recorder s) = task \<and> t_StartTime (sh_recorder s) = start"

abbreviation engine_sat ::
  "string \<Rightarrow> time \<Rightarrow> (string \<Rightarrow> Step list \<Rightarrow> AgentResult \<Rightarrow> bool) \<Rightarrow> string
   \<Rightarrow> (('w, 'm) shared, AgentResult) prog \<Rightarrow> Step list \<Rightarrow> bool" where
  "engine_sat task start \<equiv> prog_sat own_steps (same_trace task start)"

text \<open>Actions that leave the recorder alone keep every view.\<close>

lemma act_keeps_recorder:
  assumes "\<And>s. sh_recorder (snd (g s)) = sh_recorder s" and "\<And>s. engine_sat task start post i (c (fst (g s))) v"
  shows "engine_sat task start post i (act g c) v"
proof (rule prog_sat_act)
  fix s a s'
  assume s: "own_steps i s = v" "same_trace task start s" "g s = (a, s')"
  have "sh_recorder s' = sh_recorder s" using assms(1) [of s] s(3) by simp
  then have "own_steps k s' = own_steps k s" "same_trace task start s' = same_trace task start s" for k
    by (simp_all add: own_steps_def same_trace_def)
  moreover have "engine_sat task start post i (c a) v" using assms(2) [of s] s(3) by simp
  ultimately show "same_trace task start s' \<and> (\<forall>k'. k' \<noteq> i \<longrightarrow> own_steps k' s' = own_steps k' s)
      \<and> engine_sat task start post i (c a) (own_steps i s')"
    using s by simp
qed

lemma engine_act_sat:
  shows clock_sat: "\<lbrakk>\<And>t. engine_sat task start post i (c t) v\<rbrakk> \<Longrightarrow> engine_sat task start post i (clock_act env c) v"
    and wait_sat: "\<lbrakk>\<And>r w w'. e_wait env d w = (r, w') \<Longrightarrow> engine_sat task start post i (cw r) v\<rbrakk>
      \<Longrightarrow> engine_sat task start post i (wait_act env d cw) v"
    and call_sat: "\<lbrakk>\<And>r w w'. safeCall fn d inp w = (r, w') \<Longrightarrow> engine_sat task start post i (cc r) v\<rbrakk>
      \<Longrightarrow> engine_sat task start post i (call_act fn d inp cc) v"
    and allow_sat: "\<lbrakk>\<And>r b b'. Allow a cb now b = (r, b') \<Longrightarrow> engine_sat task start post i (ca r) v\<rbrakk>
      \<Longrightarrow> engine_sat task start post i (allow_act a cb now ca) v"
    and breaker_sat: "engine_sat task start post i p v \<Longrightarrow> engine_sat task start post i (breaker_act f p) v"
    and metrics_sat: "engine_sat task start post i p v \<Longrightarrow> engine_sat task start post i (metrics_act g p) v"
  unfolding clock_act_def wait_act_def call_act_def allow_act_def breaker_act_def metrics_act_def
  by (rule act_keeps_recorder; fastforce split: prod.splits)+

lemma step_sat:
  assumes "s_InvocationID st = i" and "engine_sat task start post i p (v @ [clone_step st])"
  shows "engine_sat task start post i (step_act st p) v"
  unfolding step_act_def
  by (rule prog_sat_act) (use assms in \<open>auto simp: own_steps_def same_trace_def\<close>)

lemma Allow_disabled: "cp_FailureThreshold cb \<le> 0 \<Longrightarrow> Allow a cb now b = (r, b') \<Longrightarrow> fst r"
  by (auto simp: Allow_def)

lemma attempt_loop_sat:
  assumes "k \<le> rp_MaxAttempts policy"
    and "\<And>ss r. node_run env (eng_cfg e) fn policy cb invoc k ss r \<Longrightarrow> post (inv_ID invoc) (v @ map clone_step ss) r"
  shows "engine_sat task start post (inv_ID invoc) (attempt_loop env e fn policy cb invoc k lastErr) v"
  using assms
proof (induction "nat (rp_MaxAttempts policy - k)" arbitrary: k v lastErr rule: less_induct)
  case less
  let ?sat = "engine_sat task start post (inv_ID invoc)"
  let ?open = "circuit_open_error (inv_AgentID invoc)"
  let ?timeout = "attempt_timeout (eng_cfg e) cb"
  note post = less.prems(2)
  have opened: "?sat (step_act (node_step invoc empty_output (error_string ?open) 0 k)
      (Return (err_result invoc ?open))) v"
    if "Allow (inv_AgentID invoc) cb now b = ((False, h), b')" for now b h b'
  proof (rule step_sat)
    have "0 < cp_FailureThreshold cb" using Allow_disabled [OF _ that] by force
    from post [OF run_open [OF this]]
    show "?sat (Return (err_result invoc ?open)) (v @ [clone_step (node_step invoc empty_output (error_string ?open) 0 k)])"
      by simp
  qed simp
  have success: "?sat (step_act (node_step invoc (with_duration out d) [] d k)
      (Return (ok_result invoc (with_duration out d)))) v"
    if "called (eng_cfg e) fn cb invoc out None" for out d
    by (rule step_sat) (use post [OF run_success [OF that]] in simp_all)
  have failure: "?sat (step_act (node_step invoc out (err_text err) d k)
      (if k = rp_MaxAttempts policy \<or> \<not> shouldRetry (Some err) policy then Return (err_result invoc (Some err))
       else metrics_act f (wait_act env (BackoffDuration (rp_Backoff policy) k) (\<lambda>done.
         if done \<noteq> None then Return (err_result invoc done)
         else attempt_loop env e fn policy cb invoc (k + 1) (Some err))))) v"
    if c: "called (eng_cfg e) fn cb invoc out (Some err)" for out err d f
  proof (rule step_sat)
    let ?v = "v @ [clone_step (node_step invoc out (err_text err) d k)]"
    have "?sat (metrics_act f (wait_act env (BackoffDuration (rp_Backoff policy) k) (\<lambda>done.
         if done \<noteq> None then Return (err_result invoc done)
         else attempt_loop env e fn policy cb invoc (k + 1) (Some err)))) ?v"
      if more: "k < rp_MaxAttempts policy" "shouldRetry (Some err) policy"
    proof (intro metrics_sat wait_sat)
      fix r w w'
      assume w: "e_wait env (BackoffDuration (rp_Backoff policy) k) w = (r, w')"
      show "?sat (if r \<noteq> None then Return (err_result invoc r)
          else attempt_loop env e fn policy cb invoc (k + 1) (Some err)) ?v"
      proof (cases r)
        case None
        have "?sat (attempt_loop env e fn policy cb invoc (k + 1) (Some err)) ?v"
          by (rule less.hyps) (use more post [OF run_retry [OF c more w [unfolded None]]] in simp_all)
        with None show ?thesis by simp
      next
        case (Some x)
        with post [OF run_cancelled [OF c more w [unfolded Some]]] show ?thesis by simp
      qed
    qed
    with less.prems(1) post [OF run_giveup [OF c]]
    show "?sat (if k = rp_MaxAttempts policy \<or> \<not> shouldRetry (Some err) policy then Return (err_result invoc (Some err))
       else metrics_act f (wait_act env (BackoffDuration (rp_Backoff policy) k) (\<lambda>done.
         if done \<noteq> None then Return (err_result invoc done)
         else attempt_loop env e fn policy cb invoc (k + 1) (Some err)))) ?v"
      by simp
  qed simp
  have call: "called (eng_cfg e) fn cb invoc out (normalizeInvocationError raw)"
    if "safeCall fn (?timeout h) (inv_Input invoc) w = ((out, raw), w')" for out raw h w w'
    using that by (auto simp: called_def)
  have finished: "?sat (let err = normalizeInvocationError raw in
      if err = None
      then let out = with_duration out d in breaker_act f1 (metrics_act (f2 out) (step_act (node_step invoc out [] d k)
        (Return (ok_result invoc out))))
      else clock_act env (\<lambda>now. breaker_act (f3 now) (metrics_act f4 (step_act (node_step invoc out (error_string err) d k)
        (if k = rp_MaxAttempts policy \<or> \<not> shouldRetry err policy then Return (err_result invoc err)
         else metrics_act f5 (wait_act env (BackoffDuration (rp_Backoff policy) k) (\<lambda>done.
           if done \<noteq> None then Return (err_result invoc done)
           else attempt_loop env e fn policy cb invoc (k + 1) err))))))) v"
    if "safeCall fn (?timeout h) (inv_Input invoc) w = ((out, raw), w')" for out raw h w w' d f1 f2 f3 f4 f5
  proof (cases "normalizeInvocationError raw")
    case None
    with call [OF that] show ?thesis by (simp add: Let_def breaker_sat metrics_sat success)
  next
    case (Some err)
    note c = call [OF that, unfolded Some]
    show ?thesis
      unfolding Some Let_def error_string_simps
      by (simp only: option.distinct if_False, intro clock_sat breaker_sat metrics_sat failure [OF c])
  qed
  show ?case
    unfolding attempt_loop.simps [of env e fn policy cb invoc k lastErr] if_P [OF less.prems(1)]
  proof (rule clock_sat, rule allow_sat, goal_cases)
    case (1 t r b b')
    show ?case
    proof (cases r)
      case (Pair allow h)
      show ?thesis
      proof (cases allow)
        case True
        show ?thesis
          unfolding Pair
        proof (simp only: split_conv True not_True_eq_False if_False, rule clock_sat, rule call_sat, goal_cases)
          case (1 started r w w')
          then show ?case
            by (cases r) (simp only: split_conv, rule clock_sat, subst Let_def [of "time_sub _ _"], rule finished)
        qed
      next
        case False
        with 1 Pair show ?thesis by (auto simp: Let_def intro!: metrics_sat opened)
      qed
    qed
  qed
qed

section \<open>One node of a plan\<close>

text \<open>The log of a node and its result, given the results of its dependencies.\<close>

definition node_ok ::
  "'w env \<Rightarrow> ('w, 'm) Engine \<Rightarrow> planGraph \<Rightarrow> (string \<rightharpoonup> AgentResult) \<Rightarrow> PlanNode \<Rightarrow> Step list \<Rightarrow> AgentResult \<Rightarrow> bool" where
  "node_ok env e g results node ss r =
     (let invoc = pn_Invocation node in
      case dependencyError node g results of
        Some depErr \<Rightarrow>
          ss = [node_step invoc empty_output (err_text depErr) 0 0] \<and> r = err_result invoc (Some depErr)
      | None \<Rightarrow>
          (case registry_get (inv_AgentID invoc) (eng_registry e) of
             None \<Rightarrow>
               (let err = Errorf (''agent not registered: '' @ inv_AgentID invoc) in
                ss = [node_step invoc empty_output (err_text err) 0 1] \<and> r = err_result invoc (Some err))
           | Some fn \<Rightarrow>
               node_run env (eng_cfg e) fn (node_policy (eng_cfg e) node) (node_cb_policy (eng_cfg e) node)
                 invoc 1 ss r))"

lemma node_policy_positive: "1 \<le> rp_MaxAttempts (node_policy cfg node)"
  by (simp add: node_policy_def Let_def)

lemma executeNode_sat:
  assumes "dependencyError node g results = None"
    and "\<And>ss r. node_ok env e g results node ss r \<Longrightarrow> post (node_id node) (map clone_step ss) r"
  shows "engine_sat task start post (node_id node) (executeNode env e node) []"
proof (cases "registry_get (inv_AgentID (pn_Invocation node)) (eng_registry e)")
  case None
  have "post (node_id node) (map clone_step [node_step (pn_Invocation node) empty_output
      (err_text (Errorf (''agent not registered: '' @ inv_AgentID (pn_Invocation node)))) 0 1])
      (err_result (pn_Invocation node) (Some (Errorf (''agent not registered: '' @ inv_AgentID (pn_Invocation node)))))"
    by (rule assms(2)) (simp add: node_ok_def assms(1) None)
  with None show ?thesis
    by (auto simp: executeNode_def Let_def intro!: metrics_sat step_sat)
next
  case (Some fn)
  have "post (node_id node) ([] @ map clone_step ss) r"
    if "node_run env (eng_cfg e) fn (node_policy (eng_cfg e) node) (node_cb_policy (eng_cfg e) node)
      (pn_Invocation node) 1 ss r" for ss r
    using that by (simp add: assms node_ok_def Some)
  with Some show ?thesis
    unfolding executeNode_def by (simp add: Let_def node_policy_positive attempt_loop_sat)
qed

abbreviation level_post ::
  "'w env \<Rightarrow> ('w, 'm) Engine \<Rightarrow> planGraph \<Rightarrow> (string \<rightharpoonup> AgentResult) \<Rightarrow> string \<Rightarrow> Step list \<Rightarrow> AgentResult \<Rightarrow> bool" where
  "level_post env e g results i v r \<equiv>
     \<exists>ss. v = map clone_step ss \<and> node_ok env e g results (map_get empty_node (pg_nodesByID g) i) ss r"

lemma node_launch_sat:
  assumes "node_id (map_get empty_node (pg_nodesByID g) i) = i"
  shows "launch_sat own_steps (same_trace task start) (level_post env e g results)
     i (node_launch env e g results i) []"
proof (cases "dependencyError (map_get empty_node (pg_nodesByID g) i) g results")
  case None
  have "engine_sat task start (level_post env e g results)
     (node_id (map_get empty_node (pg_nodesByID g) i))
     (executeNode env e (map_get empty_node (pg_nodesByID g) i)) []"
    using assms by (intro executeNode_sat [OF None]) auto
  with None show ?thesis by (simp add: node_launch_def Let_def assms)
next
  case (Some de)
  then show ?thesis
    using assms
    by (auto simp: node_launch_def Let_def prog_sat_Atomic own_steps_def same_trace_def node_ok_def
        intro!: exI [of _ "[_]"])
qed

section \<open>A level\<close>

lemma node_run_invocation: "node_run env cfg fn policy cb invoc k ss r \<Longrightarrow> ar_Invocation r = invoc"
  by (induction rule: node_run.induct) simp_all

lemma node_ok_invocation: "node_ok env e g results node ss r \<Longrightarrow> ar_Invocation r = pn_Invocation node"
  by (auto simp: node_ok_def Let_def node_run_invocation split: option.splits)

lemma executeLevel_results:
  assumes run: "executeLevel env e level g results sched s = Some (rs, s')"
    and level: "distinct level" "sorted level"
    and ids: "\<forall>i \<in> set level. node_id (map_get empty_node (pg_nodesByID g) i) = i"
    and fresh: "\<forall>i \<in> set level. own_steps i s = []" and s: "same_trace task start s"
  shows "map result_id rs = level"
    and "\<forall>r \<in> set rs. level_post env e g results (result_id r) (own_steps (result_id r) s') r"
    and "same_trace task start s'" and "\<forall>i. i \<notin> set level \<longrightarrow> own_steps i s' = own_steps i s"
proof -
  define P where "P = run_sched (nat (rc_WorkerPoolSize (eng_cfg e))) sched
    (start_pool (map (node_launch env e g results) level) s)"
  from run have fin: "pool_done P" and rs: "rs = sort_slice result_id (p_channel P)" and s': "s' = p_shared P"
    by (auto simp: executeLevel_def level_pool_def P_def Let_def split: if_splits)
  have "list_all2 (\<lambda>k l. launch_sat own_steps (same_trace task start) (level_post env e g results) k l (own_steps k s))
      level (map (node_launch env e g results) level)"
    using ids fresh by (auto simp: list_all2_conv_all_nth node_launch_sat)
  from pool_rule [OF level(1) s this P_def fin] obtain kc where kc: "mset kc = mset level"
    and ch: "list_all2 (\<lambda>k r. level_post env e g results k (own_steps k s') r) kc (p_channel P)"
    and rest: "same_trace task start s'" "\<forall>i. i \<notin> set level \<longrightarrow> own_steps i s' = own_steps i s"
    unfolding s' by blast
  have "result_id (p_channel P ! j) = kc ! j" if "j < length kc" for j
  proof -
    have "kc ! j \<in> set level" using kc that by (metis mset_eq_setD nth_mem)
    with ch that ids show ?thesis
      by (auto simp: list_all2_conv_all_nth result_id_def dest!: node_ok_invocation)
  qed
  then have map: "map result_id (p_channel P) = kc"
    using ch by (auto simp: list_all2_conv_all_nth intro: nth_equalityI)
  have "sorted (map result_id rs)" "mset (map result_id rs) = mset level"
    unfolding rs using map kc by (simp, metis mset_map slices.sorter_mset)
  then show "map result_id rs = level" using level by (metis properties_for_sort sorted_sort_id)
  show "\<forall>r \<in> set rs. level_post env e g results (result_id r) (own_steps (result_id r) s') r"
    using ch unfolding rs map [symmetric]
    by (auto simp: list_all2_map1 list_all2_same)
  show "same_trace task start s'" "\<forall>i. i \<notin> set level \<longrightarrow> own_steps i s' = own_steps i s" by (fact rest)+
qed

section \<open>The levels of a plan\<close>

lemma store_results_get:
  "distinct (map result_id rs) \<Longrightarrow> store_results rs m i =
     (case find (\<lambda>r. result_id r = i) rs of None \<Rightarrow> m i | Some r \<Rightarrow> Some r)"
  unfolding store_results_def
proof (induction rs arbitrary: m)
  case (Cons r rs)
  from Cons.prems have "result_id r \<notin> result_id ` set rs" by simp
  then have "find (\<lambda>r'. result_id r' = result_id r) rs = None"
    unfolding find_None_iff by (metis image_eqI)
  with Cons show ?case by (auto split: option.splits)
qed simp

lemma dependencyError_cong:
  assumes "\<forall>d \<in> set (pn_DependsOn node). results d = results' d"
  shows "dependencyError node g results = dependencyError node g results'"
proof -
  have "dependency_error_loop ds g results = dependency_error_loop ds g results'"
    if "\<forall>d \<in> set ds. results d = results' d" for ds
    using that by (induction ds) (auto split: option.splits)
  with assms show ?thesis by (simp add: dependencyError_def)
qed

lemma node_ok_cong:
  assumes "\<forall>d \<in> set (pn_DependsOn node). results d = results' d"
  shows "node_ok env e g results node ss r = node_ok env e g results' node ss r"
  unfolding node_ok_def dependencyError_cong [OF assms] ..

text \<open>The lookup of a node and the dependencies it names, as the graph of the levels sees them.\<close>

abbreviation g_node :: "planGraph \<Rightarrow> string \<Rightarrow> PlanNode" where
  "g_node g i \<equiv> map_get empty_node (pg_nodesByID g) i"

lemma run_levels_results:
  assumes "run_levels env e g levels scheds results s = Some (results', s')"
    and "topo_levels E fin levels" and "distinct (concat levels)" and "set (concat levels) \<inter> fin = {}"
    and "\<forall>l \<in> set levels. sorted l" and "dom results = fin"
    and "\<forall>i \<in> set (concat levels). node_id (g_node g i) = i \<and> (\<forall>d \<in> set (pn_DependsOn (g_node g i)). (d, i) \<in> E)"
    and "\<forall>i \<in> set (concat levels). own_steps i s = []" and "same_trace task start s"
  shows "dom results' = fin \<union> set (concat levels) \<and> (\<forall>i \<in> fin. results' i = results i)
    \<and> same_trace task start s' \<and> (\<forall>i. i \<notin> set (concat levels) \<longrightarrow> own_steps i s' = own_steps i s)
    \<and> (\<forall>i \<in> set (concat levels). level_post env e g results' i (own_steps i s') (the (results' i)))"
  using assms
proof (induction levels arbitrary: scheds results s fin)
  case Nil
  then show ?case by auto
next
  case (Cons level levels)
  from Cons.prems(1) obtain sched scheds' rs s1 where "scheds = sched # scheds'"
    and lev: "executeLevel env e level g results sched s = Some (rs, s1)"
    and rec: "run_levels env e g levels scheds' (store_results rs results) s1 = Some (results', s')"
    by (cases scheds) (auto split: option.splits)
  let ?res = "store_results rs results"
  have lv: "distinct level" "sorted level" "\<forall>i \<in> set level. node_id (g_node g i) = i"
      "\<forall>i \<in> set level. own_steps i s = []" "set level \<inter> set (concat levels) = {}"
    using Cons.prems by auto
  note level = executeLevel_results [OF lev lv(1-4) Cons.prems(9)]
  have find: "\<exists>r. find (\<lambda>r. result_id r = i) rs = Some r \<and> r \<in> set rs \<and> result_id r = i" if "i \<in> set level" for i
  proof (cases "find (\<lambda>r. result_id r = i) rs")
    case None
    with that show ?thesis unfolding level(1) [symmetric] by (auto simp: find_None_iff)
  next
    case (Some r)
    then show ?thesis by (auto simp: find_Some_iff)
  qed
  have nofind: "find (\<lambda>r. result_id r = i) rs = None" if "i \<notin> set level" for i
    using that unfolding level(1) [symmetric] by (auto simp: find_None_iff)
  have get: "?res i = (case find (\<lambda>r. result_id r = i) rs of None \<Rightarrow> results i | Some r \<Rightarrow> Some r)" for i
    by (rule store_results_get) (use lv(1) level(1) in simp)
  have old: "?res i = results i" if "i \<in> fin" for i
  proof -
    have "i \<notin> set level" using Cons.prems(4) that by auto
    from nofind [OF this] show ?thesis by (simp add: get)
  qed
  have dom: "dom ?res = fin \<union> set level"
    using Cons.prems(6) find nofind by (force simp: get dom_def split: option.splits)
  have "\<forall>i \<in> set (concat levels). own_steps i s1 = []"
    using level(4) Cons.prems(8) lv(5) by (metis IntI UnCI concat.simps(2) empty_iff set_append)
  note fresh = this
  have "set (concat levels) \<inter> (fin \<union> set level) = {}" using Cons.prems(4) lv(5) by auto
  note apart = this
  have topo: "topo_levels E (fin \<union> set level) levels" and dist: "distinct (concat levels)"
      and sorted: "\<forall>l \<in> set levels. sorted l"
      and nodes: "\<forall>i \<in> set (concat levels). node_id (g_node g i) = i \<and> (\<forall>d \<in> set (pn_DependsOn (g_node g i)). (d, i) \<in> E)"
    using Cons.prems by simp_all
  note IHs = Cons.IH [OF rec topo dist apart sorted dom nodes fresh level(3)]
  have IH: "dom results' = fin \<union> set level \<union> set (concat levels)" "\<forall>i \<in> fin \<union> set level. results' i = ?res i"
    "same_trace task start s'" "\<forall>i. i \<notin> set (concat levels) \<longrightarrow> own_steps i s' = own_steps i s1"
    "\<forall>i \<in> set (concat levels). level_post env e g results' i (own_steps i s') (the (results' i))"
    using IHs by blast+
  have here: "level_post env e g results' i (own_steps i s') (the (results' i))" if i: "i \<in> set level" for i
  proof -
    obtain r where r: "find (\<lambda>r. result_id r = i) rs = Some r" "r \<in> set rs" "result_id r = i" using find [OF i] by blast
    have "\<forall>d \<in> set (pn_DependsOn (g_node g i)). results' d = results d"
      using Cons.prems(2,7) i IH(2) old by fastforce
    note cong = node_ok_cong [OF this]
    have "level_post env e g results' i (own_steps i s1) r" using level(2) r unfolding cong by blast
    moreover have "own_steps i s' = own_steps i s1" using IH(4) i lv(5) by auto
    moreover have "results' i = Some r" using IH(2) i r(1) by (simp add: get)
    ultimately show ?thesis by simp
  qed
  show ?case using IH here old level(4) by auto
qed

section \<open>The log of a node\<close>

lemma node_run_log:
  assumes "node_run env cfg fn policy cb invoc k ss r" and "k \<le> rp_MaxAttempts policy"
  shows "ss \<noteq> [] \<and> map s_Attempt ss = [k..k + int (length ss) - 1]
    \<and> k + int (length ss) - 1 \<le> rp_MaxAttempts policy
    \<and> (\<forall>st \<in> set ss. s_InvocationID st = inv_ID invoc \<and> s_AgentID st = inv_AgentID invoc
         \<and> s_RequestID st = ai_RequestID (inv_Input invoc) \<and> s_Input st = inv_Input invoc)
    \<and> (ar_Err r = None \<longrightarrow> s_Error (last ss) = [] \<and> s_Output (last ss) = ar_Output r)"
  using assms
proof (induction rule: node_run.induct)
  case (run_retry out err k w w' ss r d)
  then have IH: "ss \<noteq> []" "map s_Attempt ss = [k + 1..k + 1 + int (length ss) - 1]" by auto
  have "[k..k + int (length ss)] = k # [k + 1..k + int (length ss)]"
    by (rule upto_rec1) (use IH in \<open>simp\<close>)
  with IH have "map s_Attempt (node_step invoc out (err_text err) d k # ss)
      = [k..k + int (length (node_step invoc out (err_text err) d k # ss)) - 1]"
    by (simp add: algebra_simps)
  with run_retry show ?case by simp
qed (auto simp: error_string_def)

lemma node_ok_log:
  assumes "node_ok env e g results n ss r"
  shows "ss \<noteq> []" and "\<forall>st \<in> set ss. s_InvocationID st = node_id n"
    and "\<forall>st \<in> set ss. s_RequestID st = ai_RequestID (inv_Input (pn_Invocation n))"
    and "sorted_wrt (<) (map s_Attempt ss)"
proof -
  have run: "ss \<noteq> [] \<and> (\<forall>st \<in> set ss. s_InvocationID st = node_id n \<and> s_RequestID st = ai_RequestID (inv_Input (pn_Invocation n)))
      \<and> sorted_wrt (<) (map s_Attempt ss)"
    if "node_run env cfg fn (node_policy cfg n) cb (pn_Invocation n) 1 ss r" for cfg fn cb
    using node_run_log [OF that node_policy_positive] by simp
  with assms show "ss \<noteq> []" and "\<forall>st \<in> set ss. s_InvocationID st = node_id n"
    and "\<forall>st \<in> set ss. s_RequestID st = ai_RequestID (inv_Input (pn_Invocation n))"
    and "sorted_wrt (<) (map s_Attempt ss)"
    by (auto simp: node_ok_def Let_def split: option.splits)
qed

lemma grouped_mset:
  assumes "distinct is" and "\<forall>x \<in> set xs. f x \<in> set is"
  shows "mset (concat (map (\<lambda>i. filter (\<lambda>x. f x = i) xs) is)) = mset xs"
  using assms
proof (induction "is" arbitrary: xs)
  case (Cons i "is")
  have "filter (\<lambda>x. f x = j) (filter (\<lambda>x. f x \<noteq> i) xs) = filter (\<lambda>x. f x = j) xs" if "j \<in> set is" for j
  proof -
    have "j \<noteq> i" using that Cons.prems(1) by auto
    then show ?thesis unfolding filter_filter by (intro filter_cong) auto
  qed
  then have eq: "map (\<lambda>j. filter (\<lambda>x. f x = j) (filter (\<lambda>x. f x \<noteq> i) xs)) is = map (\<lambda>j. filter (\<lambda>x. f x = j) xs) is"
    by (intro map_cong) auto
  have "mset (concat (map (\<lambda>j. filter (\<lambda>x. f x = j) xs) is)) = mset (filter (\<lambda>x. f x \<noteq> i) xs)"
    unfolding eq [symmetric] by (rule Cons.IH) (use Cons.prems in auto)
  then show ?case by (simp flip: mset_filter) (simp add: multiset_partition [symmetric])
qed simp

lemma grouped_sorted:
  assumes "sorted is" and "distinct is" and "\<forall>i \<in> set is. \<forall>st \<in> set (f i). s_InvocationID st = i"
    and "\<forall>i \<in> set is. sorted_wrt (\<lambda>a b. step_key a < step_key b) (f i)"
  shows "sorted_wrt (\<lambda>a b. step_key a < step_key b) (concat (map f is))"
  using assms
proof (induction "is")
  case (Cons i "is")
  have "step_key a < step_key b" if "a \<in> set (f i)" "j \<in> set is" "b \<in> set (f j)" for a b j
  proof -
    have "i < j" using Cons.prems(1,2) that(2) by (auto simp: less_le)
    with that Cons.prems(3) show ?thesis by (simp add: step_key_def less_prod_def)
  qed
  with Cons show ?case by (auto simp: sorted_wrt_append)
qed simp

section \<open>A plan\<close>

lemma plan_node_lookup:
  assumes "buildGraph plan = Inr g" and "n \<in> set (ep_Nodes plan)"
  shows "g_node g (node_id n) = n"
proof -
  have d: "distinct (map node_id (ep_Nodes plan))"
    using buildGraph_illformed [OF assms(1)] by (simp add: plan_wellformed_def plan_ids_def)
  have "map_of (map (\<lambda>n. (node_id n, n)) (ep_Nodes plan)) (node_id n) = Some n"
    by (rule map_of_is_SomeI) (use d assms(2) in \<open>auto simp: o_def\<close>)
  then show ?thesis
    using buildGraph_levels(6) [OF assms(1)] by (simp add: plan_nodesByID_def map_get_def)
qed

lemma plan_graph_nodes:
  assumes "buildGraph plan = Inr g" and "i \<in> set (concat (pg_levels g))"
  shows "node_id (g_node g i) = i" and "g_node g i \<in> set (ep_Nodes plan)"
    and "d \<in> set (pn_DependsOn (g_node g i)) \<Longrightarrow> (d, i) \<in> set (plan_edges plan)"
proof -
  have "i \<in> set (plan_ids plan)" using buildGraph_levels(1) [OF assms(1)] assms(2) by (metis mset_eq_setD)
  then obtain n where "n \<in> set (ep_Nodes plan)" "i = node_id n" by (auto simp: plan_ids_def)
  with plan_node_lookup [OF assms(1)] show "node_id (g_node g i) = i" "g_node g i \<in> set (ep_Nodes plan)"
    "d \<in> set (pn_DependsOn (g_node g i)) \<Longrightarrow> (d, i) \<in> set (plan_edges plan)"
    by (auto simp: plan_edges_def)
qed

lemma RunPlan_levels:
  fixes s :: "('w, 'm) shared"
  assumes run: "RunPlan env e plan scheds s = Some (results, tr, s')" and g: "buildGraph plan = Inr g"
  shows "\<exists>resm (s1 :: ('w, 'm) shared). dom resm = set (plan_ids plan)
    \<and> results = sort_slice result_id (map (\<lambda>n. the (resm (node_id n))) (ep_Nodes plan))
    \<and> t_Steps tr = sort_slice step_key (t_Steps (sh_recorder s1)) \<and> t_TaskID tr = ep_TaskID plan
    \<and> (\<forall>i. i \<notin> set (plan_ids plan) \<longrightarrow> own_steps i s1 = [])
    \<and> (\<forall>n \<in> set (ep_Nodes plan). \<exists>ss. own_steps (node_id n) s1 = map clone_step ss
          \<and> node_ok env e g resm n ss (the (resm (node_id n))))"
proof -
  obtain start w where now: "e_now env (sh_world s) = (start, w)" by fastforce
  define s0 where "s0 = s\<lparr>sh_world := w, sh_recorder := NewRecorder (ep_TaskID plan) start\<rparr>"
  from run obtain resm s1 where lv: "run_levels env e g (pg_levels g) scheds Map.empty s0 = Some (resm, s1)"
    and res: "results = sort_slice result_id (map (\<lambda>n. map_get empty_result resm (node_id n)) (ep_Nodes plan))"
    and fin: "(tr, s') = finish_run env s1"
    by (auto simp: RunPlan_def now g s0_def Let_def buildGraph_levels(5) [OF g] split: option.splits)
  note ok = buildGraph_illformed [OF g]
  note levels = buildGraph_levels [OF g]
  have ids: "set (concat (pg_levels g)) = set (plan_ids plan)" using levels(1) by (metis mset_eq_setD)
  have dist: "distinct (concat (pg_levels g))"
    using levels(1) ok by (metis mset_eq_imp_distinct_iff plan_wellformed_def)
  have nodes: "\<forall>i \<in> set (concat (pg_levels g)). node_id (g_node g i) = i
      \<and> (\<forall>d \<in> set (pn_DependsOn (g_node g i)). (d, i) \<in> set (plan_edges plan))"
    using plan_graph_nodes [OF g] by blast
  have fresh: "own_steps i s0 = []" and trace: "same_trace (ep_TaskID plan) start s0" for i
    by (simp_all add: s0_def own_steps_def same_trace_def NewRecorder_def)
  have all: "dom resm = {} \<union> set (concat (pg_levels g)) \<and> (\<forall>i \<in> {}. resm i = Map.empty i)
    \<and> same_trace (ep_TaskID plan) start s1 \<and> (\<forall>i. i \<notin> set (concat (pg_levels g)) \<longrightarrow> own_steps i s1 = own_steps i s0)
    \<and> (\<forall>i \<in> set (concat (pg_levels g)). level_post env e g resm i (own_steps i s1) (the (resm i)))"
    by (rule run_levels_results [OF lv levels(2) dist _ levels(4) _ nodes _ trace])
      (simp_all add: fresh)
  then have dom: "dom resm = set (plan_ids plan)" by (simp add: ids [symmetric])
  have "results = sort_slice result_id (map (\<lambda>n. the (resm (node_id n))) (ep_Nodes plan))"
  proof -
    have "map_get empty_result resm (node_id n) = the (resm (node_id n))" if "n \<in> set (ep_Nodes plan)" for n
      using dom that by (auto simp: plan_ids_def map_get_def split: option.splits)
    then show ?thesis unfolding res by (intro arg_cong2 [where f = sort_slice] refl map_cong) auto
  qed
  moreover have "t_Steps tr = sort_slice step_key (t_Steps (sh_recorder s1))" "t_TaskID tr = ep_TaskID plan"
    using fin all by (auto simp: finish_run_def Finalize_def same_trace_def split: prod.splits)
  moreover have "\<forall>i. i \<notin> set (plan_ids plan) \<longrightarrow> own_steps i s1 = []"
    using all [THEN conjunct2, THEN conjunct2, THEN conjunct2, THEN conjunct1] unfolding ids fresh .
  moreover have "\<forall>n \<in> set (ep_Nodes plan). level_post env e g resm (node_id n) (own_steps (node_id n) s1) (the (resm (node_id n)))"
    using all [THEN conjunct2, THEN conjunct2, THEN conjunct2, THEN conjunct2] unfolding ids
    by (simp add: plan_ids_def)
  then have "\<forall>n \<in> set (ep_Nodes plan). \<exists>ss. own_steps (node_id n) s1 = map clone_step ss
      \<and> node_ok env e g resm n ss (the (resm (node_id n)))"
    using plan_node_lookup [OF g] by simp
  ultimately show ?thesis using dom by (intro exI conjI)
qed

text \<open>
  The results and the trace of a run, by node: \<open>resm\<close> is the map of the results, \<open>log\<close> the steps each
  node recorded. The final lists are these, node after node in the order of the ids; the schedules
  do not appear.
\<close>

definition plan_run ::
  "'w env \<Rightarrow> ('w, 'm) Engine \<Rightarrow> ExecutionPlan \<Rightarrow> planGraph \<Rightarrow> (string \<rightharpoonup> AgentResult) \<Rightarrow> (string \<Rightarrow> Step list) \<Rightarrow> bool" where
  "plan_run env e plan g resm log \<longleftrightarrow> dom resm = set (plan_ids plan)
     \<and> (\<forall>n \<in> set (ep_Nodes plan). node_ok env e g resm n (log (node_id n)) (the (resm (node_id n))))"

lemma step_keys_increase:
  assumes "node_ok env e g results n ss r"
  shows "sorted_wrt (\<lambda>a b. step_key a < step_key b) (map clone_step ss)"
proof -
  note log = node_ok_log [OF assms]
  from log(4) have "sorted_wrt (\<lambda>a b. s_Attempt a < s_Attempt b) ss" by (simp add: sorted_wrt_map)
  then have "sorted_wrt (\<lambda>a b. step_key a < step_key b) ss"
    by (rule sorted_wrt_mono_rel [rotated]) (use log in \<open>simp add: step_key_def less_prod_def\<close>)
  then show ?thesis by (simp add: sorted_wrt_map)
qed

lemma RunPlan_spec:
  fixes s :: "('w, 'm) shared"
  assumes run: "RunPlan env e plan scheds s = Some (results, tr, s')" and g: "buildGraph plan = Inr g"
  shows "\<exists>resm log. plan_run env e plan g resm log
    \<and> results = map (\<lambda>i. the (resm i)) (sort_strings (plan_ids plan))
    \<and> t_Steps tr = concat (map (\<lambda>i. map clone_step (log i)) (sort_strings (plan_ids plan)))
    \<and> t_TaskID tr = ep_TaskID plan"
proof -
  let ?ids = "sort_strings (plan_ids plan)"
  from RunPlan_levels [OF run g] obtain resm and s1 :: "('w, 'm) shared" where dom: "dom resm = set (plan_ids plan)"
    and res: "results = sort_slice result_id (map (\<lambda>n. the (resm (node_id n))) (ep_Nodes plan))"
    and tr: "t_Steps tr = sort_slice step_key (t_Steps (sh_recorder s1))" "t_TaskID tr = ep_TaskID plan"
    and out: "\<forall>i. i \<notin> set (plan_ids plan) \<longrightarrow> own_steps i s1 = []"
    and nodes: "\<forall>n \<in> set (ep_Nodes plan). \<exists>ss. own_steps (node_id n) s1 = map clone_step ss
          \<and> node_ok env e g resm n ss (the (resm (node_id n)))"
    by blast
  have dist: "distinct ?ids" using buildGraph_illformed [OF g] by (simp add: plan_wellformed_def)
  define log where "log i = (SOME ss. own_steps i s1 = map clone_step ss \<and> node_ok env e g resm (g_node g i) ss (the (resm i)))" for i
  have log: "own_steps i s1 = map clone_step (log i) \<and> node_ok env e g resm (g_node g i) (log i) (the (resm i))"
    if i: "i \<in> set (plan_ids plan)" for i
  proof -
    from i obtain n where n: "n \<in> set (ep_Nodes plan)" "i = node_id n" by (auto simp: plan_ids_def)
    with nodes plan_node_lookup [OF g n(1)]
    have "\<exists>ss. own_steps i s1 = map clone_step ss \<and> node_ok env e g resm (g_node g i) ss (the (resm i))" by simp
    then show ?thesis unfolding log_def by (rule someI_ex)
  qed
  have rid: "result_id (the (resm (node_id n))) = node_id n" if "n \<in> set (ep_Nodes plan)" for n
    using nodes that by (fastforce simp: result_id_def dest: node_ok_invocation)
  have results: "results = map (\<lambda>i. the (resm i)) ?ids"
    unfolding res
  proof (rule slices.sorter_unique)
    show "mset (map (\<lambda>i. the (resm i)) ?ids) = mset (map (\<lambda>n. the (resm (node_id n))) (ep_Nodes plan))"
      by (simp add: plan_ids_def image_mset.compositionality o_def)
    have "map result_id (map (\<lambda>i. the (resm i)) ?ids) = map (\<lambda>i. i) ?ids"
      unfolding map_map by (rule map_cong) (use rid in \<open>auto simp: plan_ids_def\<close>)
    then show "sorted (map result_id (map (\<lambda>i. the (resm i)) ?ids))" by simp
    have "map result_id (map (\<lambda>n. the (resm (node_id n))) (ep_Nodes plan)) = plan_ids plan"
      using rid by (simp add: plan_ids_def)
    then show "distinct (map result_id (map (\<lambda>n. the (resm (node_id n))) (ep_Nodes plan)))" using dist by simp
  qed
  have group: "concat (map (\<lambda>i. own_steps i s1) ?ids) = concat (map (\<lambda>i. map clone_step (log i)) ?ids)"
    using log by (intro arg_cong [where f = concat] map_cong) auto
  have inc: "sorted_wrt (\<lambda>a b. step_key a < step_key b) (concat (map (\<lambda>i. own_steps i s1) ?ids))"
  proof (rule grouped_sorted)
    show "\<forall>i \<in> set ?ids. \<forall>st \<in> set (own_steps i s1). s_InvocationID st = i" by (simp add: own_steps_def)
    show "\<forall>i \<in> set ?ids. sorted_wrt (\<lambda>a b. step_key a < step_key b) (own_steps i s1)"
      using log by (auto dest: step_keys_increase)
  qed (use dist in simp_all)
  have "t_Steps tr = concat (map (\<lambda>i. own_steps i s1) ?ids)"
    unfolding tr
  proof (rule slices.sorter_unique)
    show m: "mset (concat (map (\<lambda>i. own_steps i s1) ?ids)) = mset (t_Steps (sh_recorder s1))"
      unfolding own_steps_def
      by (rule grouped_mset) (use dist out in \<open>auto simp: own_steps_def filter_empty_conv\<close>)
    have "sorted_wrt (<) (map step_key (concat (map (\<lambda>i. own_steps i s1) ?ids)))" using inc by (simp only: sorted_wrt_map)
    then show "sorted (map step_key (concat (map (\<lambda>i. own_steps i s1) ?ids)))"
      and "distinct (map step_key (t_Steps (sh_recorder s1)))"
      using m by (auto simp only: strict_sorted_iff) (metis mset_eq_imp_distinct_iff mset_map)
  qed
  moreover have "plan_run env e plan g resm log"
    unfolding plan_run_def
  proof (intro conjI ballI dom)
    fix n
    assume n: "n \<in> set (ep_Nodes plan)"
    then have "node_id n \<in> set (plan_ids plan)" by (simp add: plan_ids_def)
    from log [OF this] show "node_ok env e g resm n (log (node_id n)) (the (resm (node_id n)))"
      unfolding plan_node_lookup [OF g n] by simp
  qed
  ultimately show ?thesis using results group tr(2) by auto
qed

end
