(* ===== verification/EngineProps.thy ===== *)
theory EngineProps
  imports EngineSpec
begin

text \<open>
  The properties of the engine: what \<open>RunPlan\<close> returns under every schedule, dependency gating, the
  bounds on attempts and on concurrency, absence of deadlock, and determinism for deterministic
  agents.
\<close>

section \<open>Reading results and traces\<close>

definition result_of :: "AgentResult list \<Rightarrow> string \<Rightarrow> AgentResult option" where
  "result_of results i = find (\<lambda>r. result_id r = i) results"

definition steps_of :: "ExecutionTrace \<Rightarrow> string \<Rightarrow> Step list" where
  "steps_of tr i = filter (\<lambda>st. s_InvocationID st = i) (t_Steps tr)"

lemma find_map_key:
  assumes "\<forall>i \<in> set is. key (f i) = i" and "i \<in> set is"
  shows "find (\<lambda>r. key r = i) (map f is) = Some (f i)"
  using assms by (induction "is") auto

lemma filter_concat_key:
  assumes "distinct is" and "\<forall>i \<in> set is. \<forall>x \<in> set (f i). key x = i" and "i \<in> set is"
  shows "filter (\<lambda>x. key x = i) (concat (map f is)) = f i"
proof -
  have other: "filter (\<lambda>x. key x = i) (concat (map f js)) = []"
    if "i \<notin> set js" "\<forall>j \<in> set js. \<forall>x \<in> set (f j). key x = j" for js
    using that by (auto simp: filter_empty_conv)
  show ?thesis
    using assms
  proof (induction "is")
    case (Cons j js)
    show ?case
    proof (cases "i = j")
      case True
      with Cons.prems have "filter (\<lambda>x. key x = i) (f j) = f j" by (simp add: filter_id_conv)
      with True Cons.prems other [of js] show ?thesis by simp
    next
      case False
      with Cons.prems have "filter (\<lambda>x. key x = i) (f j) = []" by (auto simp: filter_empty_conv)
      with False Cons show ?thesis by simp
    qed
  qed simp
qed

text \<open>The result and the steps of each node, read off the specification of the run.\<close>

lemma RunPlan_nodes:
  assumes run: "RunPlan env e plan scheds s = Some (results, tr, s')" and g: "buildGraph plan = Inr g"
  obtains resm log where "plan_run env e plan g resm log"
    and "map result_id results = sort_strings (plan_ids plan)"
    and "\<And>n. n \<in> set (ep_Nodes plan) \<Longrightarrow> result_of results (node_id n) = resm (node_id n)"
    and "\<And>n. n \<in> set (ep_Nodes plan) \<Longrightarrow> steps_of tr (node_id n) = map clone_step (log (node_id n))"
proof -
  let ?ids = "sort_strings (plan_ids plan)"
  from RunPlan_spec [OF run g] obtain resm log where pr: "plan_run env e plan g resm log"
    and res: "results = map (\<lambda>i. the (resm i)) ?ids"
    and tr: "t_Steps tr = concat (map (\<lambda>i. map clone_step (log i)) ?ids)"
    by blast
  have ok: "node_ok env e g resm (g_node g i) (log i) (the (resm i)) \<and> node_id (g_node g i) = i"
    if "i \<in> set (plan_ids plan)" for i
    using pr that plan_node_lookup [OF g] by (fastforce simp: plan_run_def plan_ids_def)
  have rid: "\<forall>i \<in> set ?ids. result_id (the (resm i)) = i"
  proof
    fix i
    assume "i \<in> set ?ids"
    then have "node_ok env e g resm (g_node g i) (log i) (the (resm i))" and "node_id (g_node g i) = i"
      using ok by simp_all
    with node_ok_invocation [OF this(1)] show "result_id (the (resm i)) = i" by (simp add: result_id_def)
  qed
  have dist: "distinct ?ids" using buildGraph_illformed [OF g] by (simp add: plan_wellformed_def)
  show thesis
  proof (rule that [OF pr])
    show "map result_id results = ?ids" unfolding res map_map by (rule map_idI) (use rid in simp)
    fix n
    assume "n \<in> set (ep_Nodes plan)"
    then have n: "node_id n \<in> set ?ids" by (simp add: plan_ids_def)
    have "resm (node_id n) \<noteq> None" using pr n by (auto simp: plan_run_def)
    with find_map_key [of ?ids result_id "\<lambda>i. the (resm i)", OF rid n]
    show "result_of results (node_id n) = resm (node_id n)" by (simp add: result_of_def res)
    have "\<forall>i \<in> set ?ids. \<forall>st \<in> set (map clone_step (log i)). s_InvocationID st = i"
      using ok node_ok_log(2) by fastforce
    from filter_concat_key [OF dist this n]
    show "steps_of tr (node_id n) = map clone_step (log (node_id n))" by (simp add: steps_of_def tr)
  qed
qed

text \<open>\<open>dependencyError\<close> in a run: every dependency has a result, so only a failed one stops the node.\<close>

lemma dependencyError_run:
  assumes "plan_run env e plan g resm log" and g: "buildGraph plan = Inr g" and n: "n \<in> set (ep_Nodes plan)"
  shows "dependencyError n g resm =
    (case find (\<lambda>d. ar_Err (the (resm d)) \<noteq> None) (pn_DependsOn n) of
       None \<Rightarrow> None
     | Some d \<Rightarrow> Some (Errorf (''dependency failed: '' @ d @ '': '' @ err_text (the (ar_Err (the (resm d)))))))"
proof -
  have "dependency_error_loop ds g resm =
    (case find (\<lambda>d. ar_Err (the (resm d)) \<noteq> None) ds of
       None \<Rightarrow> None
     | Some d \<Rightarrow> Some (Errorf (''dependency failed: '' @ d @ '': '' @ err_text (the (ar_Err (the (resm d)))))))"
    if "set ds \<subseteq> set (plan_ids plan)" for ds
    using that
  proof (induction ds)
    case (Cons d ds)
    then have "d \<in> dom resm" using assms(1) by (simp add: plan_run_def)
    then obtain r where r: "resm d = Some r" by blast
    have "pg_nodesByID g d \<noteq> None"
      using Cons.prems by (simp add: buildGraph_levels(6) [OF g] plan_nodesByID_None)
    with Cons r show ?case by (auto split: option.splits)
  qed simp
  moreover have "set (pn_DependsOn n) \<subseteq> set (plan_ids plan)"
    using buildGraph_illformed [OF g] n by (fastforce simp: plan_wellformed_def plan_edges_def)
  ultimately show ?thesis by (simp add: dependencyError_def)
qed

section \<open>Properties of a run\<close>

text \<open>
  C1: Whatever the interleaving of the goroutines, a run of an accepted plan returns exactly one
  result per node, ordered by invocation id, each carrying its node's invocation, and its trace is
  the concatenation, in the same order, of the logs of the nodes; the log and the result of every
  node follow the specification \<open>node_ok\<close> (dependency error, unregistered agent, or a sequence of
  attempts), given the final results of its dependencies. The schedules leave no other mark.
\<close>

theorem runplan_refines_spec:
  assumes "RunPlan env e plan scheds s = Some (results, tr, s')" and "buildGraph plan = Inr g"
  shows "\<exists>resm log. plan_run env e plan g resm log
    \<and> map result_id results = sort_strings (plan_ids plan)
    \<and> results = map (\<lambda>i. the (resm i)) (sort_strings (plan_ids plan))
    \<and> t_Steps tr = concat (map (\<lambda>i. map clone_step (log i)) (sort_strings (plan_ids plan)))
    \<and> t_TaskID tr = ep_TaskID plan"
proof -
  have "map result_id results = sort_strings (plan_ids plan)" by (rule RunPlan_nodes [OF assms])
  with RunPlan_spec [OF assms] show ?thesis by blast
qed


lemma RunPlan_node_run:
  assumes run: "RunPlan env e plan scheds s = Some (results, tr, s')" and g: "buildGraph plan = Inr g"
    and n: "n \<in> set (ep_Nodes plan)"
    and deps: "\<forall>d \<in> set (pn_DependsOn n). map_option ar_Err (result_of results d) = Some None"
    and agent: "registry_get (inv_AgentID (pn_Invocation n)) (eng_registry e) = Some fn"
    and r: "result_of results (node_id n) = Some r"
  shows "\<exists>ss. steps_of tr (node_id n) = map clone_step ss
    \<and> node_run env (eng_cfg e) fn (node_policy (eng_cfg e) n) (node_cb_policy (eng_cfg e) n) (pn_Invocation n) 1 ss r"
proof -
  obtain resm log where pr: "plan_run env e plan g resm log"
    and ids: "map result_id results = sort_strings (plan_ids plan)"
    and res: "\<And>n. n \<in> set (ep_Nodes plan) \<Longrightarrow> result_of results (node_id n) = resm (node_id n)"
    and steps: "\<And>n. n \<in> set (ep_Nodes plan) \<Longrightarrow> steps_of tr (node_id n) = map clone_step (log (node_id n))"
    by (rule RunPlan_nodes [OF run g]) (rule that)
  have "ar_Err (the (resm d)) = None" if d: "d \<in> set (pn_DependsOn n)" for d
  proof -
    have "d \<in> set (plan_ids plan)"
      using buildGraph_illformed [OF g] n d by (fastforce simp: plan_wellformed_def plan_edges_def)
    then have "result_of results d = resm d" using res by (auto simp: plan_ids_def)
    with deps [THEN bspec, OF d] show ?thesis by auto
  qed
  then have "find (\<lambda>d. ar_Err (the (resm d)) \<noteq> None) (pn_DependsOn n) = None" by (simp add: find_None_iff)
  then have de: "dependencyError n g resm = None" unfolding dependencyError_run [OF pr g n] by simp
  have "node_ok env e g resm n (log (node_id n)) r" using pr n r res [OF n] by (auto simp: plan_run_def)
  then have "node_run env (eng_cfg e) fn (node_policy (eng_cfg e) n) (node_cb_policy (eng_cfg e) n)
      (pn_Invocation n) 1 (log (node_id n)) r"
    by (simp add: node_ok_def de agent Let_def)
  with steps [OF n] show ?thesis by blast
qed

text \<open>
  C6: Attempts. When the dependencies of a node with a registered agent succeeded, its trace holds
  attempts 1, 2, ..., k in order without gaps, at least one and at most \<open>MaxAttempts\<close> of its
  effective policy, all with the node's own agent, request and input; and if its result is a
  success, the last step recorded no error and the output that is returned.
\<close>

theorem attempts_consecutive_bounded:
  assumes "RunPlan env e plan scheds s = Some (results, tr, s')" and "buildGraph plan = Inr g"
    and "n \<in> set (ep_Nodes plan)"
    and "\<forall>d \<in> set (pn_DependsOn n). map_option ar_Err (result_of results d) = Some None"
    and "registry_get (inv_AgentID (pn_Invocation n)) (eng_registry e) = Some fn"
    and "result_of results (node_id n) = Some r"
  shows "\<exists>k. 1 \<le> k \<and> k \<le> rp_MaxAttempts (node_policy (eng_cfg e) n)
    \<and> map s_Attempt (steps_of tr (node_id n)) = [1..k]
    \<and> (\<forall>st \<in> set (steps_of tr (node_id n)). s_AgentID st = inv_AgentID (pn_Invocation n)
         \<and> s_Input st = cloneInput (inv_Input (pn_Invocation n)))
    \<and> (ar_Err r = None \<longrightarrow> s_Error (last (steps_of tr (node_id n))) = []
         \<and> s_Output (last (steps_of tr (node_id n))) = cloneOutput (ar_Output r))"
proof -
  from RunPlan_node_run [OF assms] obtain ss where ss: "steps_of tr (node_id n) = map clone_step ss"
    and run: "node_run env (eng_cfg e) fn (node_policy (eng_cfg e) n) (node_cb_policy (eng_cfg e) n)
      (pn_Invocation n) 1 ss r" by blast
  from node_run_log [OF run node_policy_positive] show ?thesis
    unfolding ss by (intro exI [of _ "int (length ss)"]) (auto simp: o_def last_map Suc_le_eq)
qed


text \<open>
  A timeout loses the mark of a non-retryable error. Where the chain of an error marked with
  \<open>NonRetryable\<close> contains \<open>context.DeadlineExceeded\<close>, \<open>normalizeInvocationError\<close> replaces the whole
  error by a new one of which only the text survives, so the call is retried under a policy without
  an allow-list, or with one that has \<open>ErrAgentTimeout\<close>. Other errors so marked are never retried.
\<close>

theorem timeout_drops_nonretryable:
  "shouldRetry (normalizeInvocationError (NonRetryable (Some err))) policy \<longleftrightarrow>
     errors_is err (Sentinel CtxDeadlineExceeded)
     \<and> (rp_RetryableErrs policy = [] \<or> Sentinel ErrAgentTimeout \<in> set (rp_RetryableErrs policy))"
  by (auto simp: shouldRetry_def normalizeInvocationError_def NonRetryable_def same_error_Sentinel_iff list_ex_iff)

text \<open>
  C15: A plan that \<open>buildGraph\<close> rejects runs no agent: the breaker, the metrics and every agent's
  world are untouched but for the two clock readings, the only result carries the validation error,
  and the trace is the single step "plan_validation" of the router with the error's text.
\<close>

theorem invalid_plan_runs_nothing:
  assumes "buildGraph plan = Inl err"
  shows "\<exists>tr s'. RunPlan env e plan scheds s = Some ([empty_result\<lparr>ar_Err := Some err\<rparr>], tr, s')
    \<and> map (\<lambda>st. (s_InvocationID st, s_AgentID st, s_Error st, s_Attempt st)) (t_Steps tr)
        = [(''plan_validation'', ''router'', err_text err, 0)]
    \<and> sh_breaker s' = sh_breaker s \<and> sh_metrics s' = sh_metrics s
    \<and> sh_world s' = snd (e_now env (snd (e_now env (sh_world s))))"
  using assms
  by (simp add: RunPlan_def finish_run_def NewRecorder_def empty_step_def clone_step_def
      sort_slice_def Let_def split: prod.split)

section \<open>Concurrency\<close>

lemma engine_pool_size:
  "rc_WorkerPoolSize (eng_cfg (SetMetricsRecorder rec (fst (NewEngine registry cfg))))
     = (if rc_WorkerPoolSize cfg \<le> 0 then 1 else rc_WorkerPoolSize cfg)"
  by (cases rec) (simp_all add: SetMetricsRecorder_def NewEngine_def normalize_config_def Let_def)


lemma level_completable:
  assumes "0 < rc_WorkerPoolSize (eng_cfg e)"
  shows "\<exists>more rs s'. executeLevel env e level g results (sched @ more) s = Some (rs, s')"
proof -
  have "0 < nat (rc_WorkerPoolSize (eng_cfg e))" using assms by simp
  from pool_completable [OF this] obtain more where
    "pool_done (run_sched (nat (rc_WorkerPoolSize (eng_cfg e))) more (level_pool env e level g results sched s))"
    unfolding completable_def by blast
  then show ?thesis
    by (intro exI [of _ more]) (simp add: executeLevel_def level_pool_def run_sched_append Let_def)
qed

lemma run_levels_completable:
  assumes "0 < rc_WorkerPoolSize (eng_cfg e)"
  shows "\<exists>scheds r. run_levels env e g levels scheds results s = Some r"
proof (induction levels arbitrary: results s)
  case (Cons level levels)
  obtain sched rs s1 where "executeLevel env e level g results sched s = Some (rs, s1)"
    using level_completable [OF assms, of env level g results "[]" s] by auto
  moreover obtain scheds r where "run_levels env e g levels scheds (store_results rs results) s1 = Some r"
    using Cons.IH by blast
  ultimately show ?case by (intro exI [of _ "sched # scheds"]) simp
qed simp

lemma RunPlan_completable:
  assumes "0 < rc_WorkerPoolSize (eng_cfg e)"
  shows "\<exists>scheds results tr s'. RunPlan env e plan scheds s = Some (results, tr, s')"
proof -
  obtain start w where now: "e_now env (sh_world s) = (start, w)" by fastforce
  have "\<exists>scheds. RunPlan env e plan scheds s \<noteq> None"
  proof (cases "buildGraph plan")
    case (Inr gr)
    with run_levels_completable [OF assms, of env gr "pg_levels gr" Map.empty
        "s\<lparr>sh_world := w, sh_recorder := NewRecorder (ep_TaskID plan) start\<rparr>"]
    show ?thesis by (auto simp: RunPlan_def now Let_def split: option.splits)
  qed (simp add: RunPlan_def now Let_def)
  then show ?thesis by (metis not_None_eq prod_cases3)
qed

text \<open>
  C12: No deadlock. However far a level of a run has been scheduled, the schedule can be continued
  until every goroutine has finished; and every plan has schedules under which \<open>RunPlan\<close> returns.
\<close>

theorem runplan_never_stuck:
  "(\<exists>more. executeLevel env (SetMetricsRecorder rec (fst (NewEngine registry cfg))) level g results (sched @ more) s \<noteq> None)
   \<and> (\<exists>scheds. RunPlan env (SetMetricsRecorder rec (fst (NewEngine registry cfg))) plan scheds s \<noteq> None)"
proof -
  have pos: "0 < rc_WorkerPoolSize (eng_cfg (SetMetricsRecorder rec (fst (NewEngine registry cfg))))"
    by (simp add: engine_pool_size)
  from level_completable [OF pos] RunPlan_completable [OF pos] show ?thesis
    by (metis option.distinct(1))
qed

section \<open>Sequential runs\<close>

text \<open>The run in which every node is executed to its end before the next one starts.\<close>

fun seq_levels ::
  "'w env \<Rightarrow> ('w, 'm) Engine \<Rightarrow> planGraph \<Rightarrow> string list list \<Rightarrow> (string \<rightharpoonup> AgentResult) \<Rightarrow> ('w, 'm) shared
   \<Rightarrow> (string \<rightharpoonup> AgentResult) \<times> ('w, 'm) shared" where
  "seq_levels env e g [] results s = (results, s)"
| "seq_levels env e g (level # levels) results s =
     (case run_sequential (map (node_launch env e g results) level) s of
        (rs, s') \<Rightarrow> seq_levels env e g levels (store_results (sort_slice result_id rs) results) s')"

lemma seq_levels_is_run:
  assumes "0 < rc_WorkerPoolSize (eng_cfg e)"
  shows "\<exists>scheds. run_levels env e g levels scheds results s = Some (seq_levels env e g levels results s)"
proof (induction levels arbitrary: results s)
  case (Cons level levels)
  let ?ls = "map (node_launch env e g results) level"
  have "0 < nat (rc_WorkerPoolSize (eng_cfg e))" using assms by simp
  from run_sequential_schedule [OF this, of ?ls s] obtain sched where
    "pool_done (run_sched (nat (rc_WorkerPoolSize (eng_cfg e))) sched (start_pool ?ls s))"
    "p_channel (run_sched (nat (rc_WorkerPoolSize (eng_cfg e))) sched (start_pool ?ls s)) = fst (run_sequential ?ls s)"
    "p_shared (run_sched (nat (rc_WorkerPoolSize (eng_cfg e))) sched (start_pool ?ls s)) = snd (run_sequential ?ls s)"
    by blast
  then have "executeLevel env e level g results sched s
       = Some (sort_slice result_id (fst (run_sequential ?ls s)), snd (run_sequential ?ls s))"
    by (simp add: executeLevel_def level_pool_def)
  moreover obtain scheds where
    "run_levels env e g levels scheds (store_results (sort_slice result_id (fst (run_sequential ?ls s))) results)
       (snd (run_sequential ?ls s))
     = Some (seq_levels env e g levels (store_results (sort_slice result_id (fst (run_sequential ?ls s))) results)
         (snd (run_sequential ?ls s)))"
    using Cons.IH by blast
  ultimately show ?case by (intro exI [of _ "sched # scheds"]) (simp split: prod.splits)
qed simp

lemma seq_run:
  assumes "buildGraph plan = Inr g" and "0 < rc_WorkerPoolSize (eng_cfg e)"
  shows "\<exists>scheds. RunPlan env e plan scheds s =
    (case e_now env (sh_world s) of (start, w) \<Rightarrow>
     case seq_levels env e g (pg_levels g) Map.empty
            (s\<lparr>sh_world := w, sh_recorder := NewRecorder (ep_TaskID plan) start\<rparr>) of
       (resultsByID, s) \<Rightarrow>
         Some (sort_slice result_id (map (\<lambda>n. map_get empty_result resultsByID (node_id n)) (pg_nodes g)),
           finish_run env s))"
proof -
  obtain start w where now: "e_now env (sh_world s) = (start, w)" by fastforce
  from seq_levels_is_run [OF assms(2), of env g "pg_levels g" Map.empty
      "s\<lparr>sh_world := w, sh_recorder := NewRecorder (ep_TaskID plan) start\<rparr>"]
  show ?thesis by (force simp: RunPlan_def now assms(1) Let_def split: prod.splits option.splits)
qed

section \<open>Determinism\<close>

text \<open>What is left of a step and of a result when the measured durations are forgotten.\<close>

definition erase_output :: "AgentOutput \<Rightarrow> AgentOutput" where
  "erase_output out = out\<lparr>ao_Duration := 0\<rparr>"

definition erase_step :: "Step \<Rightarrow> Step" where
  "erase_step st = st\<lparr>s_Duration := 0, s_Output := erase_output (s_Output st)\<rparr>"

definition erase_result :: "AgentResult \<Rightarrow> AgentResult" where
  "erase_result r = r\<lparr>ar_Output := erase_output (ar_Output r)\<rparr>"

lemmas erase_defs = erase_output_def erase_step_def erase_result_def

definition deterministic_agents :: "('w, 'm) Engine \<Rightarrow> bool" where
  "deterministic_agents e \<longleftrightarrow> (\<forall>a fn t t' i w w'.
     registry_get a (eng_registry e) = Some fn \<longrightarrow> fst (fn t i w) = fst (fn t' i w'))"

lemma erase_node_step:
  "erase_step (node_step invoc out err d k) = erase_step (node_step invoc out err d' k)"
  "erase_step (node_step invoc (with_duration out d) err d k) = erase_step (node_step invoc (with_duration out d') err d' k)"
  "erase_result (ok_result invoc (with_duration out d)) = erase_result (ok_result invoc (with_duration out d'))"
  by (simp_all add: erase_defs node_step_def with_duration_def ok_result_def)

lemma erase_clone: "erase_step a = erase_step b \<Longrightarrow> erase_step (clone_step a) = erase_step (clone_step b)"
  by (cases a; cases b; cases "s_Output a"; cases "s_Output b")
    (auto simp: erase_defs clone_step_def cloneOutput_def)

lemma called_unique:
  assumes "\<And>t t' i w w'. fst (fn t i w) = fst (fn t' i w')"
    and "called cfg fn cb invoc out err" and "called cfg' fn cb invoc out' err'"
  shows "out' = out \<and> err' = err"
proof -
  have "fst (safeCall fn t i w) = (case fst (fn t i w) of Returned out err \<Rightarrow> (out, err)
      | Panicked r \<Rightarrow> (empty_output, NonRetryable (Some (WrapErr [] (Sentinel ErrAgentPanic) ('': '' @ r)))))" for t i w
    by (simp add: safeCall_def split: prod.split call_outcome.split)
  then have eq: "fst (safeCall fn t i w) = fst (safeCall fn t' i w')" for t t' i w w'
    using assms(1) [of t i w t' w'] by simp
  from assms(2) obtain t w raw w1 where 1: "safeCall fn t (inv_Input invoc) w = ((out, raw), w1)"
      "err = normalizeInvocationError raw" by (auto simp: called_def)
  from assms(3) obtain t' w' raw' w1' where 2: "safeCall fn t' (inv_Input invoc) w' = ((out', raw'), w1')"
      "err' = normalizeInvocationError raw'" by (auto simp: called_def)
  show ?thesis using eq [of t "inv_Input invoc" w t' w'] 1 2 by simp
qed

lemma node_run_deterministic:
  assumes fn: "\<And>t t' i w w'. fst (fn t i w) = fst (fn t' i w')"
    and cb: "cp_FailureThreshold cb \<le> 0" and wait: "\<And>d w. fst (e_wait env d w) = None"
    and "node_run env cfg fn policy cb invoc k ss r" and "node_run env cfg' fn policy cb invoc k ss' r'"
  shows "map erase_step ss' = map erase_step ss \<and> erase_result r' = erase_result r"
  using assms(4,5)
proof (induction arbitrary: ss' r' rule: node_run.induct)
  case (run_open k)
  then show ?case using cb by simp
next
  case (run_success out k d)
  note same = called_unique [OF fn run_success.hyps(1)]
  from run_success.prems show ?case
    by cases (use cb in \<open>auto dest!: same intro: erase_node_step\<close>)
next
  case (run_giveup out err k d)
  note same = called_unique [OF fn run_giveup.hyps(1)]
  from run_giveup.prems show ?case
    by cases (use cb run_giveup.hyps in \<open>auto dest!: same intro: erase_node_step\<close>)
next
  case (run_cancelled out err k w c w' d)
  then show ?case using wait by (metis fst_conv option.distinct(1))
next
  case (run_retry out err k w w' ss r d)
  note same = called_unique [OF fn run_retry.hyps(1)]
  from run_retry.prems show ?case
  proof cases
    case (run_cancelled out' err' w1 c w1' d')
    then show ?thesis using wait by (metis fst_conv option.distinct(1))
  qed (use cb run_retry.hyps run_retry.IH in \<open>auto dest!: same intro: erase_node_step\<close>)
qed

lemma dependencyError_errors:
  assumes "\<forall>d \<in> set (pn_DependsOn n). map_option ar_Err (results d) = map_option ar_Err (results' d)"
  shows "dependencyError n g results = dependencyError n g results'"
proof -
  have "dependency_error_loop ds g results = dependency_error_loop ds g results'"
    if "\<forall>d \<in> set ds. map_option ar_Err (results d) = map_option ar_Err (results' d)" for ds
    using that by (induction ds) (auto split: option.splits)
  with assms show ?thesis by (simp add: dependencyError_def)
qed

lemma plan_edges_wf:
  assumes g: "buildGraph plan = Inr g"
  shows "wf (set (plan_edges plan))"
proof -
  have "set (plan_edges plan) \<subseteq> UNIV \<times> set (concat (pg_levels g))"
    using buildGraph_levels(1) [OF g, THEN mset_eq_setD] by (auto simp: plan_edges_def plan_ids_def)
  then have "acyclic (set (plan_edges plan))" by (rule topo_levels_acyclic [OF buildGraph_levels(2) [OF g]])
  then show ?thesis by (simp add: finite_acyclic_wf)
qed

text \<open>The same engine with another size of the worker pool.\<close>

definition with_pool :: "go_int \<Rightarrow> ('w, 'm) Engine \<Rightarrow> ('w, 'm) Engine" where
  "with_pool W e = e\<lparr>eng_cfg := (eng_cfg e)\<lparr>rc_WorkerPoolSize := W\<rparr>\<rparr>"

lemma with_pool_fields [simp]:
  "eng_registry (with_pool W e) = eng_registry e"
  "node_policy (eng_cfg (with_pool W e)) n = node_policy (eng_cfg e) n"
  "node_cb_policy (eng_cfg (with_pool W e)) n = node_cb_policy (eng_cfg e) n"
proof -
  have eq: "rc_RetryPolicy (eng_cfg (with_pool W e)) = rc_RetryPolicy (eng_cfg e)"
    "rc_CircuitBreaker (eng_cfg (with_pool W e)) = rc_CircuitBreaker (eng_cfg e)"
    by (simp_all add: with_pool_def)
  show "eng_registry (with_pool W e) = eng_registry e" by (simp add: with_pool_def)
  show "node_policy (eng_cfg (with_pool W e)) n = node_policy (eng_cfg e) n" unfolding node_policy_def eq ..
  show "node_cb_policy (eng_cfg (with_pool W e)) n = node_cb_policy (eng_cfg e) n" unfolding node_cb_policy_def eq ..
qed

lemma node_ok_deterministic:
  assumes det: "deterministic_agents e" and wait: "\<And>d w. fst (e_wait env d w) = None"
    and cb: "cp_FailureThreshold (node_cb_policy (eng_cfg e) n) \<le> 0"
    and deps: "dependencyError n g results = dependencyError n g results'"
    and ok: "node_ok env e g results n ss r" and ok': "node_ok env (with_pool W e) g results' n ss' r'"
  shows "map erase_step ss' = map erase_step ss \<and> erase_result r' = erase_result r"
proof (cases "dependencyError n g results")
  case None
  show ?thesis
  proof (cases "registry_get (inv_AgentID (pn_Invocation n)) (eng_registry e)")
    case (Some fn)
    have fn: "fst (fn t i w) = fst (fn t' i w')" for t t' i w w'
      using det Some by (auto simp: deterministic_agents_def)
    have "node_run env (eng_cfg e) fn (node_policy (eng_cfg e) n) (node_cb_policy (eng_cfg e) n) (pn_Invocation n) 1 ss r"
      and "node_run env (eng_cfg (with_pool W e)) fn (node_policy (eng_cfg e) n) (node_cb_policy (eng_cfg e) n)
        (pn_Invocation n) 1 ss' r'"
      using ok ok' None deps Some by (simp_all add: node_ok_def)
    from node_run_deterministic [OF fn cb wait this] show ?thesis .
  qed (use ok ok' None deps in \<open>simp add: node_ok_def Let_def\<close>)
qed (use ok ok' deps in \<open>simp add: node_ok_def Let_def\<close>)

lemma plan_run_deterministic:
  assumes g: "buildGraph plan = Inr g" and det: "deterministic_agents e"
    and wait: "\<And>d w. fst (e_wait env d w) = None"
    and cb: "\<forall>n \<in> set (ep_Nodes plan). cp_FailureThreshold (node_cb_policy (eng_cfg e) n) \<le> 0"
    and pr: "plan_run env e plan g resm log" and pr': "plan_run env (with_pool W e) plan g resm' log'"
    and "i \<in> set (plan_ids plan)"
  shows "map erase_step (log' i) = map erase_step (log i) \<and> erase_result (the (resm' i)) = erase_result (the (resm i))"
  using assms(7)
proof (induction i rule: wf_induct_rule [OF plan_edges_wf [OF g]])
  case (1 i)
  then obtain n where n: "n \<in> set (ep_Nodes plan)" and i: "i = node_id n" by (auto simp: plan_ids_def)
  have "map_option ar_Err (resm d) = map_option ar_Err (resm' d)" if d: "d \<in> set (pn_DependsOn n)" for d
  proof -
    have "(d, i) \<in> set (plan_edges plan)" using d n i by (auto simp: plan_edges_def)
    moreover from this have dd: "d \<in> set (plan_ids plan)"
      using buildGraph_illformed [OF g] by (fastforce simp: plan_wellformed_def)
    ultimately have er: "erase_result (the (resm' d)) = erase_result (the (resm d))" using "1.IH" by blast
    have "ar_Err (erase_result r) = ar_Err r" for r by (simp add: erase_result_def)
    with er have "ar_Err (the (resm' d)) = ar_Err (the (resm d))" by metis
    moreover have "d \<in> dom resm" "d \<in> dom resm'" using pr pr' dd by (simp_all add: plan_run_def)
    ultimately show ?thesis by (auto simp: dom_def)
  qed
  then have "dependencyError n g resm = dependencyError n g resm'" by (simp add: dependencyError_errors)
  moreover have "node_ok env e g resm n (log i) (the (resm i))"
      "node_ok env (with_pool W e) g resm' n (log' i) (the (resm' i))"
    using pr pr' n i by (simp_all add: plan_run_def)
  ultimately show ?case using node_ok_deterministic [OF det wait] cb n by blast
qed

lemma RunPlan_deterministic:
  assumes det: "deterministic_agents e" and wait: "\<forall>d w. fst (e_wait env d w) = None"
    and cb: "\<forall>n \<in> set (ep_Nodes plan). cp_FailureThreshold (node_cb_policy (eng_cfg e) n) \<le> 0"
    and run: "RunPlan env e plan scheds s = Some (results, tr, s1)"
    and run': "RunPlan env (with_pool W e) plan scheds' s' = Some (results', tr', s1')"
  shows "map erase_result results' = map erase_result results
    \<and> map erase_step (t_Steps tr') = map erase_step (t_Steps tr)"
proof (cases "buildGraph plan")
  case (Inl err)
  with run run' show ?thesis
    by (auto simp: RunPlan_def finish_run_def NewRecorder_def Let_def sort_slice_def split: prod.splits)
next
  case (Inr g)
  let ?ids = "sort_strings (plan_ids plan)"
  obtain resm log where pr: "plan_run env e plan g resm log"
    and r: "results = map (\<lambda>i. the (resm i)) ?ids" "t_Steps tr = concat (map (\<lambda>i. map clone_step (log i)) ?ids)"
    using RunPlan_spec [OF run Inr] by blast
  obtain resm' log' where pr': "plan_run env (with_pool W e) plan g resm' log'"
    and r': "results' = map (\<lambda>i. the (resm' i)) ?ids" "t_Steps tr' = concat (map (\<lambda>i. map clone_step (log' i)) ?ids)"
    using RunPlan_spec [OF run' Inr] by blast
  have w: "fst (e_wait env d w) = None" for d w using wait by simp
  note same = plan_run_deterministic [OF Inr det w cb pr pr']
  have "map erase_result results' = map erase_result results" unfolding r r' using same by simp
  moreover have "map erase_step (map clone_step (log' i)) = map erase_step (map clone_step (log i))" if "i \<in> set ?ids" for i
  proof -
    have "list_all2 (\<lambda>a b. erase_step a = erase_step b) (log' i) (log i)"
      using same [of i] that by (simp add: list_all2_conv_all_nth map_equality_iff)
    then show ?thesis by (auto simp: list_all2_conv_all_nth map_equality_iff intro: erase_clone)
  qed
  then have "map erase_step (t_Steps tr') = map erase_step (t_Steps tr)"
    unfolding r r' map_concat map_map by (intro arg_cong [where f = concat] map_cong) auto
  ultimately show ?thesis ..
qed

text \<open>
  C5: Determinism. If every agent's outcome depends on its input only, no circuit breaker is enabled
  for the plan's nodes and the caller's context is never done, then two runs of a plan agree on
  results and trace up to the measured durations: over any two interleavings, from any two
  states of the world, and for any two sizes of the worker pool.
\<close>

theorem runplan_deterministic:
  assumes det: "deterministic_agents e" and wait: "\<forall>d w. fst (e_wait env d w) = None"
    and cb: "\<forall>n \<in> set (ep_Nodes plan). cp_FailureThreshold (node_cb_policy (eng_cfg e) n) \<le> 0"
    and run: "RunPlan env e plan scheds s = Some (results, tr, s1)"
    and run': "RunPlan env (with_pool W e) plan scheds' s' = Some (results', tr', s1')"
  shows "map erase_result results' = map erase_result results
    \<and> map erase_step (t_Steps tr') = map erase_step (t_Steps tr)"
  by (rule RunPlan_deterministic [OF assms])

section \<open>A run by hand\<close>

text \<open>
  Four nodes: \<open>a\<close> calls an agent that answers, \<open>b\<close> one that fails, \<open>p\<close> one that panics; \<open>c\<close> depends on
  \<open>a\<close> and \<open>b\<close>. The clock is
  a counter that every reading and every call advances.
\<close>

definition ex_env :: "nat env" where
  "ex_env = \<lparr>e_now = (\<lambda>w. (int w, w + 1)), e_wait = (\<lambda>_ w. (None, w))\<rparr>"

definition ex_registry :: "nat AgentFunc registry" where
  "ex_registry = snd (register_list Register
     [(''up'', \<lambda>_ _ w. (Returned empty_output None, w + 5)),
      (''down'', \<lambda>_ _ w. (Returned empty_output (Some (Errorf ''refused'')), w + 5)),
      (''boom'', \<lambda>_ _ w. (Panicked ''nil map'', w + 5))] NewRegistry)"

definition ex_engine :: "(nat, unit) Engine" where
  "ex_engine = fst (NewEngine ex_registry
     \<lparr>rc_WorkerPoolSize = 2, rc_ChannelBuffer = 0, rc_DefaultTimeout = 0,
      rc_RetryPolicy = default_retry\<lparr>rp_MaxAttempts := 2\<rparr>, rc_CircuitBreaker = default_breaker\<rparr>)"

definition ex_plan :: ExecutionPlan where
  "ex_plan = \<lparr>ep_TaskID = ''t'', ep_Nodes = [mk_node ''c'' ''up'' [''a'', ''b''], mk_node ''a'' ''up'' [],
     mk_node ''b'' ''down'' [], mk_node ''p'' ''boom'' []]\<rparr>"

definition ex_graph :: planGraph where
  "ex_graph = \<lparr>pg_nodes = ep_Nodes ex_plan, pg_nodesByID = plan_nodesByID ex_plan,
     pg_levels = [[''a'', ''b'', ''p''], [''c'']]\<rparr>"

definition ex_state :: "(nat, unit) shared" where
  "ex_state = \<lparr>sh_breaker = NewCircuitBreaker, sh_metrics = (), sh_recorder = NewRecorder [] 0, sh_world = 1\<rparr>"

definition ex_panic :: goerr where
  "ex_panic = AgentError (Some (WrapErr [] (Sentinel ErrAgentPanic) '': nil map'')) False"

lemma ex_get:
  "registry_get ''up'' ex_registry = Some (\<lambda>_ _ w. (Returned empty_output None, w + 5))"
  "registry_get ''down'' ex_registry = Some (\<lambda>_ _ w. (Returned empty_output (Some (Errorf ''refused'')), w + 5))"
  "registry_get ''boom'' ex_registry = Some (\<lambda>_ _ w. (Panicked ''nil map'', w + 5))"
  by (simp_all add: ex_registry_def registry_get_def GetVersion_def VersionedID_def Register_def
      RegisterVersion_def NewRegistry_def)

lemma ex_eng:
  "eng_registry ex_engine = ex_registry" "rc_WorkerPoolSize (eng_cfg ex_engine) = 2"
  "rc_RetryPolicy (eng_cfg ex_engine) = \<lparr>rp_MaxAttempts = 2, rp_Backoff = BackoffLinear, rp_RetryableErrs = []\<rparr>"
  "cp_FailureThreshold (rc_CircuitBreaker (eng_cfg ex_engine)) = 0" "eng_metrics ex_engine = NoopRecorder"
  by (simp_all add: ex_engine_def NewEngine_def normalize_config_def normalize_retry_def
      normalize_breaker_def default_retry_def default_breaker_def)

lemma ex_deterministic: "deterministic_agents ex_engine"
  by (auto simp: deterministic_agents_def ex_eng ex_registry_def registry_get_def GetVersion_def
      VersionedID_def Register_def RegisterVersion_def NewRegistry_def Let_def split: if_splits)

lemma ex_graph: "buildGraph ex_plan = Inr ex_graph"
proof -
  have "map_sum id pg_levels (buildGraph ex_plan) = Inr [[''a'', ''b'', ''p''], [''c'']]"
    by (simp add: ex_plan_def mk_node_def buildGraph_def level_loop.simps sort_strings_def sort_slice_def Let_def)
  then obtain g where g: "buildGraph ex_plan = Inr g" "pg_levels g = [[''a'', ''b'', ''p''], [''c'']]"
    by (cases "buildGraph ex_plan") auto
  with buildGraph_levels(5,6) [OF g(1)] show ?thesis by (cases g) (auto simp: ex_graph_def)
qed

lemma ex_lookup:
  "map_get empty_node (pg_nodesByID ex_graph) ''a'' = mk_node ''a'' ''up'' []"
  "map_get empty_node (pg_nodesByID ex_graph) ''b'' = mk_node ''b'' ''down'' []"
  "map_get empty_node (pg_nodesByID ex_graph) ''p'' = mk_node ''p'' ''boom'' []"
  "map_get empty_node (pg_nodesByID ex_graph) ''c'' = mk_node ''c'' ''up'' [''a'', ''b'']"
  "pg_nodesByID ex_graph ''a'' = Some (mk_node ''a'' ''up'' [])"
  by (simp_all add: ex_graph_def plan_nodesByID_def ex_plan_def mk_node_def map_get_def)

lemmas ex_node_defs = executeNode_def mk_node_def ex_get ex_eng attempt_loop.simps node_policy_def
  node_cb_policy_def default_retry_def default_breaker_def Allow_def safeCall_def Let_def RecordFailure_def
  act_def clock_act_def wait_act_def call_act_def allow_act_def breaker_act_def metrics_act_def step_act_def
  normalizeInvocationError_def shouldRetry_def ex_env_def NoopRecorder_def run_prog_Atomic NonRetryable_def ex_panic_def

lemma ex_seq:
  "seq_levels ex_env ex_engine ex_graph [[''a'', ''b'', ''p''], [''c'']] Map.empty
     (ex_state\<lparr>sh_world := 2, sh_recorder := NewRecorder ''t'' 1\<rparr>)
   = ([''a'' \<mapsto> ok_result (pn_Invocation (mk_node ''a'' ''up'' [])) (with_duration empty_output 6),
       ''b'' \<mapsto> err_result (pn_Invocation (mk_node ''b'' ''down'' [])) (Some (Errorf ''refused'')),
       ''p'' \<mapsto> err_result (pn_Invocation (mk_node ''p'' ''boom'' [])) (Some ex_panic),
       ''c'' \<mapsto> err_result (pn_Invocation (mk_node ''c'' ''up'' [])) (Some (Errorf ''dependency failed: b: refused''))],
      \<lparr>sh_breaker = RecordSuccess ''up'' NewCircuitBreaker, sh_metrics = (),
       sh_recorder = fold AddStep
         [node_step (pn_Invocation (mk_node ''a'' ''up'' [])) (with_duration empty_output 6) [] 6 1,
          node_step (pn_Invocation (mk_node ''b'' ''down'' [])) empty_output ''refused'' 6 1,
          node_step (pn_Invocation (mk_node ''b'' ''down'' [])) empty_output ''refused'' 6 2,
          node_step (pn_Invocation (mk_node ''p'' ''boom'' [])) empty_output (err_text ex_panic) 6 1,
          node_step (pn_Invocation (mk_node ''c'' ''up'' [])) empty_output ''dependency failed: b: refused'' 0 0]
         (NewRecorder ''t'' 1),
       sh_world = 37\<rparr>)"
  by (simp add: node_launch_def ex_lookup dependencyError_def ex_node_defs ex_state_def NewCircuitBreaker_def
      NewRecorder_def result_id_def sort_slice_def store_results_def time_sub_def)

lemma ex_run:
  "\<exists>scheds results tr s'. RunPlan ex_env ex_engine ex_plan scheds ex_state = Some (results, tr, s')
     \<and> map (\<lambda>r. (result_id r, ar_Err r)) results = [(''a'', None), (''b'', Some (Errorf ''refused'')),
         (''c'', Some (Errorf ''dependency failed: b: refused'')), (''p'', Some ex_panic)]
     \<and> map (\<lambda>st. (s_InvocationID st, s_Attempt st)) (t_Steps tr) = [(''a'', 1), (''b'', 1), (''b'', 2), (''c'', 0), (''p'', 1)]"
proof -
  have "0 < rc_WorkerPoolSize (eng_cfg ex_engine)" by (simp add: ex_eng)
  from seq_run [OF ex_graph this, of ex_env ex_state] obtain scheds where
    "RunPlan ex_env ex_engine ex_plan scheds ex_state =
      (case e_now ex_env (sh_world ex_state) of (start, w) \<Rightarrow>
       case seq_levels ex_env ex_engine ex_graph (pg_levels ex_graph) Map.empty
              (ex_state\<lparr>sh_world := w, sh_recorder := NewRecorder (ep_TaskID ex_plan) start\<rparr>) of
         (resultsByID, s) \<Rightarrow>
           Some (sort_slice result_id (map (\<lambda>n. map_get empty_result resultsByID (node_id n)) (pg_nodes ex_graph)),
             finish_run ex_env s))" by blast
  moreover have "e_now ex_env (sh_world ex_state) = (1, 2)" by (simp add: ex_env_def ex_state_def)
  moreover have "pg_levels ex_graph = [[''a'', ''b'', ''p''], [''c'']]" "ep_TaskID ex_plan = ''t''"
    "map node_id (pg_nodes ex_graph) = [''c'', ''a'', ''b'', ''p'']"
    by (simp_all add: ex_graph_def ex_plan_def mk_node_def)
  moreover note ex_seq
  ultimately have "RunPlan ex_env ex_engine ex_plan scheds ex_state = Some
      (sort_slice result_id (map (\<lambda>i. map_get empty_result (fst (seq_levels ex_env ex_engine ex_graph
        [[''a'', ''b'', ''p''], [''c'']] Map.empty (ex_state\<lparr>sh_world := 2, sh_recorder := NewRecorder ''t'' 1\<rparr>))) i) [''c'', ''a'', ''b'', ''p'']),
       finish_run ex_env (snd (seq_levels ex_env ex_engine ex_graph
        [[''a'', ''b'', ''p''], [''c'']] Map.empty (ex_state\<lparr>sh_world := 2, sh_recorder := NewRecorder ''t'' 1\<rparr>))))"
    by (simp add: map_equality_iff split: prod.splits) (simp add: ex_graph_def ex_plan_def mk_node_def)
  then show ?thesis
    unfolding ex_seq
    by (intro exI [of _ scheds])
      (simp add: finish_run_def ex_env_def sort_slice_def result_id_def mk_node_def fold_AddStep NewRecorder_def step_key_def)
qed

lemma ex_nodes:
  "mk_node ''a'' ''up'' [] \<in> set (ep_Nodes ex_plan)" "mk_node ''b'' ''down'' [] \<in> set (ep_Nodes ex_plan)"
  "mk_node ''c'' ''up'' [''a'', ''b''] \<in> set (ep_Nodes ex_plan)" "mk_node ''p'' ''boom'' [] \<in> set (ep_Nodes ex_plan)"
  by (simp_all add: ex_plan_def)

lemma ex_result_of:
  assumes "map (\<lambda>r. (result_id r, ar_Err r)) results = [(''a'', None), (''b'', Some (Errorf ''refused'')),
    (''c'', Some (Errorf ''dependency failed: b: refused'')), (''p'', Some ex_panic)]"
  shows "map_option ar_Err (result_of results ''a'') = Some None"
    and "map_option ar_Err (result_of results ''b'') = Some (Some (Errorf ''refused''))"
    and "map_option ar_Err (result_of results ''p'') = Some (Some ex_panic)"
  using assms by (auto simp: result_of_def)

theorem runplan_refines_spec_witness:
  "\<exists>scheds results tr s' resm log. RunPlan ex_env ex_engine ex_plan scheds ex_state = Some (results, tr, s')
     \<and> plan_run ex_env ex_engine ex_plan ex_graph resm log
     \<and> map result_id results = sort_strings (plan_ids ex_plan) \<and> plan_ids ex_plan = [''c'', ''a'', ''b'', ''p'']"
proof -
  obtain scheds results tr s' where run: "RunPlan ex_env ex_engine ex_plan scheds ex_state = Some (results, tr, s')"
    using ex_run by blast
  moreover have "plan_ids ex_plan = [''c'', ''a'', ''b'', ''p'']" by (simp add: plan_ids_def ex_plan_def mk_node_def)
  ultimately show ?thesis using runplan_refines_spec [OF run ex_graph] by blast
qed


theorem attempts_consecutive_bounded_witness:
  "\<exists>scheds results tr s' k. RunPlan ex_env ex_engine ex_plan scheds ex_state = Some (results, tr, s')
     \<and> 1 \<le> k \<and> k \<le> (2 :: int) \<and> map s_Attempt (steps_of tr ''b'') = [1..k]"
proof -
  obtain scheds results tr s' where run: "RunPlan ex_env ex_engine ex_plan scheds ex_state = Some (results, tr, s')"
    and res: "map (\<lambda>r. (result_id r, ar_Err r)) results = [(''a'', None), (''b'', Some (Errorf ''refused'')),
      (''c'', Some (Errorf ''dependency failed: b: refused'')), (''p'', Some ex_panic)]"
    by (rule exE [OF ex_run], elim exE conjE, rule that)
  let ?b = "mk_node ''b'' ''down'' []"
  obtain r where r: "result_of results (node_id ?b) = Some r"
    using ex_result_of(2) [OF res] by (auto simp: mk_node_def)
  have "rp_MaxAttempts (node_policy (eng_cfg ex_engine) ?b) = 2"
    by (simp add: node_policy_def mk_node_def default_retry_def ex_eng Let_def)
  moreover have "registry_get (inv_AgentID (pn_Invocation ?b)) (eng_registry ex_engine)
      = Some (\<lambda>_ _ w. (Returned empty_output (Some (Errorf ''refused'')), w + 5))"
    by (simp add: mk_node_def ex_get ex_eng)
  moreover have "\<forall>d \<in> set (pn_DependsOn ?b). map_option ar_Err (result_of results d) = Some None"
    by (simp add: mk_node_def)
  ultimately have "\<exists>k. 1 \<le> k \<and> k \<le> 2 \<and> map s_Attempt (steps_of tr (node_id ?b)) = [1..k]"
    using attempts_consecutive_bounded [OF run ex_graph ex_nodes(2) _ _ r] by fastforce
  with run show ?thesis by (auto simp: mk_node_def)
qed


definition ex_bad_plan :: ExecutionPlan where
  "ex_bad_plan = \<lparr>ep_TaskID = ''t'', ep_Nodes = [mk_node ''a'' ''up'' [''b''], mk_node ''b'' ''up'' [''a'']]\<rparr>"

theorem invalid_plan_runs_nothing_witness:
  "\<exists>tr s'. RunPlan ex_env ex_engine ex_bad_plan [] ex_state
       = Some ([empty_result\<lparr>ar_Err := Some (Errorf ''execution plan contains cycle'')\<rparr>], tr, s')
     \<and> sh_breaker s' = NewCircuitBreaker"
proof -
  have "buildGraph ex_bad_plan = Inl (Errorf ''execution plan contains cycle'')"
    by (simp add: ex_bad_plan_def mk_node_def buildGraph_def level_loop.simps sort_strings_def sort_slice_def Let_def)
  from invalid_plan_runs_nothing [OF this, of ex_env ex_engine "[]" ex_state]
  show ?thesis by (auto simp: ex_state_def)
qed

theorem runplan_deterministic_witness:
  "\<exists>scheds results tr s1 scheds' results' tr' s1'.
     RunPlan ex_env ex_engine ex_plan scheds ex_state = Some (results, tr, s1)
     \<and> RunPlan ex_env (with_pool 1 ex_engine) ex_plan scheds' ex_state = Some (results', tr', s1')
     \<and> map erase_result results' = map erase_result results"
proof -
  obtain scheds results tr s1 where run: "RunPlan ex_env ex_engine ex_plan scheds ex_state = Some (results, tr, s1)"
    using ex_run by blast
  have "0 < rc_WorkerPoolSize (eng_cfg (with_pool 1 ex_engine))" by (simp add: with_pool_def)
  from RunPlan_completable [OF this, of ex_env ex_plan ex_state] obtain scheds' results' tr' s1' where
    run': "RunPlan ex_env (with_pool 1 ex_engine) ex_plan scheds' ex_state = Some (results', tr', s1')"
    by blast
  have "deterministic_agents ex_engine" by (rule ex_deterministic)
  moreover have "\<forall>d w. fst (e_wait ex_env d w) = None" by (simp add: ex_env_def)
  moreover have "\<forall>n \<in> set (ep_Nodes ex_plan). cp_FailureThreshold (node_cb_policy (eng_cfg ex_engine) n) \<le> 0"
    by (simp add: ex_plan_def mk_node_def node_cb_policy_def default_breaker_def ex_eng Let_def)
  ultimately have "map erase_result results' = map erase_result results"
    using runplan_deterministic [OF _ _ _ run run'] by blast
  with run run' show ?thesis by blast
qed

end
