(* ===== verification/Tenant.thy ===== *)
theory Tenant
  imports GoErrors
begin

text \<open>
  \<open>src/internal/tenant/namespace.go\<close>: namespaces of tenants. The pattern
  \<open>^[a-z][a-z0-9_-]{1,31}$\<close> is written out.
\<close>

definition lower_letter :: "char \<Rightarrow> bool" where
  "lower_letter c \<longleftrightarrow> 97 \<le> (of_char c :: nat) \<and> (of_char c :: nat) \<le> 122"

definition namespace_char :: "char \<Rightarrow> bool" where
  "namespace_char c \<longleftrightarrow> lower_letter c \<or> 48 \<le> (of_char c :: nat) \<and> (of_char c :: nat) \<le> 57
     \<or> c = CHR ''_'' \<or> c = CHR ''-''"

definition namespacePattern :: "string \<Rightarrow> bool" where
  "namespacePattern s =
     (case s of
        [] \<Rightarrow> False
      | c # cs \<Rightarrow> lower_letter c \<and> 1 \<le> length cs \<and> length cs \<le> 31 \<and> list_all namespace_char cs)"

definition Normalize :: "string \<Rightarrow> string" where
  "Normalize raw = (let s = trim_space (to_lower raw) in if s = [] then ''default'' else s)"

definition Validate :: "string \<Rightarrow> goerr option" where
  "Validate ns =
     (let ns = Normalize ns
      in if \<not> namespacePattern ns then Some (Errorf (''invalid namespace '' @ fmt_q ns)) else None)"

section \<open>Facts\<close>

lemma namespace_char_graphic: "namespace_char c \<Longrightarrow> graphic c \<and> (of_char c :: nat) < 128 \<and> lower_char c = c"
  by (auto simp: namespace_char_def lower_letter_def graphic_def lower_char_def Let_def)

lemma namespacePattern_chars: "namespacePattern s \<Longrightarrow> c \<in> set s \<Longrightarrow> namespace_char c"
  by (auto simp: namespacePattern_def namespace_char_def list_all_iff split: list.splits)

lemma namespacePattern_length: "namespacePattern s \<Longrightarrow> 2 \<le> length s \<and> length s \<le> 32"
  by (auto simp: namespacePattern_def split: list.splits)

lemma Normalize_fixed:
  assumes "namespacePattern s"
  shows "Normalize s = s"
proof -
  have ne: "s \<noteq> []" using namespacePattern_length [OF assms] by auto
  have "ascii s" using namespacePattern_chars [OF assms] namespace_char_graphic by (auto simp: ascii_def)
  moreover have "map lower_char s = s"
    by (rule map_idI) (use namespacePattern_chars [OF assms] namespace_char_graphic in blast)
  ultimately have "to_lower s = s" by (simp add: to_lower_ascii)
  moreover have "trim_space s = s"
    by (rule trim_space_graphic) (use ne namespacePattern_chars [OF assms] namespace_char_graphic in auto)
  ultimately show ?thesis using ne by (simp add: Normalize_def)
qed

lemma Validate_None: "Validate ns = None \<longleftrightarrow> namespacePattern (Normalize ns)"
  by (simp add: Validate_def Let_def)

lemma Normalize_empty [simp]: "Normalize [] = ''default''"
  by (simp add: Normalize_def trim_space_def)

lemma default_namespace [simp]: "namespacePattern ''default''"
  by (simp add: namespacePattern_def namespace_char_def lower_letter_def)

end
