(* ===== verification/Manifest.thy ===== *)
theory Manifest
  imports Kahn GoNumbers Security Tenant
begin

text \<open>
  \<open>src/internal/config/manifest.go\<close>: the manifest, its validation and the topological order of its
  pipeline. Reading the file and unmarshalling the YAML (\<open>gopkg.in/yaml.v3\<close>) are parameters of
  \<open>LoadManifest\<close>.
\<close>

section \<open>Types\<close>

record RBAC =
  rb_RunRoles :: "string list"
  rb_ValidateRoles :: "string list"
  rb_ReplayRoles :: "string list"
  rb_AdminRoles :: "string list"

record RouterSettings =
  rs_WorkerPoolSize :: go_int
  rs_ChannelBuffer :: go_int
  rs_DefaultTimeout :: string
  rs_Namespace :: string
  rs_RBAC :: RBAC

record RetryConfig =
  rtc_MaxAttempts :: go_int
  rtc_Backoff :: string

record CircuitBreakerConfig =
  cbc_FailureThreshold :: go_int
  cbc_ResetTimeout :: string
  cbc_ProbeTimeout :: string

record AgentBinding =
  ab_ID :: string
  ab_Retry :: RetryConfig
  ab_CircuitBreaker :: CircuitBreakerConfig

record PipelineStep =
  ps_Step :: string
  ps_DependsOn :: string

record Manifest =
  mf_Router :: RouterSettings
  mf_Agents :: "AgentBinding list"
  mf_Pipeline :: "PipelineStep list"

section \<open>OrderedPipeline\<close>

fun step_index :: "PipelineStep list \<Rightarrow> nat \<Rightarrow> (string \<rightharpoonup> nat) \<Rightarrow> (string \<rightharpoonup> nat)" where
  "step_index [] i m = m"
| "step_index (p # ps) i m = step_index ps (i + 1) (m(ps_Step p \<mapsto> i))"

fun pipeline_links :: "PipelineStep list \<Rightarrow> indegree \<Rightarrow> children \<Rightarrow> indegree \<times> children" where
  "pipeline_links [] inDegree children = (inDegree, children)"
| "pipeline_links (p # ps) inDegree children =
     (let inDegree = (if inDegree (ps_Step p) = None then inDegree(ps_Step p \<mapsto> 0) else inDegree)
      in if ps_DependsOn p \<noteq> []
         then pipeline_links ps (inDegree(ps_Step p \<mapsto> map_get 0 inDegree (ps_Step p) + 1))
                (fmupd (ps_DependsOn p) (fm_get [] children (ps_DependsOn p) @ [ps_Step p]) children)
         else pipeline_links ps inDegree children)"

definition OrderedPipeline :: "Manifest \<Rightarrow> PipelineStep list result" where
  "OrderedPipeline m =
     (let pipeline = mf_Pipeline m; stepIndex = step_index pipeline 0 Map.empty in
      case pipeline_links pipeline Map.empty fmempty of (inDegree, children) \<Rightarrow>
      let queue = filter (\<lambda>s. map_get 0 inDegree s = 0) (map ps_Step pipeline);
          orderedNames = order_loop children queue inDegree []
      in if length orderedNames \<noteq> length pipeline
         then Inl (Errorf ''manifest: cycle detected in pipeline'')
         else Inr (map (\<lambda>name. pipeline ! map_get 0 stepIndex name) orderedNames))"

section \<open>ValidateManifest\<close>

fun validate_roles :: "string list \<Rightarrow> goerr option" where
  "validate_roles [] = None"
| "validate_roles (role # roles) =
     (case ParseRole role of
        Inl err \<Rightarrow> Some (WrapErr (''manifest: invalid rbac role '' @ fmt_q role @ '': '') err [])
      | Inr _ \<Rightarrow> validate_roles roles)"

definition check_timeout :: "string \<Rightarrow> string \<Rightarrow> string \<Rightarrow> goerr option" where
  "check_timeout agentID field v =
     (if v = [] then None
      else case parse_duration v of
        Inl err \<Rightarrow> Some (WrapErr (''manifest: agent '' @ fmt_q agentID @ '' has invalid '' @ field @ '': '') err [])
      | Inr _ \<Rightarrow> None)"

fun validate_agents :: "AgentBinding list \<Rightarrow> string list \<Rightarrow> string list result" where
  "validate_agents [] agents = Inr agents"
| "validate_agents (a # as) agents =
     (if ab_ID a = [] then Inl (Errorf ''manifest: agent id is empty'')
      else if ab_ID a \<in> set agents then Inl (Errorf (''manifest: duplicate agent id '' @ fmt_q (ab_ID a)))
      else if cbc_FailureThreshold (ab_CircuitBreaker a) < 0
      then Inl (Errorf (''manifest: agent '' @ fmt_q (ab_ID a) @ '' has negative circuit_breaker.failure_threshold''))
      else case check_timeout (ab_ID a) ''circuit_breaker.reset_timeout'' (cbc_ResetTimeout (ab_CircuitBreaker a)) of
        Some err \<Rightarrow> Inl err
      | None \<Rightarrow>
          (case check_timeout (ab_ID a) ''circuit_breaker.probe_timeout'' (cbc_ProbeTimeout (ab_CircuitBreaker a)) of
             Some err \<Rightarrow> Inl err
           | None \<Rightarrow> validate_agents as (ab_ID a # agents)))"

fun validate_steps :: "PipelineStep list \<Rightarrow> string list \<Rightarrow> string list \<Rightarrow> string list result" where
  "validate_steps [] agents steps = Inr steps"
| "validate_steps (p # ps) agents steps =
     (if ps_Step p = [] then Inl (Errorf ''manifest: pipeline step is empty'')
      else if ps_Step p \<in> set steps then Inl (Errorf (''manifest: duplicate pipeline step '' @ fmt_q (ps_Step p)))
      else if ps_Step p \<notin> set agents
      then Inl (Errorf (''manifest: pipeline step '' @ fmt_q (ps_Step p) @ '' has no matching agent''))
      else validate_steps ps agents (ps_Step p # steps))"

fun validate_dependencies :: "PipelineStep list \<Rightarrow> string list \<Rightarrow> goerr option" where
  "validate_dependencies [] steps = None"
| "validate_dependencies (p # ps) steps =
     (if ps_DependsOn p = [] then validate_dependencies ps steps
      else if ps_DependsOn p = ps_Step p
      then Some (Errorf (''manifest: step '' @ fmt_q (ps_Step p) @ '' cannot depend on itself''))
      else if ps_DependsOn p \<notin> set steps
      then Some (Errorf (''manifest: step '' @ fmt_q (ps_Step p) @ '' depends on unknown step '' @ fmt_q (ps_DependsOn p)))
      else validate_dependencies ps steps)"

definition rbac_roles :: "Manifest \<Rightarrow> string list" where
  "rbac_roles m = (let r = rs_RBAC (mf_Router m) in
     rb_RunRoles r @ rb_ValidateRoles r @ rb_ReplayRoles r @ rb_AdminRoles r)"

definition validate_namespace :: "Manifest \<Rightarrow> goerr option" where
  "validate_namespace m =
     (if rs_Namespace (mf_Router m) = [] then None
      else case Validate (rs_Namespace (mf_Router m)) of
        Some err \<Rightarrow> Some (WrapErr ''manifest: invalid router.namespace: '' err [])
      | None \<Rightarrow> None)"

definition ValidateManifest :: "Manifest \<Rightarrow> goerr option" where
  "ValidateManifest m =
     (if mf_Agents m = [] then Some (Sentinel ErrManifestEmptyAgents)
      else if mf_Pipeline m = [] then Some (Sentinel ErrManifestEmptyPipeline)
      else case validate_namespace m of
        Some err \<Rightarrow> Some err
      | None \<Rightarrow>
          (case validate_roles (rbac_roles m) of
             Some err \<Rightarrow> Some err
           | None \<Rightarrow>
               (case validate_agents (mf_Agents m) [] of
                  Inl err \<Rightarrow> Some err
                | Inr agents \<Rightarrow>
                    (case validate_steps (mf_Pipeline m) agents [] of
                       Inl err \<Rightarrow> Some err
                     | Inr steps \<Rightarrow>
                         (case validate_dependencies (mf_Pipeline m) steps of
                            Some err \<Rightarrow> Some err
                          | None \<Rightarrow>
                              (case OrderedPipeline m of Inl err \<Rightarrow> Some err | Inr _ \<Rightarrow> None))))))"

definition LoadManifest ::
  "(string \<Rightarrow> bytes result) \<Rightarrow> (bytes \<Rightarrow> Manifest result) \<Rightarrow> string \<Rightarrow> Manifest result" where
  "LoadManifest readFile unmarshal path =
     (case readFile path of
        Inl err \<Rightarrow> Inl (WrapErr (''manifest: read '' @ fmt_q path @ '': '') err [])
      | Inr b \<Rightarrow>
          (case unmarshal b of
             Inl err \<Rightarrow> Inl (WrapErr (''manifest: unmarshal '' @ fmt_q path @ '': '') err [])
           | Inr m \<Rightarrow>
               (case ValidateManifest m of Some err \<Rightarrow> Inl err | None \<Rightarrow> Inr m)))"

section \<open>The specification\<close>

abbreviation step_names :: "Manifest \<Rightarrow> string list" where
  "step_names m \<equiv> map ps_Step (mf_Pipeline m)"

definition pipeline_edges :: "Manifest \<Rightarrow> (string \<times> string) list" where
  "pipeline_edges m = map (\<lambda>p. (ps_DependsOn p, ps_Step p)) (filter (\<lambda>p. ps_DependsOn p \<noteq> []) (mf_Pipeline m))"

definition pipeline_ok :: "Manifest \<Rightarrow> bool" where
  "pipeline_ok m \<longleftrightarrow> distinct (step_names m) \<and> [] \<notin> set (step_names m)
     \<and> (\<forall>e \<in> set (pipeline_edges m). fst e \<in> set (step_names m) \<and> fst e \<noteq> snd e)"

definition timeout_ok :: "string \<Rightarrow> bool" where
  "timeout_ok v \<longleftrightarrow> v = [] \<or> (\<exists>d. parse_duration v = Inr d)"

definition agent_ok :: "AgentBinding \<Rightarrow> bool" where
  "agent_ok a \<longleftrightarrow> ab_ID a \<noteq> [] \<and> 0 \<le> cbc_FailureThreshold (ab_CircuitBreaker a)
     \<and> timeout_ok (cbc_ResetTimeout (ab_CircuitBreaker a)) \<and> timeout_ok (cbc_ProbeTimeout (ab_CircuitBreaker a))"

definition manifest_ok :: "Manifest \<Rightarrow> bool" where
  "manifest_ok m \<longleftrightarrow> mf_Agents m \<noteq> [] \<and> mf_Pipeline m \<noteq> []
     \<and> (rs_Namespace (mf_Router m) = [] \<or> namespacePattern (Normalize (rs_Namespace (mf_Router m))))
     \<and> (\<forall>r \<in> set (rbac_roles m). \<exists>role. ParseRole r = Inr role)
     \<and> distinct (map ab_ID (mf_Agents m)) \<and> (\<forall>a \<in> set (mf_Agents m). agent_ok a)
     \<and> set (step_names m) \<subseteq> set (map ab_ID (mf_Agents m)) \<and> pipeline_ok m"

section \<open>The pipeline as a graph\<close>

definition pipeline_indegree :: "Manifest \<Rightarrow> indegree" where
  "pipeline_indegree m = fst (pipeline_links (mf_Pipeline m) Map.empty fmempty)"

definition pipeline_children :: "Manifest \<Rightarrow> children" where
  "pipeline_children m = snd (pipeline_links (mf_Pipeline m) Map.empty fmempty)"

lemma pipeline_links_children:
  "fm_get [] (snd (pipeline_links ps d ch)) u = fm_get [] ch u
     @ map snd (filter (\<lambda>e. fst e = u) (map (\<lambda>p. (ps_DependsOn p, ps_Step p)) (filter (\<lambda>p. ps_DependsOn p \<noteq> []) ps)))"
  by (induction ps arbitrary: d ch) (auto simp: Let_def)

lemma pipeline_links_degree:
  "deg (fst (pipeline_links ps d ch)) v = deg d v
     + int (length (filter (\<lambda>e. snd e = v) (map (\<lambda>p. (ps_DependsOn p, ps_Step p)) (filter (\<lambda>p. ps_DependsOn p \<noteq> []) ps))))"
proof (induction ps arbitrary: d ch)
  case (Cons p ps)
  then show ?case by (auto simp: Let_def map_get_def)
qed simp

interpretation pipeline: kahn_source pipeline_ok step_names pipeline_edges pipeline_children pipeline_indegree
proof unfold_locales
  fix m e u v
  assume ok: "pipeline_ok m"
  show "distinct (step_names m)" using ok by (simp add: pipeline_ok_def)
  show "e \<in> set (pipeline_edges m) \<Longrightarrow> fst e \<in> set (step_names m) \<and> snd e \<in> set (step_names m)"
    using ok by (auto simp: pipeline_ok_def pipeline_edges_def)
  show "fm_get [] (pipeline_children m) u = map snd (filter (\<lambda>e. fst e = u) (pipeline_edges m))"
    by (simp add: pipeline_children_def pipeline_links_children pipeline_edges_def)
  show "deg (pipeline_indegree m) v = int (length (filter (\<lambda>e. snd e = v) (pipeline_edges m)))"
    by (simp add: pipeline_indegree_def pipeline_links_degree pipeline_edges_def)
qed

lemma step_index_other: "name \<notin> set (map ps_Step ps) \<Longrightarrow> step_index ps i m name = m name"
  by (induction ps arbitrary: i m) auto

lemma step_index_nth:
  "distinct (map ps_Step ps) \<Longrightarrow> k < length ps \<Longrightarrow> step_index ps i m (ps_Step (ps ! k)) = Some (i + k)"
proof (induction ps arbitrary: i m k)
  case (Cons p ps)
  then show ?case by (cases k) (auto simp: step_index_other)
qed simp

definition step_named :: "Manifest \<Rightarrow> string \<Rightarrow> PipelineStep" where
  "step_named m name = mf_Pipeline m ! map_get 0 (step_index (mf_Pipeline m) 0 Map.empty) name"

lemma step_named_step:
  assumes "pipeline_ok m" and "p \<in> set (mf_Pipeline m)"
  shows "step_named m (ps_Step p) = p"
proof -
  obtain k where "k < length (mf_Pipeline m)" "p = mf_Pipeline m ! k" using assms(2) by (metis in_set_conv_nth)
  with step_index_nth [of "mf_Pipeline m" k 0 Map.empty] assms(1) show ?thesis
    by (simp add: pipeline_ok_def step_named_def map_get_def)
qed

lemma OrderedPipeline_loop:
  "OrderedPipeline m =
     (let names = order_loop (pipeline_children m)
        (filter (\<lambda>s. deg (pipeline_indegree m) s = 0) (step_names m)) (pipeline_indegree m) []
      in if length names \<noteq> length (step_names m) then Inl (Errorf ''manifest: cycle detected in pipeline'')
         else Inr (map (step_named m) names))"
  by (simp add: OrderedPipeline_def pipeline_children_def pipeline_indegree_def step_named_def
      Let_def split: prod.splits)

lemma OrderedPipeline_ok_iff:
  assumes "pipeline_ok m"
  shows "(\<exists>ordered. OrderedPipeline m = Inr ordered) \<longleftrightarrow> acyclic (set (pipeline_edges m))"
  using pipeline.order_loop_correct(1) [OF assms] by (simp add: OrderedPipeline_loop Let_def)

text \<open>The order: a permutation of the pipeline in which every step comes after the one it depends on.\<close>

definition topological :: "PipelineStep list \<Rightarrow> bool" where
  "topological ps \<longleftrightarrow> (\<forall>j < length ps. ps_DependsOn (ps ! j) \<noteq> [] \<longrightarrow>
     (\<exists>i < j. ps_Step (ps ! i) = ps_DependsOn (ps ! j)))"

lemma topo_singletons:
  "topo_levels E fin (map (\<lambda>v. [v]) xs) \<longleftrightarrow>
     (\<forall>j < length xs. \<forall>u. (u, xs ! j) \<in> E \<longrightarrow> u \<in> fin \<or> (\<exists>i < j. xs ! i = u))"
proof (induction xs arbitrary: fin)
  case (Cons x xs)
  have "(\<forall>j < length (x # xs). \<forall>u. (u, (x # xs) ! j) \<in> E \<longrightarrow> u \<in> fin \<or> (\<exists>i < j. (x # xs) ! i = u))
      \<longleftrightarrow> (\<forall>u. (u, x) \<in> E \<longrightarrow> u \<in> fin)
        \<and> (\<forall>j < length xs. \<forall>u. (u, xs ! j) \<in> E \<longrightarrow> u \<in> insert x fin \<or> (\<exists>i < j. xs ! i = u))"
    by (auto simp: All_less_Suc2 Ex_less_Suc2 simp del: upt_Suc)
  then show ?case by (simp add: Cons.IH)
qed simp

lemma OrderedPipeline_order:
  assumes ok: "pipeline_ok m" and run: "OrderedPipeline m = Inr ordered"
  shows "mset ordered = mset (mf_Pipeline m)" and "topological ordered"
proof -
  define names where "names = order_loop (pipeline_children m)
      (filter (\<lambda>s. deg (pipeline_indegree m) s = 0) (step_names m)) (pipeline_indegree m) []"
  from run have len: "length names = length (step_names m)" and ordered: "ordered = map (step_named m) names"
    by (auto simp: OrderedPipeline_loop names_def Let_def split: if_splits)
  from pipeline.order_loop_correct(2) [OF ok] len
  have perm: "mset names = mset (step_names m)" and topo: "topo_levels (set (pipeline_edges m)) {} (map (\<lambda>v. [v]) names)"
    by (simp_all add: names_def)
  have "mset ordered = image_mset (step_named m) (mset (step_names m))"
    unfolding ordered mset_map perm by simp
  also have "\<dots> = mset (map (step_named m \<circ> ps_Step) (mf_Pipeline m))" by (simp add: image_mset.compositionality)
  also have "map (step_named m \<circ> ps_Step) (mf_Pipeline m) = mf_Pipeline m"
    by (rule map_idI) (simp add: step_named_step [OF ok])
  finally show "mset ordered = mset (mf_Pipeline m)" .
  have name: "ps_Step (step_named m n) = n" if "n \<in> set names" for n
    using that mset_eq_setD [OF perm] step_named_step [OF ok] by auto
  show "topological ordered"
    unfolding topological_def
  proof (intro allI impI)
    fix j
    assume j: "j < length ordered" and dep: "ps_DependsOn (ordered ! j) \<noteq> []"
    then have nj: "names ! j \<in> set names" by (simp add: ordered)
    then have "ordered ! j \<in> set (mf_Pipeline m)"
      using mset_eq_setD [OF perm] step_named_step [OF ok] j by (auto simp: ordered)
    then have "(ps_DependsOn (ordered ! j), ps_Step (ordered ! j)) \<in> set (pipeline_edges m)"
      using dep by (auto simp: pipeline_edges_def)
    moreover have "ps_Step (ordered ! j) = names ! j" using name [OF nj] j by (simp add: ordered)
    ultimately obtain i where i: "i < j" "names ! i = ps_DependsOn (ordered ! j)"
      using topo j unfolding topo_singletons by (auto simp: ordered)
    have "names ! i \<in> set names" using i(1) j by (simp add: ordered)
    from name [OF this] have "ps_Step (ordered ! i) = names ! i" using i(1) j by (simp add: ordered)
    with i show "\<exists>i < j. ps_Step (ordered ! i) = ps_DependsOn (ordered ! j)" by auto
  qed
qed

section \<open>What validation accepts\<close>

lemma validate_roles_None: "validate_roles rs = None \<longleftrightarrow> (\<forall>r \<in> set rs. \<exists>role. ParseRole r = Inr role)"
  by (induction rs) (auto split: sum.splits)

lemma check_timeout_None: "check_timeout a f v = None \<longleftrightarrow> timeout_ok v"
  by (auto simp: check_timeout_def timeout_ok_def split: sum.splits)

lemma validate_agents_Inr:
  "validate_agents as agents = Inr r \<longleftrightarrow>
     r = rev (map ab_ID as) @ agents \<and> distinct (map ab_ID as) \<and> set (map ab_ID as) \<inter> set agents = {}
     \<and> (\<forall>a \<in> set as. agent_ok a)"
proof (induction as arbitrary: agents)
  case (Cons a as)
  have "agent_ok a \<longleftrightarrow> ab_ID a \<noteq> [] \<and> \<not> cbc_FailureThreshold (ab_CircuitBreaker a) < 0
      \<and> check_timeout (ab_ID a) ''circuit_breaker.reset_timeout'' (cbc_ResetTimeout (ab_CircuitBreaker a)) = None
      \<and> check_timeout (ab_ID a) ''circuit_breaker.probe_timeout'' (cbc_ProbeTimeout (ab_CircuitBreaker a)) = None"
    by (auto simp: agent_ok_def check_timeout_None)
  then show ?case using Cons.IH by (auto split: option.splits)
qed auto

lemma validate_steps_Inr:
  "validate_steps ps agents steps = Inr r \<longleftrightarrow>
     r = rev (map ps_Step ps) @ steps \<and> distinct (map ps_Step ps) \<and> set (map ps_Step ps) \<inter> set steps = {}
     \<and> [] \<notin> set (map ps_Step ps) \<and> set (map ps_Step ps) \<subseteq> set agents"
  by (induction ps arbitrary: steps) auto

lemma validate_dependencies_None:
  "validate_dependencies ps steps = None \<longleftrightarrow>
     (\<forall>p \<in> set ps. ps_DependsOn p \<noteq> [] \<longrightarrow> ps_DependsOn p \<in> set steps \<and> ps_DependsOn p \<noteq> ps_Step p)"
  by (induction ps) auto

lemma validate_namespace_None:
  "validate_namespace m = None \<longleftrightarrow>
     rs_Namespace (mf_Router m) = [] \<or> namespacePattern (Normalize (rs_Namespace (mf_Router m)))"
  by (auto simp: validate_namespace_def Validate_def Let_def)

lemma pipeline_ok_steps:
  "pipeline_ok m \<longleftrightarrow> distinct (step_names m) \<and> [] \<notin> set (step_names m)
     \<and> validate_dependencies (mf_Pipeline m) (rev (step_names m)) = None"
  by (auto simp: pipeline_ok_def pipeline_edges_def validate_dependencies_None)

lemma ValidateManifest_None:
  "ValidateManifest m = None \<longleftrightarrow> manifest_ok m \<and> acyclic (set (pipeline_edges m))"
proof -
  have "ValidateManifest m = None \<longleftrightarrow> mf_Agents m \<noteq> [] \<and> mf_Pipeline m \<noteq> [] \<and> validate_namespace m = None
      \<and> validate_roles (rbac_roles m) = None
      \<and> (\<exists>agents steps. validate_agents (mf_Agents m) [] = Inr agents
          \<and> validate_steps (mf_Pipeline m) agents [] = Inr steps
          \<and> validate_dependencies (mf_Pipeline m) steps = None \<and> (\<exists>ordered. OrderedPipeline m = Inr ordered))"
    by (auto simp: ValidateManifest_def split: option.splits sum.splits)
  also have "\<dots> \<longleftrightarrow> manifest_ok m \<and> (\<exists>ordered. OrderedPipeline m = Inr ordered)"
    unfolding validate_namespace_None validate_roles_None validate_agents_Inr validate_steps_Inr
      manifest_ok_def pipeline_ok_steps
    by auto
  also have "\<dots> \<longleftrightarrow> manifest_ok m \<and> acyclic (set (pipeline_edges m))"
    using OrderedPipeline_ok_iff [of m] by (auto simp: manifest_ok_def)
  finally show ?thesis .
qed

text \<open>
  C11: A manifest passes validation if and only if it has agents and a pipeline, its namespace (when
  given) matches the pattern, every RBAC entry names a role, agent ids are distinct and non-empty
  with valid breaker settings, pipeline steps are distinct, non-empty and bound to agents, every
  dependency names another step, and the dependencies have no cycle.
\<close>

theorem ValidateManifest_accepts_iff:
  "ValidateManifest m = None \<longleftrightarrow> manifest_ok m \<and> acyclic (set (pipeline_edges m))"
  by (rule ValidateManifest_None)

text \<open>
  For a validated manifest \<open>OrderedPipeline\<close> returns every step of the pipeline exactly once, each
  after the step it depends on.
\<close>

theorem OrderedPipeline_topological:
  assumes "ValidateManifest m = None"
  shows "\<exists>ordered. OrderedPipeline m = Inr ordered \<and> mset ordered = mset (mf_Pipeline m) \<and> topological ordered"
proof -
  have ok: "pipeline_ok m" and "acyclic (set (pipeline_edges m))"
    using assms by (simp_all add: ValidateManifest_None manifest_ok_def)
  then obtain ordered where "OrderedPipeline m = Inr ordered" using OrderedPipeline_ok_iff by blast
  with OrderedPipeline_order [OF ok] show ?thesis by blast
qed

definition plain_agent :: "string \<Rightarrow> AgentBinding" where
  "plain_agent i = \<lparr>ab_ID = i, ab_Retry = \<lparr>rtc_MaxAttempts = 2, rtc_Backoff = ''exponential''\<rparr>,
     ab_CircuitBreaker = \<lparr>cbc_FailureThreshold = 3, cbc_ResetTimeout = [], cbc_ProbeTimeout = []\<rparr>\<rparr>"

definition sample_manifest :: Manifest where
  "sample_manifest = \<lparr>mf_Router = \<lparr>rs_WorkerPoolSize = 4, rs_ChannelBuffer = 0, rs_DefaultTimeout = [],
       rs_Namespace = ''team_a'', rs_RBAC = \<lparr>rb_RunRoles = [''admin''], rb_ValidateRoles = [], rb_ReplayRoles = [],
       rb_AdminRoles = []\<rparr>\<rparr>,
     mf_Agents = [plain_agent ''fetch'', plain_agent ''rank''],
     mf_Pipeline = [\<lparr>ps_Step = ''rank'', ps_DependsOn = ''fetch''\<rparr>, \<lparr>ps_Step = ''fetch'', ps_DependsOn = []\<rparr>]\<rparr>"

lemma sample_manifest_valid: "ValidateManifest sample_manifest = None"
proof -
  have "namespacePattern ''team_a''" by (simp add: namespacePattern_def lower_letter_def namespace_char_def)
  then have "namespacePattern (Normalize ''team_a'')" by (simp add: Normalize_fixed)
  moreover have "ParseRole ''admin'' = Inr ''admin''"
    using ParseRole_fixed [of RoleAdmin] by (simp add: known_role_def RoleAdmin_def)
  moreover have "acyclic {(''fetch'', ''rank'')}" by (rule acyclicI) (auto simp: trancl_insert)
  ultimately show ?thesis
    unfolding ValidateManifest_None
    by (simp add: sample_manifest_def plain_agent_def manifest_ok_def rbac_roles_def agent_ok_def timeout_ok_def
        pipeline_ok_def pipeline_edges_def)
qed

theorem OrderedPipeline_topological_witness:
  "\<exists>ordered. OrderedPipeline sample_manifest = Inr ordered \<and> mset ordered = mset (mf_Pipeline sample_manifest)
     \<and> topological ordered"
  by (rule OrderedPipeline_topological [OF sample_manifest_valid])

end
