(* ===== verification/Config.thy ===== *)
theory Config
  imports Manifest AgentTypes
begin

text \<open>
  \<open>src/internal/config/config.go\<close>: runtime configuration from the environment and from the manifest.
  The process environment is a function from names to values, empty where \<open>os.Getenv\<close> finds none.
\<close>

section \<open>The environment\<close>

text \<open>An override is used when it is set, parses, and passes the test on its value.\<close>

definition env_int :: "(string \<Rightarrow> string) \<Rightarrow> string \<Rightarrow> (go_int \<Rightarrow> bool) \<Rightarrow> go_int \<Rightarrow> go_int" where
  "env_int getenv key good dflt =
     (let v = getenv key in
      if v = [] then dflt
      else case atoi v of Some n \<Rightarrow> if good n then n else dflt | None \<Rightarrow> dflt)"

definition env_duration :: "(string \<Rightarrow> string) \<Rightarrow> string \<Rightarrow> duration \<Rightarrow> duration" where
  "env_duration getenv key dflt =
     (let v = getenv key in
      if v = [] then dflt
      else case parse_duration v of Inr d \<Rightarrow> if 0 < d then d else dflt | Inl _ \<Rightarrow> dflt)"

definition FromEnv :: "(string \<Rightarrow> string) \<Rightarrow> RouterConfig" where
  "FromEnv getenv =
     \<lparr>rc_WorkerPoolSize = env_int getenv ''WORKER_POOL_SIZE'' (\<lambda>n. 0 < n) 10,
      rc_ChannelBuffer = env_int getenv ''CHANNEL_BUFFER'' (\<lambda>n. 0 < n) 100,
      rc_DefaultTimeout = env_duration getenv ''DEFAULT_TIMEOUT'' (30 * second),
      rc_RetryPolicy = \<lparr>rp_MaxAttempts = 1, rp_Backoff = BackoffLinear, rp_RetryableErrs = []\<rparr>,
      rc_CircuitBreaker =
        \<lparr>cp_FailureThreshold = env_int getenv ''CIRCUIT_FAILURE_THRESHOLD'' (\<lambda>n. 0 \<le> n) 5,
         cp_ResetTimeout = env_duration getenv ''CIRCUIT_RESET_TIMEOUT'' (60 * second),
         cp_ProbeTimeout = env_duration getenv ''CIRCUIT_PROBE_TIMEOUT'' (5 * second)\<rparr>\<rparr>"

section \<open>The manifest\<close>

definition RouterConfigFromManifest :: "Manifest \<Rightarrow> RouterConfig \<Rightarrow> RouterConfig result" where
  "RouterConfigFromManifest m base =
     (let r = mf_Router m;
          cfg = (if 0 < rs_WorkerPoolSize r then base\<lparr>rc_WorkerPoolSize := rs_WorkerPoolSize r\<rparr> else base);
          cfg = (if 0 < rs_ChannelBuffer r then cfg\<lparr>rc_ChannelBuffer := rs_ChannelBuffer r\<rparr> else cfg)
      in if rs_DefaultTimeout r \<noteq> [] then
           (case parse_duration (rs_DefaultTimeout r) of
              Inl err \<Rightarrow> Inl (WrapErr ''manifest: invalid router.default_timeout: '' err [])
            | Inr d \<Rightarrow> Inr (cfg\<lparr>rc_DefaultTimeout := d\<rparr>))
         else Inr cfg)"

definition parseBackoff :: "string \<Rightarrow> BackoffStrategy" where
  "parseBackoff v =
     (if v = BackoffExponential then BackoffExponential
      else if v = BackoffExponentialJitter then BackoffExponentialJitter
      else BackoffLinear)"

definition RetryPolicyFromConfig :: "RetryConfig \<Rightarrow> RetryPolicy" where
  "RetryPolicyFromConfig rc =
     (let p = \<lparr>rp_MaxAttempts = rtc_MaxAttempts rc, rp_Backoff = parseBackoff (rtc_Backoff rc),
               rp_RetryableErrs = []\<rparr>
      in if rp_MaxAttempts p \<le> 0 then p\<lparr>rp_MaxAttempts := 1\<rparr> else p)"

definition cb_finish :: "CircuitBreakerPolicy \<Rightarrow> CircuitBreakerPolicy" where
  "cb_finish p =
     (let p = (if cp_FailureThreshold p < 0 then p\<lparr>cp_FailureThreshold := 0\<rparr> else p);
          p = (if cp_ResetTimeout p \<le> 0 then p\<lparr>cp_ResetTimeout := 60 * second\<rparr> else p)
      in if cp_ProbeTimeout p \<le> 0 then p\<lparr>cp_ProbeTimeout := 5 * second\<rparr> else p)"

definition CircuitBreakerPolicyFromConfig ::
  "CircuitBreakerConfig \<Rightarrow> CircuitBreakerPolicy \<Rightarrow> CircuitBreakerPolicy result" where
  "CircuitBreakerPolicyFromConfig cbc fallback =
     (let p = (if 0 < cbc_FailureThreshold cbc
               then fallback\<lparr>cp_FailureThreshold := cbc_FailureThreshold cbc\<rparr> else fallback)
      in case (if cbc_ResetTimeout cbc = [] then Inr (cp_ResetTimeout p)
               else parse_duration (cbc_ResetTimeout cbc)) of
           Inl err \<Rightarrow> Inl (WrapErr ''invalid circuit breaker reset_timeout: '' err [])
         | Inr reset \<Rightarrow>
             (let p = p\<lparr>cp_ResetTimeout := reset\<rparr>
              in case (if cbc_ProbeTimeout cbc = [] then Inr (cp_ProbeTimeout p)
                       else parse_duration (cbc_ProbeTimeout cbc)) of
                   Inl err \<Rightarrow> Inl (WrapErr ''invalid circuit breaker probe_timeout: '' err [])
                 | Inr probe \<Rightarrow> Inr (cb_finish (p\<lparr>cp_ProbeTimeout := probe\<rparr>))))"

definition NamespaceFromManifest :: "Manifest \<Rightarrow> string result" where
  "NamespaceFromManifest m =
     (let ns = Normalize (rs_Namespace (mf_Router m))
      in case Validate ns of Some err \<Rightarrow> Inl err | None \<Rightarrow> Inr ns)"

definition parseOrDefault :: "string list \<Rightarrow> Role list \<Rightarrow> Role list result" where
  "parseOrDefault vals fallback = (if vals = [] then Inr fallback else ParseRoles vals)"

definition RBACPolicyFromManifest :: "Manifest \<Rightarrow> Policy result" where
  "RBACPolicyFromManifest m =
     (let rbac = rs_RBAC (mf_Router m) in
      case parseOrDefault (rb_RunRoles rbac) [RoleOperator, RoleAdmin] of
        Inl err \<Rightarrow> Inl err
      | Inr runRoles \<Rightarrow>
          (case parseOrDefault (rb_ValidateRoles rbac) [RoleViewer, RoleOperator, RoleAdmin] of
             Inl err \<Rightarrow> Inl err
           | Inr validateRoles \<Rightarrow>
               (case parseOrDefault (rb_ReplayRoles rbac) [RoleOperator, RoleAdmin] of
                  Inl err \<Rightarrow> Inl err
                | Inr replayRoles \<Rightarrow>
                    (case parseOrDefault (rb_AdminRoles rbac) [RoleAdmin] of
                       Inl err \<Rightarrow> Inl err
                     | Inr adminRoles \<Rightarrow>
                         Inr (NewPolicy [ActionRun \<mapsto> runRoles, ActionValidate \<mapsto> validateRoles,
                           ActionReplay \<mapsto> replayRoles, ActionAdmin \<mapsto> adminRoles])))))"

section \<open>Facts\<close>

lemma env_int_good: "good dflt \<Longrightarrow> good (env_int getenv key good dflt)"
  by (auto simp: env_int_def Let_def split: option.splits)

lemma env_duration_positive: "0 < dflt \<Longrightarrow> 0 < env_duration getenv key dflt"
  by (auto simp: env_duration_def Let_def split: sum.splits)

definition cb_policy_ok :: "CircuitBreakerPolicy \<Rightarrow> bool" where
  "cb_policy_ok p \<longleftrightarrow> 0 \<le> cp_FailureThreshold p \<and> 0 < cp_ResetTimeout p \<and> 0 < cp_ProbeTimeout p"

lemma cb_finish_ok: "cb_policy_ok (cb_finish p)"
  by (simp add: cb_finish_def cb_policy_ok_def Let_def)

text \<open>
  C17: Whatever the environment holds, the configuration read from it is usable: pool size, channel
  buffer and all timeouts are positive, the failure threshold is not negative, and one attempt is
  made by default.
\<close>

theorem FromEnv_safe:
  "0 < rc_WorkerPoolSize (FromEnv getenv) \<and> 0 < rc_ChannelBuffer (FromEnv getenv)
   \<and> 0 < rc_DefaultTimeout (FromEnv getenv) \<and> cb_policy_ok (rc_CircuitBreaker (FromEnv getenv))
   \<and> rp_MaxAttempts (rc_RetryPolicy (FromEnv getenv)) = 1"
  using env_int_good [of "\<lambda>n. 0 < n" 10 getenv "''WORKER_POOL_SIZE''"]
    env_int_good [of "\<lambda>n. 0 < n" 100 getenv "''CHANNEL_BUFFER''"]
    env_int_good [of "\<lambda>n. 0 \<le> n" 5 getenv "''CIRCUIT_FAILURE_THRESHOLD''"]
  by (simp add: FromEnv_def cb_policy_ok_def env_duration_positive)

lemma CircuitBreakerPolicyFromConfig_total:
  assumes "timeout_ok (cbc_ResetTimeout cbc)" and "timeout_ok (cbc_ProbeTimeout cbc)"
  shows "\<exists>p. CircuitBreakerPolicyFromConfig cbc fallback = Inr p"
  using assms by (auto simp: CircuitBreakerPolicyFromConfig_def timeout_ok_def Let_def)

text \<open>
  The breaker policy of an agent of a validated manifest exists and is usable (threshold not
  negative, timeouts positive) whatever the fallback; a positive threshold of the agent wins, and an
  agent that sets nothing inherits a usable fallback unchanged.
\<close>

theorem agent_breaker_policy:
  assumes "ValidateManifest m = None" and "a \<in> set (mf_Agents m)"
  shows "\<exists>p. CircuitBreakerPolicyFromConfig (ab_CircuitBreaker a) fallback = Inr p \<and> cb_policy_ok p
    \<and> (0 < cbc_FailureThreshold (ab_CircuitBreaker a) \<longrightarrow> cp_FailureThreshold p = cbc_FailureThreshold (ab_CircuitBreaker a))
    \<and> (ab_CircuitBreaker a = \<lparr>cbc_FailureThreshold = 0, cbc_ResetTimeout = [], cbc_ProbeTimeout = []\<rparr>
        \<and> cb_policy_ok fallback \<longrightarrow> p = fallback)"
proof -
  let ?cbc = "ab_CircuitBreaker a"
  have "timeout_ok (cbc_ResetTimeout ?cbc)" "timeout_ok (cbc_ProbeTimeout ?cbc)"
    using assms by (auto simp: ValidateManifest_None manifest_ok_def agent_ok_def)
  then obtain p where p: "CircuitBreakerPolicyFromConfig ?cbc fallback = Inr p"
    using CircuitBreakerPolicyFromConfig_total by blast
  obtain q where q: "p = cb_finish q" "0 < cbc_FailureThreshold ?cbc \<longrightarrow> cp_FailureThreshold q = cbc_FailureThreshold ?cbc"
    using p by (auto simp: CircuitBreakerPolicyFromConfig_def Let_def split: sum.splits if_splits)
  have "p = fallback" if "?cbc = \<lparr>cbc_FailureThreshold = 0, cbc_ResetTimeout = [], cbc_ProbeTimeout = []\<rparr>" "cb_policy_ok fallback"
    using p that by (auto simp: CircuitBreakerPolicyFromConfig_def cb_finish_def cb_policy_ok_def Let_def)
  with p q cb_finish_ok [of q] show ?thesis by (auto simp: cb_finish_def Let_def)
qed

theorem agent_breaker_policy_witness:
  "\<exists>p. CircuitBreakerPolicyFromConfig (ab_CircuitBreaker (plain_agent ''rank''))
      \<lparr>cp_FailureThreshold = 5, cp_ResetTimeout = 7, cp_ProbeTimeout = 0\<rparr> = Inr p
    \<and> cb_policy_ok p \<and> cp_FailureThreshold p = 3"
proof -
  have "plain_agent ''rank'' \<in> set (mf_Agents sample_manifest)" by (simp add: sample_manifest_def)
  from agent_breaker_policy [OF sample_manifest_valid this]
  show ?thesis by (fastforce simp: plain_agent_def)
qed

lemma parseOrDefault_ok:
  assumes "\<forall>r \<in> set vals. \<exists>role. ParseRole r = Inr role" and "\<forall>r \<in> set dflt. known_role r"
  shows "\<exists>roles. parseOrDefault vals dflt = Inr roles \<and> (\<forall>r \<in> set roles. known_role r)"
proof (cases "vals = []")
  case False
  obtain roles where "ParseRoles vals = Inr roles" using ParseRoles_ok [OF assms(1)] by blast
  with ParseRoles_known False show ?thesis by (auto simp: parseOrDefault_def)
qed (use assms in \<open>simp add: parseOrDefault_def\<close>)

text \<open>
  Access control of a validated manifest. The policy can always be built; it covers the four
  actions and no other; only known roles are ever allowed; and an action with no entry in the
  manifest keeps the roles of the default policy.
\<close>

theorem manifest_policy:
  assumes "ValidateManifest m = None"
  shows "\<exists>p. RBACPolicyFromManifest m = Inr p
    \<and> (\<forall>r a. IsAllowed p r a \<longrightarrow> known_role r \<and> a \<in> {ActionRun, ActionValidate, ActionReplay, ActionAdmin})
    \<and> (rs_RBAC (mf_Router m) = \<lparr>rb_RunRoles = [], rb_ValidateRoles = [], rb_ReplayRoles = [], rb_AdminRoles = []\<rparr>
        \<longrightarrow> p = DefaultPolicy)"
proof -
  let ?rbac = "rs_RBAC (mf_Router m)"
  have roles: "\<forall>r \<in> set (rbac_roles m). \<exists>role. ParseRole r = Inr role"
    using assms by (simp add: ValidateManifest_None manifest_ok_def)
  have known: "known_role RoleViewer" "known_role RoleOperator" "known_role RoleAdmin"
    by (simp_all add: known_role_def)
  obtain r1 where r1: "parseOrDefault (rb_RunRoles ?rbac) [RoleOperator, RoleAdmin] = Inr r1" "\<forall>r \<in> set r1. known_role r"
    using parseOrDefault_ok [of "rb_RunRoles ?rbac" "[RoleOperator, RoleAdmin]"] roles known
    by (auto simp: rbac_roles_def Let_def)
  obtain r2 where r2: "parseOrDefault (rb_ValidateRoles ?rbac) [RoleViewer, RoleOperator, RoleAdmin] = Inr r2" "\<forall>r \<in> set r2. known_role r"
    using parseOrDefault_ok [of "rb_ValidateRoles ?rbac" "[RoleViewer, RoleOperator, RoleAdmin]"] roles known
    by (auto simp: rbac_roles_def Let_def)
  obtain r3 where r3: "parseOrDefault (rb_ReplayRoles ?rbac) [RoleOperator, RoleAdmin] = Inr r3" "\<forall>r \<in> set r3. known_role r"
    using parseOrDefault_ok [of "rb_ReplayRoles ?rbac" "[RoleOperator, RoleAdmin]"] roles known
    by (auto simp: rbac_roles_def Let_def)
  obtain r4 where r4: "parseOrDefault (rb_AdminRoles ?rbac) [RoleAdmin] = Inr r4" "\<forall>r \<in> set r4. known_role r"
    using parseOrDefault_ok [of "rb_AdminRoles ?rbac" "[RoleAdmin]"] roles known
    by (auto simp: rbac_roles_def Let_def)
  have p: "RBACPolicyFromManifest m = Inr (NewPolicy [ActionRun \<mapsto> r1, ActionValidate \<mapsto> r2, ActionReplay \<mapsto> r3, ActionAdmin \<mapsto> r4])"
    by (simp add: RBACPolicyFromManifest_def r1 r2 r3 r4)
  show ?thesis
  proof (intro exI conjI allI impI)
    show "RBACPolicyFromManifest m = Inr (NewPolicy [ActionRun \<mapsto> r1, ActionValidate \<mapsto> r2, ActionReplay \<mapsto> r3, ActionAdmin \<mapsto> r4])"
      by (fact p)
    fix r a
    assume "IsAllowed (NewPolicy [ActionRun \<mapsto> r1, ActionValidate \<mapsto> r2, ActionReplay \<mapsto> r3, ActionAdmin \<mapsto> r4]) r a"
    then show "known_role r" and "a \<in> {ActionRun, ActionValidate, ActionReplay, ActionAdmin}"
      using r1 r2 r3 r4 by (auto simp: IsAllowed_def NewPolicy_def split: if_splits)
  next
    assume "?rbac = \<lparr>rb_RunRoles = [], rb_ValidateRoles = [], rb_ReplayRoles = [], rb_AdminRoles = []\<rparr>"
    then show "NewPolicy [ActionRun \<mapsto> r1, ActionValidate \<mapsto> r2, ActionReplay \<mapsto> r3, ActionAdmin \<mapsto> r4] = DefaultPolicy"
      using r1 r2 r3 r4 by (simp add: parseOrDefault_def DefaultPolicy_def)
  qed
qed

theorem manifest_policy_witness:
  "\<exists>p. RBACPolicyFromManifest sample_manifest = Inr p
    \<and> (\<forall>r a. IsAllowed p r a \<longrightarrow> known_role r \<and> a \<in> {ActionRun, ActionValidate, ActionReplay, ActionAdmin})"
  using manifest_policy [OF sample_manifest_valid] by blast

text \<open>
  A namespace that is accepted is safe to build names from: 2 to 32 characters, all lower-case
  letters, digits, \<open>_\<close> or \<open>-\<close> (so no path separator and no dot), and normalizing it again changes
  nothing. For a validated manifest there always is one.
\<close>

theorem namespace_safe:
  assumes "ValidateManifest m = None"
  shows "\<exists>ns. NamespaceFromManifest m = Inr ns \<and> 2 \<le> length ns \<and> length ns \<le> 32
    \<and> (\<forall>c \<in> set ns. namespace_char c) \<and> CHR ''/'' \<notin> set ns \<and> CHR ''.'' \<notin> set ns \<and> Normalize ns = ns"
proof -
  let ?ns = "Normalize (rs_Namespace (mf_Router m))"
  have pat: "namespacePattern ?ns"
    using assms by (auto simp: ValidateManifest_None manifest_ok_def)
  then have "NamespaceFromManifest m = Inr ?ns"
    by (simp add: NamespaceFromManifest_def Validate_def Normalize_fixed Let_def)
  moreover have "\<not> namespace_char CHR ''/''" "\<not> namespace_char CHR ''.''"
    by (simp_all add: namespace_char_def lower_letter_def)
  ultimately show ?thesis
    using namespacePattern_length [OF pat] namespacePattern_chars [OF pat] Normalize_fixed [OF pat] by auto
qed

theorem namespace_safe_witness:
  "\<exists>ns. NamespaceFromManifest sample_manifest = Inr ns \<and> length ns \<le> 32 \<and> CHR ''/'' \<notin> set ns"
  using namespace_safe [OF sample_manifest_valid] by blast

text \<open>
  Validation does not cover the router's own timeout: a manifest passes validation with a
  \<open>default_timeout\<close> that does not parse, and only a later run fails on it.
\<close>

theorem default_timeout_not_validated:
  "\<exists>m. ValidateManifest m = None \<and> (\<forall>base. \<exists>err. RouterConfigFromManifest m base = Inl err)"
proof -
  let ?m = "sample_manifest\<lparr>mf_Router := (mf_Router sample_manifest)\<lparr>rs_DefaultTimeout := ''soon''\<rparr>\<rparr>"
  have "ValidateManifest ?m = None"
    using sample_manifest_valid unfolding ValidateManifest_None
    by (simp add: manifest_ok_def rbac_roles_def pipeline_ok_def pipeline_edges_def)
  moreover have "parse_duration ''soon'' = Inl (invalid_duration ''soon'')"
    by (simp add: parse_duration_def split_sign_def duration_loop.simps duration_part_def unit_char_def is_digit_def)
  then have "\<exists>err. RouterConfigFromManifest ?m base = Inl err" for base
    by (simp add: RouterConfigFromManifest_def Let_def)
  ultimately show ?thesis by blast
qed

end
