(* ===== verification/App.thy ===== *)
theory App
  imports Config PlanGraph Registry
begin

text \<open>
  The parts of \<open>src/internal/app/run.go\<close> between a manifest and the engine: the execution plan, the
  registry, and the built-in agents. The built-in agents look at their context, sleep and count
  their attempts per request; the context and the timer are parameters (\<open>poll\<close> for the
  non-blocking look, \<open>nap\<close> for the wait), the counters are part of the world.
\<close>

section \<open>Built-in agents\<close>

record 'x demo_world =
  dw_attempts :: "string \<Rightarrow> string \<rightharpoonup> go_int"
  dw_env :: 'x

definition demo_payload :: "string \<Rightarrow> AgentInput \<Rightarrow> go_int \<Rightarrow> bytes" where
  "demo_payload agentID inp attempt =
     byte_string [123, 34] @ ''agent'' @ byte_string [34, 58, 34] @ agentID @ byte_string [34, 44, 34] @ ''input''
     @ byte_string [34, 58] @ fmt_q (slice_bytes (ai_Payload inp)) @ byte_string [44, 34] @ ''attempt''
     @ byte_string [34, 58] @ itoa attempt @ byte_string [125]"

definition deterministicAgent ::
  "(duration \<Rightarrow> 'x \<Rightarrow> goerr option \<times> 'x) \<Rightarrow> (duration \<Rightarrow> duration \<Rightarrow> 'x \<Rightarrow> goerr option \<times> 'x)
   \<Rightarrow> string \<Rightarrow> 'x demo_world AgentFunc" where
  "deterministicAgent poll nap agentID budget inp w =
     (case poll budget (dw_env w) of
        (Some err, x) \<Rightarrow> (Returned empty_output (Some err), w\<lparr>dw_env := x\<rparr>)
      | (None, x) \<Rightarrow>
          (let attempt = wrap64 (map_get 0 (dw_attempts w agentID) (ai_RequestID inp) + 1);
               w = w\<lparr>dw_env := x,
                     dw_attempts := (dw_attempts w)(agentID := (dw_attempts w agentID)(ai_RequestID inp \<mapsto> attempt))\<rparr>;
               answer = empty_output\<lparr>ao_RequestID := ai_RequestID inp,
                                     ao_Payload := Some (demo_payload agentID inp attempt)\<rparr>
           in if has_prefix agentID ''panic_''
              then (Panicked ''forced panic for test/runtime validation'', w)
              else if has_prefix agentID ''fail_''
              then (Returned empty_output (Some (Errorf ''forced failure'')), w)
              else if has_prefix agentID ''flaky_'' \<and> attempt = 1
              then (Returned empty_output (Some (Errorf ''forced transient failure'')), w)
              else if has_prefix agentID ''slow_''
              then (case nap budget (200 * millisecond) (dw_env w) of
                      (Some err, x) \<Rightarrow> (Returned empty_output (Some err), w\<lparr>dw_env := x\<rparr>)
                    | (None, x) \<Rightarrow> (Returned answer None, w\<lparr>dw_env := x\<rparr>))
              else (Returned answer None, w)))"

section \<open>Registries\<close>

fun register_all :: "(string \<Rightarrow> 'f) \<Rightarrow> string list \<Rightarrow> 'f registry \<Rightarrow> 'f registry" where
  "register_all mk [] r = r"
| "register_all mk (a # as) r = register_all mk as (snd (Register a (Some (mk a)) r))"

definition newGenericRegistry :: "(string \<Rightarrow> 'f) \<Rightarrow> string list \<Rightarrow> 'f registry" where
  "newGenericRegistry mk agentIDs = register_all mk agentIDs NewRegistry"

fun build_registry_loop :: "(string \<Rightarrow> 'f) \<Rightarrow> AgentBinding list \<Rightarrow> 'f registry \<Rightarrow> 'f registry result" where
  "build_registry_loop mk [] r = Inr r"
| "build_registry_loop mk (a # as) r =
     (case Register (ab_ID a) (Some (mk (ab_ID a))) r of
        (Some err, r') \<Rightarrow> Inl (WrapErr (''register agent '' @ fmt_q (ab_ID a) @ '': '') err [])
      | (None, r') \<Rightarrow> build_registry_loop mk as r')"

definition buildRegistry :: "(string \<Rightarrow> 'f) \<Rightarrow> Manifest \<Rightarrow> 'f registry result" where
  "buildRegistry mk manifest = build_registry_loop mk (mf_Agents manifest) (newGenericRegistry mk [])"

section \<open>The execution plan\<close>

fun agent_policies ::
  "AgentBinding list \<Rightarrow> CircuitBreakerPolicy \<Rightarrow> (string \<rightharpoonup> RetryPolicy) \<Rightarrow> (string \<rightharpoonup> CircuitBreakerPolicy)
   \<Rightarrow> ((string \<rightharpoonup> RetryPolicy) \<times> (string \<rightharpoonup> CircuitBreakerPolicy)) result" where
  "agent_policies [] defaultCB retryByAgent cbByAgent = Inr (retryByAgent, cbByAgent)"
| "agent_policies (a # as) defaultCB retryByAgent cbByAgent =
     (let retryByAgent = retryByAgent(ab_ID a \<mapsto> RetryPolicyFromConfig (ab_Retry a)) in
      case CircuitBreakerPolicyFromConfig (ab_CircuitBreaker a) defaultCB of
        Inl err \<Rightarrow> Inl (WrapErr (''agent '' @ fmt_q (ab_ID a) @ '' circuit breaker policy: '') err [])
      | Inr cbPolicy \<Rightarrow> agent_policies as defaultCB retryByAgent (cbByAgent(ab_ID a \<mapsto> cbPolicy)))"

definition invocation_id :: "nat \<Rightarrow> PipelineStep \<Rightarrow> string" where
  "invocation_id i step = fmt_04d (i + 1) @ ''_'' @ ps_Step step"

fun invocation_ids :: "nat \<Rightarrow> PipelineStep list \<Rightarrow> (string \<rightharpoonup> string) \<Rightarrow> (string \<rightharpoonup> string)" where
  "invocation_ids i [] m = m"
| "invocation_ids i (step # steps) m = invocation_ids (i + 1) steps (m(ps_Step step \<mapsto> invocation_id i step))"

definition hello_payload :: bytes where
  "hello_payload = byte_string [123, 34] @ ''message'' @ byte_string [34, 58, 34] @ ''hello'' @ byte_string [34, 125]"

definition step_metadata :: "string \<Rightarrow> string \<Rightarrow> (string, string) mapping" where
  "step_metadata namespace step =
     Mapping.update ''namespace'' namespace (Mapping.update ''tool_name'' step
       (Mapping.update ''pipeline_step'' step Mapping.empty))"

text \<open>The zero values a missing key of the policy maps would give.\<close>

definition plan_node ::
  "string \<Rightarrow> string \<Rightarrow> (string \<rightharpoonup> string) \<Rightarrow> (string \<rightharpoonup> RetryPolicy) \<Rightarrow> (string \<rightharpoonup> CircuitBreakerPolicy)
   \<Rightarrow> time \<Rightarrow> nat \<Rightarrow> PipelineStep \<Rightarrow> PlanNode" where
  "plan_node namespace taskID idByStep retryByAgent cbByAgent now i step =
     \<lparr>pn_Invocation =
        \<lparr>inv_ID = map_get [] idByStep (ps_Step step), inv_AgentID = ps_Step step,
         inv_Input = \<lparr>ai_TaskID = taskID, ai_RequestID = ''req_'' @ fmt_04d (i + 1),
                      ai_Payload = Some hello_payload,
                      ai_Metadata = Some (step_metadata namespace (ps_Step step)), ai_Timestamp = now\<rparr>\<rparr>,
      pn_DependsOn = (if ps_DependsOn step \<noteq> [] then [map_get [] idByStep (ps_DependsOn step)] else []),
      pn_RetryPolicy = map_get default_retry retryByAgent (ps_Step step),
      pn_CircuitBreakerPolicy = map_get default_breaker cbByAgent (ps_Step step)\<rparr>"

fun plan_nodes ::
  "('w \<Rightarrow> time \<times> 'w) \<Rightarrow> (time \<Rightarrow> nat \<Rightarrow> PipelineStep \<Rightarrow> PlanNode) \<Rightarrow> nat \<Rightarrow> PipelineStep list \<Rightarrow> 'w
   \<Rightarrow> PlanNode list \<times> 'w" where
  "plan_nodes now node i [] w = ([], w)"
| "plan_nodes now node i (step # steps) w =
     (case now w of (t, w) \<Rightarrow>
      case plan_nodes now node (i + 1) steps w of (nodes, w) \<Rightarrow> (node t i step # nodes, w))"

definition buildExecutionPlan ::
  "('w \<Rightarrow> time \<times> 'w) \<Rightarrow> Manifest \<Rightarrow> string \<Rightarrow> CircuitBreakerPolicy \<Rightarrow> 'w \<Rightarrow> ExecutionPlan result \<times> 'w" where
  "buildExecutionPlan now manifest namespace defaultCB w =
     (case OrderedPipeline manifest of
        Inl err \<Rightarrow> (Inl (WrapErr ''order pipeline: '' err []), w)
      | Inr orderedSteps \<Rightarrow>
          (case agent_policies (mf_Agents manifest) defaultCB Map.empty Map.empty of
             Inl err \<Rightarrow> (Inl err, w)
           | Inr (retryByAgent, cbByAgent) \<Rightarrow>
               (let idByStep = invocation_ids 0 orderedSteps Map.empty;
                    taskID = namespace @ ''.task_demo''
                in case plan_nodes now (plan_node namespace taskID idByStep retryByAgent cbByAgent) 0 orderedSteps w of
                     (nodes, w) \<Rightarrow> (Inr \<lparr>ep_TaskID = taskID, ep_Nodes = nodes\<rparr>, w))))"

section \<open>Replay and access control\<close>

definition uniqueAgentIDs :: "ExecutionTrace \<Rightarrow> string list" where
  "uniqueAgentIDs tr =
     sort_strings (remdups (filter (\<lambda>a. a \<noteq> [] \<and> a \<noteq> ''router'') (map s_AgentID (t_Steps tr))))"

definition currentRole :: "(string \<Rightarrow> string) \<Rightarrow> Role" where
  "currentRole getenv = (case ParseRole (getenv ''REQUEST_ROLE'') of Inr r \<Rightarrow> r | Inl _ \<Rightarrow> RoleOperator)"

definition authorize :: "(string \<Rightarrow> string) \<Rightarrow> Policy \<Rightarrow> Action \<Rightarrow> goerr option" where
  "authorize getenv policy action =
     (let role = currentRole getenv in
      if \<not> IsAllowed policy role action
      then Some (Errorf (''rbac denied: role '' @ fmt_q role @ '' cannot perform '' @ fmt_q action))
      else None)"

definition envBool :: "(string \<Rightarrow> string) \<Rightarrow> string \<Rightarrow> bool" where
  "envBool getenv key =
     (let v = to_lower (trim_space (getenv key)) in v = ''1'' \<or> v = ''true'' \<or> v = ''yes'' \<or> v = ''on'')"

definition metricsAddr :: "(string \<Rightarrow> string) \<Rightarrow> string" where
  "metricsAddr getenv = (let v = trim_space (getenv ''METRICS_ADDR'') in if v \<noteq> [] then v else '':2112'')"

section \<open>The plan of a manifest\<close>

lemma plan_nodes_nth:
  "\<exists>ts. fst (plan_nodes now node i steps w) = map (\<lambda>k. node (ts k) (i + k) (steps ! k)) [0..<length steps]"
proof (induction steps arbitrary: i w)
  case (Cons step steps)
  obtain t w' where now: "now w = (t, w')" by fastforce
  from Cons.IH [of "i + 1" w'] obtain ts where
    ts: "fst (plan_nodes now node (i + 1) steps w') = map (\<lambda>k. node (ts k) (i + 1 + k) (steps ! k)) [0..<length steps]"
    by blast
  have "map (\<lambda>k. node (case k of 0 \<Rightarrow> t | Suc j \<Rightarrow> ts j) (i + k) ((step # steps) ! k)) [0..<Suc (length steps)]
      = node t i step # map (\<lambda>k. node (ts k) (i + 1 + k) (steps ! k)) [0..<length steps]"
    by (simp add: upt_conv_Cons map_Suc_upt [symmetric] del: upt_Suc)
  with ts now show ?case
    by (intro exI [of _ "\<lambda>k. case k of 0 \<Rightarrow> t | Suc j \<Rightarrow> ts j"]) (auto split: prod.splits simp del: upt_Suc)
qed simp

lemma invocation_ids_other: "name \<notin> set (map ps_Step steps) \<Longrightarrow> invocation_ids i steps m name = m name"
  by (induction steps arbitrary: i m) auto

lemma invocation_ids_nth:
  "distinct (map ps_Step steps) \<Longrightarrow> k < length steps \<Longrightarrow>
   invocation_ids i steps m (ps_Step (steps ! k)) = Some (invocation_id (i + k) (steps ! k))"
proof (induction steps arbitrary: i m k)
  case (Cons p steps)
  then show ?case by (cases k) (auto simp: invocation_ids_other)
qed simp

lemma agent_policies_total:
  assumes "\<forall>a \<in> set as. agent_ok a"
  shows "\<exists>r. agent_policies as cb rm cm = Inr r"
  using assms
proof (induction as arbitrary: rm cm)
  case (Cons a as)
  then obtain p where "CircuitBreakerPolicyFromConfig (ab_CircuitBreaker a) cb = Inr p"
    using CircuitBreakerPolicyFromConfig_total by (force simp: agent_ok_def)
  with Cons show ?case by (simp add: Let_def)
qed simp

lemma invocation_id_inj: "invocation_id i s = invocation_id j t \<Longrightarrow> i = j"
  unfolding invocation_id_def by (drule fmt_04d_tag_inj) simp

lemma buildExecutionPlan_nodes:
  assumes "ValidateManifest m = None" and "OrderedPipeline m = Inr ordered"
  shows "\<exists>plan w'. buildExecutionPlan now m namespace cb w = (Inr plan, w')
    \<and> length (ep_Nodes plan) = length ordered
    \<and> (\<forall>k < length ordered. node_id (ep_Nodes plan ! k) = invocation_id k (ordered ! k)
        \<and> inv_AgentID (pn_Invocation (ep_Nodes plan ! k)) = ps_Step (ordered ! k)
        \<and> (pn_DependsOn (ep_Nodes plan ! k) = [] \<and> ps_DependsOn (ordered ! k) = []
           \<or> (\<exists>i < k. pn_DependsOn (ep_Nodes plan ! k) = [invocation_id i (ordered ! i)]
                \<and> ps_Step (ordered ! i) = ps_DependsOn (ordered ! k))))"
proof -
  have ok: "manifest_ok m" using assms(1) by (simp add: ValidateManifest_None)
  then have pok: "pipeline_ok m" and agents: "\<forall>a \<in> set (mf_Agents m). agent_ok a" by (simp_all add: manifest_ok_def)
  note order = OrderedPipeline_order [OF pok assms(2)]
  obtain rm cm where pol: "agent_policies (mf_Agents m) cb Map.empty Map.empty = Inr (rm, cm)"
    using agent_policies_total [OF agents, of cb Map.empty Map.empty] by (auto simp del: agent_policies.simps)
  have dist: "distinct (map ps_Step ordered)"
    using pok order(1) unfolding pipeline_ok_def by (metis mset_eq_imp_distinct_iff mset_map)
  define ids where "ids = invocation_ids 0 ordered Map.empty"
  have ids: "map_get [] ids (ps_Step (ordered ! k)) = invocation_id k (ordered ! k)" if "k < length ordered" for k
    using invocation_ids_nth [OF dist that, of 0 Map.empty] by (simp add: ids_def map_get_def)
  let ?node = "plan_node namespace (namespace @ ''.task_demo'') ids rm cm"
  obtain ts where ts: "fst (plan_nodes now ?node 0 ordered w) = map (\<lambda>k. ?node (ts k) (0 + k) (ordered ! k)) [0..<length ordered]"
    using plan_nodes_nth [of now ?node 0 ordered w] by (elim exE)
  obtain nodes w' where pn: "plan_nodes now ?node 0 ordered w = (nodes, w')" by fastforce
  define plan where "plan = \<lparr>ep_TaskID = namespace @ ''.task_demo'', ep_Nodes = nodes\<rparr>"
  have run: "buildExecutionPlan now m namespace cb w = (Inr plan, w')"
    using assms(2) pol pn by (simp add: buildExecutionPlan_def Let_def ids_def plan_def)
  have nodes: "ep_Nodes plan = map (\<lambda>k. ?node (ts k) k (ordered ! k)) [0..<length ordered]"
    using ts pn by (simp add: plan_def)
  have "\<exists>i < k. pn_DependsOn (ep_Nodes plan ! k) = [invocation_id i (ordered ! i)]
      \<and> ps_Step (ordered ! i) = ps_DependsOn (ordered ! k)"
    if k: "k < length ordered" "ps_DependsOn (ordered ! k) \<noteq> []" for k
  proof -
    obtain i where "i < k" "ps_Step (ordered ! i) = ps_DependsOn (ordered ! k)"
      using order(2) k by (auto simp: topological_def)
    with k ids [of i] show ?thesis by (intro exI [of _ i]) (simp add: nodes plan_node_def)
  qed
  with run ids show ?thesis
    by (intro exI [of _ plan] exI [of _ w']) (auto simp: nodes plan_node_def)
qed

lemma plan_of_nodes_accepted:
  assumes ne: "ordered \<noteq> []" and len: "length (ep_Nodes plan) = length ordered"
    and node: "\<forall>k < length ordered. node_id (ep_Nodes plan ! k) = invocation_id k (ordered ! k)
        \<and> (pn_DependsOn (ep_Nodes plan ! k) = []
           \<or> (\<exists>i < k. pn_DependsOn (ep_Nodes plan ! k) = [invocation_id i (ordered ! i)]))"
  shows "\<exists>g. buildGraph plan = Inr g"
proof -
  let ?id = "\<lambda>k. invocation_id k (ordered ! k)"
  have ids: "plan_ids plan = map ?id [0..<length ordered]"
    using len node by (auto simp: plan_ids_def intro: nth_equalityI)
  have inj: "inj ?id" by (rule injI) (rule invocation_id_inj)
  have edge: "\<exists>i k. i < k \<and> k < length ordered \<and> e = (?id i, ?id k)" if "e \<in> set (plan_edges plan)" for e
  proof -
    from that obtain n d where n: "n \<in> set (ep_Nodes plan)" "d \<in> set (pn_DependsOn n)" "e = (d, node_id n)"
      by (auto simp: plan_edges_def)
    from n(1) obtain k where k: "k < length ordered" "n = ep_Nodes plan ! k" using len by (metis in_set_conv_nth)
    with node n(2,3) show ?thesis by fastforce
  qed
  define pos where "pos x = (THE k. ?id k = x)" for x
  have pos: "pos (?id k) = k" for k unfolding pos_def using inj by (auto dest: injD)
  have "set (plan_edges plan) \<subseteq> measure pos"
  proof
    fix e
    assume "e \<in> set (plan_edges plan)"
    then obtain i k where "i < k" "e = (?id i, ?id k)" using edge by blast
    then show "e \<in> measure pos" by (simp add: pos)
  qed
  then have "acyclic (set (plan_edges plan))" using acyclic_subset wf_acyclic wf_measure by blast
  moreover have "plan_wellformed plan"
    unfolding plan_wellformed_def
  proof (intro conjI ballI)
    show "ep_Nodes plan \<noteq> []" using ne len by auto
    show "[] \<notin> set (plan_ids plan)" by (auto simp: ids invocation_id_def)
    show "distinct (plan_ids plan)" unfolding ids distinct_map using inj by (auto intro: inj_on_subset)
    fix e
    assume "e \<in> set (plan_edges plan)"
    then obtain i k where e: "i < k" "k < length ordered" "e = (?id i, ?id k)" using edge by blast
    then show "fst e \<in> set (plan_ids plan)" by (auto simp: ids)
    show "fst e \<noteq> snd e" using e injD [OF inj, of i k] by auto
  qed
  ultimately show ?thesis unfolding buildGraph_Inr_iff by blast
qed

lemma build_registry_loop_list:
  "register_list Register (map (\<lambda>a. (ab_ID a, mk (ab_ID a))) as) r = (None, r') \<Longrightarrow>
   build_registry_loop mk as r = Inr r'"
  by (induction as arbitrary: r) (auto split: prod.splits option.splits)

lemma buildRegistry_ok:
  assumes "manifest_ok m"
  shows "\<exists>r. buildRegistry mk m = Inr r \<and>
    (\<forall>a. registry_get a r = (if a \<in> set (map ab_ID (mf_Agents m)) then Some (mk a) else None))"
proof -
  let ?xs = "map (\<lambda>a. (ab_ID a, mk (ab_ID a))) (mf_Agents m)"
  have empty: "registry_get a NewRegistry = None" for a
    by (simp add: registry_get_def GetVersion_def NewRegistry_def Let_def)
  have "distinct (map fst ?xs)" "\<forall>x \<in> set ?xs. fst x \<noteq> [] \<and> registry_get (fst x) NewRegistry = None"
    using assms empty by (auto simp: manifest_ok_def agent_ok_def o_def)
  from registry.register_list_get [OF this] obtain r where
    reg: "register_list Register ?xs NewRegistry = (None, r)"
    and get: "\<forall>b. registry_get b r = (case map_of ?xs b of None \<Rightarrow> registry_get b NewRegistry | Some f \<Rightarrow> Some f)"
    by blast
  have look: "map_of ?xs a = (if a \<in> set (map ab_ID (mf_Agents m)) then Some (mk a) else None)" for a
  proof -
    have "map_of (map (\<lambda>a. (ab_ID a, mk (ab_ID a))) as) a = (if a \<in> set (map ab_ID as) then Some (mk a) else None)"
      for as :: "AgentBinding list" by (induction as) auto
    then show ?thesis .
  qed
  have "buildRegistry mk m = Inr r"
    using build_registry_loop_list [OF reg] by (simp add: buildRegistry_def newGenericRegistry_def)
  with get empty look show ?thesis by auto
qed

lemma manifest_runnable:
  assumes "ValidateManifest m = None"
  shows "\<exists>r plan w' g. buildRegistry mk m = Inr r \<and> buildExecutionPlan now m namespace cb w = (Inr plan, w')
    \<and> buildGraph plan = Inr g
    \<and> mset (map (\<lambda>n. inv_AgentID (pn_Invocation n)) (ep_Nodes plan)) = mset (step_names m)
    \<and> (\<forall>n \<in> set (ep_Nodes plan). registry_get (inv_AgentID (pn_Invocation n)) r = Some (mk (inv_AgentID (pn_Invocation n))))
    \<and> (\<forall>n \<in> set (ep_Nodes plan). \<exists>p \<in> set (mf_Pipeline m). ps_Step p = inv_AgentID (pn_Invocation n)
         \<and> map (\<lambda>d. map_option (inv_AgentID \<circ> pn_Invocation) (plan_nodesByID plan d)) (pn_DependsOn n)
             = (if ps_DependsOn p = [] then [] else [Some (ps_DependsOn p)]))"
proof -
  have ok: "manifest_ok m" and pok: "pipeline_ok m" and acyc: "acyclic (set (pipeline_edges m))"
    using assms by (simp_all add: ValidateManifest_None manifest_ok_def)
  obtain ordered where ord: "OrderedPipeline m = Inr ordered" using OrderedPipeline_ok_iff [OF pok] acyc by blast
  note order = OrderedPipeline_order [OF pok ord]
  obtain plan w' where run: "buildExecutionPlan now m namespace cb w = (Inr plan, w')"
    and len: "length (ep_Nodes plan) = length ordered"
    and nodes: "\<forall>k < length ordered. node_id (ep_Nodes plan ! k) = invocation_id k (ordered ! k)
        \<and> inv_AgentID (pn_Invocation (ep_Nodes plan ! k)) = ps_Step (ordered ! k)
        \<and> (pn_DependsOn (ep_Nodes plan ! k) = [] \<and> ps_DependsOn (ordered ! k) = []
           \<or> (\<exists>i < k. pn_DependsOn (ep_Nodes plan ! k) = [invocation_id i (ordered ! i)]
                \<and> ps_Step (ordered ! i) = ps_DependsOn (ordered ! k)))"
    using buildExecutionPlan_nodes [OF assms ord, of now namespace cb w] by blast
  have "ordered \<noteq> []" using ok order(1) by (auto simp: manifest_ok_def)
  from plan_of_nodes_accepted [OF this len] nodes obtain g where g: "buildGraph plan = Inr g" by blast
  obtain r where reg: "buildRegistry mk m = Inr r"
    and get: "\<forall>a. registry_get a r = (if a \<in> set (map ab_ID (mf_Agents m)) then Some (mk a) else None)"
    using buildRegistry_ok [OF ok] by blast
  have agents: "map (\<lambda>n. inv_AgentID (pn_Invocation n)) (ep_Nodes plan) = map ps_Step ordered"
    using len nodes by (auto intro: nth_equalityI)
  then have perm: "mset (map (\<lambda>n. inv_AgentID (pn_Invocation n)) (ep_Nodes plan)) = mset (step_names m)"
    using order(1) by (metis mset_map)
  have "set (step_names m) \<subseteq> set (map ab_ID (mf_Agents m))" using ok by (simp add: manifest_ok_def)
  then have reg_all: "\<forall>n \<in> set (ep_Nodes plan). registry_get (inv_AgentID (pn_Invocation n)) r
      = Some (mk (inv_AgentID (pn_Invocation n)))"
    using get mset_eq_setD [OF perm] by (auto simp del: set_map) (metis image_eqI list.set_map subsetD)
  have "\<exists>p \<in> set (mf_Pipeline m). ps_Step p = inv_AgentID (pn_Invocation n)
      \<and> map (\<lambda>d. map_option (inv_AgentID \<circ> pn_Invocation) (plan_nodesByID plan d)) (pn_DependsOn n)
          = (if ps_DependsOn p = [] then [] else [Some (ps_DependsOn p)])" if n: "n \<in> set (ep_Nodes plan)" for n
  proof -
    obtain k where k: "k < length ordered" "n = ep_Nodes plan ! k" using n len by (metis in_set_conv_nth)
    have dist: "distinct (map node_id (ep_Nodes plan))"
      using buildGraph_illformed [OF g] by (simp add: plan_wellformed_def plan_ids_def)
    have look: "plan_nodesByID plan (invocation_id i (ordered ! i)) = Some (ep_Nodes plan ! i)" if "i < length ordered" for i
    proof -
      have "(node_id (ep_Nodes plan ! i), ep_Nodes plan ! i) \<in> set (map (\<lambda>n. (node_id n, n)) (ep_Nodes plan))"
        using that len by simp
      with dist have "plan_nodesByID plan (node_id (ep_Nodes plan ! i)) = Some (ep_Nodes plan ! i)"
        unfolding plan_nodesByID_def by (intro map_of_is_SomeI) (simp_all add: o_def)
      with nodes that show ?thesis by simp
    qed
    have "ordered ! k \<in> set (mf_Pipeline m)" using order(1) k(1) by (metis mset_eq_setD nth_mem)
    moreover have "map (\<lambda>d. map_option (inv_AgentID \<circ> pn_Invocation) (plan_nodesByID plan d)) (pn_DependsOn n)
        = (if ps_DependsOn (ordered ! k) = [] then [] else [Some (ps_DependsOn (ordered ! k))])"
    proof (cases "pn_DependsOn (ep_Nodes plan ! k) = [] \<and> ps_DependsOn (ordered ! k) = []")
      case False
      then obtain i where i: "i < k" "pn_DependsOn (ep_Nodes plan ! k) = [invocation_id i (ordered ! i)]"
          "ps_Step (ordered ! i) = ps_DependsOn (ordered ! k)" using nodes k(1) by blast
      have "ordered ! i \<in> set (mf_Pipeline m)" using order(1) i(1) k(1) by (metis less_trans mset_eq_setD nth_mem)
      then have "ps_Step (ordered ! i) \<in> set (step_names m)" by simp
      then have "ps_DependsOn (ordered ! k) \<noteq> []" using pok i(3) unfolding pipeline_ok_def by metis
      with i k nodes look [of i] show ?thesis by simp
    qed (use k in simp)
    ultimately show ?thesis using nodes k by auto
  qed
  with reg run g perm reg_all show ?thesis by blast
qed

text \<open>
  C18: From a validated manifest to a runnable plan. The registry and the execution plan are always
  built; \<open>buildGraph\<close> accepts the plan; it has one node per pipeline step; every node's agent is
  registered with the built-in implementation for its id; and each node depends on exactly the node
  of the step named by its \<open>depends_on\<close>.
\<close>

theorem validated_manifest_runnable:
  assumes "ValidateManifest m = None"
  shows "\<exists>r plan w' g. buildRegistry mk m = Inr r \<and> buildExecutionPlan now m namespace cb w = (Inr plan, w')
    \<and> buildGraph plan = Inr g
    \<and> mset (map (\<lambda>n. inv_AgentID (pn_Invocation n)) (ep_Nodes plan)) = mset (step_names m)
    \<and> (\<forall>n \<in> set (ep_Nodes plan). registry_get (inv_AgentID (pn_Invocation n)) r = Some (mk (inv_AgentID (pn_Invocation n))))
    \<and> (\<forall>n \<in> set (ep_Nodes plan). \<exists>p \<in> set (mf_Pipeline m). ps_Step p = inv_AgentID (pn_Invocation n)
         \<and> map (\<lambda>d. map_option (inv_AgentID \<circ> pn_Invocation) (plan_nodesByID plan d)) (pn_DependsOn n)
             = (if ps_DependsOn p = [] then [] else [Some (ps_DependsOn p)]))"
  by (rule manifest_runnable [OF assms])

theorem validated_manifest_runnable_witness:
  "\<exists>r plan w' g. buildRegistry (\<lambda>a. a) sample_manifest = Inr r
    \<and> buildExecutionPlan (\<lambda>w. (0, w)) sample_manifest ''team_a'' default_breaker () = (Inr plan, w')
    \<and> buildGraph plan = Inr g"
  using validated_manifest_runnable [OF sample_manifest_valid, of "\<lambda>a. a" "\<lambda>w. (0, w)" "''team_a''" default_breaker "()"]
  by blast

end
