(* ===== verification/Replay.thy ===== *)
theory Replay
  imports EngineProps App
begin

text \<open>
  \<open>src/internal/trace/replay.go\<close>: a recorded trace is replayed by calling the agent of every
  invocation once more with the recorded input and comparing the outcome with the last recorded
  attempt.
\<close>

section \<open>Definitions\<close>

definition latest_step :: "(string \<rightharpoonup> Step) \<Rightarrow> Step \<Rightarrow> (string \<rightharpoonup> Step)" where
  "latest_step m s =
     (case m (s_InvocationID s) of
        None \<Rightarrow> m(s_InvocationID s \<mapsto> s)
      | Some prev \<Rightarrow> if s_Attempt prev \<le> s_Attempt s then m(s_InvocationID s \<mapsto> s) else m)"

definition expectedByInvocation :: "ExecutionTrace \<Rightarrow> (string \<rightharpoonup> Step)" where
  "expectedByInvocation tr = foldl latest_step Map.empty (t_Steps tr)"

text \<open>The keys of that map; the map's own order of iteration is sorted away.\<close>

definition invocation_keys :: "ExecutionTrace \<Rightarrow> string list" where
  "invocation_keys tr = remdups (map s_InvocationID (t_Steps tr))"

definition replay_safeCall ::
  "'w AgentFunc \<Rightarrow> duration \<Rightarrow> AgentInput \<Rightarrow> 'w \<Rightarrow> (AgentOutput \<times> goerr option) \<times> 'w" where
  "replay_safeCall fn timeout inp w =
     (case fn timeout inp w of
        (Returned out err, w') \<Rightarrow> ((out, err), w')
      | (Panicked r, w') \<Rightarrow> ((empty_output, Some (Errorf (''agent panic: '' @ r))), w'))"

text \<open>The comparison of one invocation.\<close>

definition replay_check :: "string \<Rightarrow> Step \<Rightarrow> AgentOutput \<Rightarrow> goerr option \<Rightarrow> goerr option" where
  "replay_check invID expected actualOut actualErr =
     (if s_Error expected \<noteq> [] then
        (case actualErr of
           None \<Rightarrow> Some (Errorf (''trace replay: invocation '' @ invID @ '' expected error '' @ fmt_q (s_Error expected) @ '' but got nil''))
         | Some e \<Rightarrow>
             if err_text e \<noteq> s_Error expected
             then Some (Errorf (''trace replay: invocation '' @ invID @ '' error mismatch: got '' @ fmt_q (err_text e)
                    @ '' want '' @ fmt_q (s_Error expected)))
             else None)
      else
        (case actualErr of
           Some e \<Rightarrow> Some (Errorf (''trace replay: invocation '' @ invID @ '' unexpected error: '' @ err_text e))
         | None \<Rightarrow>
             if ao_RequestID actualOut \<noteq> ao_RequestID (s_Output expected)
             then Some (Errorf (''trace replay: invocation '' @ invID @ '' request_id mismatch: got '' @ fmt_q (ao_RequestID actualOut)
                    @ '' want '' @ fmt_q (ao_RequestID (s_Output expected))))
             else if slice_bytes (ao_Payload actualOut) \<noteq> slice_bytes (ao_Payload (s_Output expected))
             then Some (Errorf (''trace replay: invocation '' @ invID @ '' payload mismatch''))
             else None))"

fun replay_loop ::
  "(string \<Rightarrow> 'w AgentFunc option) \<Rightarrow> duration \<Rightarrow> (string \<rightharpoonup> Step) \<Rightarrow> string list \<Rightarrow> 'w \<Rightarrow> goerr option \<times> 'w" where
  "replay_loop resolve timeout latest [] w = (None, w)"
| "replay_loop resolve timeout latest (invID # ids) w =
     (let expected = map_get empty_step latest invID in
      case resolve (s_AgentID expected) of
        None \<Rightarrow> (Some (Errorf (''trace replay: agent not found: '' @ s_AgentID expected)), w)
      | Some fn \<Rightarrow>
          (case replay_safeCall fn timeout (s_Input expected) w of
             ((actualOut, actualErr), w') \<Rightarrow>
               (case replay_check invID expected actualOut actualErr of
                  Some err \<Rightarrow> (Some err, w')
                | None \<Rightarrow> replay_loop resolve timeout latest ids w')))"

definition ReplayAndCompare ::
  "ExecutionTrace \<Rightarrow> duration \<Rightarrow> (string \<Rightarrow> 'w AgentFunc option) \<Rightarrow> 'w \<Rightarrow> goerr option \<times> 'w" where
  "ReplayAndCompare tr timeout resolve w =
     (if t_Steps tr = [] then (Some (Errorf ''trace replay: no steps to replay''), w)
      else
        (let timeout = (if timeout \<le> 0 then 30 * second else timeout)
         in replay_loop resolve timeout (expectedByInvocation tr) (sort_strings (invocation_keys tr)) w))"

section \<open>The latest step of an invocation\<close>

lemma latest_step_at:
  "latest_step m s i =
     (if s_InvocationID s \<noteq> i then m i
      else case m i of None \<Rightarrow> Some s | Some prev \<Rightarrow> if s_Attempt prev \<le> s_Attempt s then Some s else Some prev)"
proof (cases "s_InvocationID s = i")
  case True
  then show ?thesis by (cases "m i") (simp_all add: latest_step_def)
qed (simp add: latest_step_def split: option.split)

lemma latest_fold_cong:
  assumes "m i = m' i"
  shows "foldl latest_step m ss i = foldl latest_step m' ss i"
  using assms
proof (induction ss arbitrary: m m')
  case (Cons s ss)
  then have "latest_step m s i = latest_step m' s i" by (simp add: latest_step_at)
  from Cons.IH [of "latest_step m s" "latest_step m' s", OF this] show ?case by simp
qed simp

lemma latest_fold_filter:
  "foldl latest_step m ss i = foldl latest_step m (filter (\<lambda>s. s_InvocationID s = i) ss) i"
proof (induction ss arbitrary: m)
  case (Cons s ss)
  show ?case
  proof (cases "s_InvocationID s = i")
    case False
    then have "foldl latest_step (latest_step m s) ss i = foldl latest_step m ss i"
      by (intro latest_fold_cong) (simp add: latest_step_at)
    with False Cons.IH show ?thesis by simp
  qed (simp add: Cons.IH)
qed simp

lemma latest_fold_last:
  assumes "\<forall>s \<in> set ss. s_InvocationID s = i" and "sorted_wrt (<) (map s_Attempt ss)" and "ss \<noteq> []"
  shows "foldl latest_step Map.empty ss i = Some (last ss)"
  using assms
proof (induction ss rule: rev_induct)
  case (snoc s ss)
  show ?case
  proof (cases "ss = []")
    case True
    with snoc.prems show ?thesis by (simp add: latest_step_def)
  next
    case False
    with snoc have "foldl latest_step Map.empty ss i = Some (last ss)" by (simp add: sorted_wrt_append)
    moreover have "s_Attempt (last ss) \<le> s_Attempt s"
      using snoc.prems(2) False by (auto simp: sorted_wrt_append less_imp_le)
    ultimately show ?thesis
      using snoc.prems(1) by (simp add: latest_step_def [of "foldl latest_step Map.empty ss" s])
  qed
qed simp

lemma latest_of_run:
  assumes run: "RunPlan env e plan scheds s = Some (results, tr, s')" and g: "buildGraph plan = Inr g"
    and n: "n \<in> set (ep_Nodes plan)"
  shows "expectedByInvocation tr (node_id n) = Some (last (steps_of tr (node_id n)))"
proof -
  obtain resm log where pr: "plan_run env e plan g resm log"
    and ids: "map result_id results = sort_strings (plan_ids plan)"
    and res: "\<And>n. n \<in> set (ep_Nodes plan) \<Longrightarrow> result_of results (node_id n) = resm (node_id n)"
    and steps: "\<And>n. n \<in> set (ep_Nodes plan) \<Longrightarrow> steps_of tr (node_id n) = map clone_step (log (node_id n))"
    by (rule RunPlan_nodes [OF run g]) (rule that)
  have "node_ok env e g resm n (log (node_id n)) (the (resm (node_id n)))" using pr n by (simp add: plan_run_def)
  note log = node_ok_log [OF this]
  have "foldl latest_step Map.empty (steps_of tr (node_id n)) (node_id n) = Some (last (steps_of tr (node_id n)))"
    by (rule latest_fold_last) (use log in \<open>auto simp: steps [OF n] o_def\<close>)
  then show ?thesis
    unfolding expectedByInvocation_def steps_of_def by (subst latest_fold_filter)
qed

lemma replay_loop_matches:
  assumes "\<forall>i \<in> set ids. \<exists>fn. resolve (s_AgentID (map_get empty_step latest i)) = Some fn
     \<and> (\<forall>w. replay_check i (map_get empty_step latest i)
           (fst (fst (replay_safeCall fn timeout (s_Input (map_get empty_step latest i)) w)))
           (snd (fst (replay_safeCall fn timeout (s_Input (map_get empty_step latest i)) w))) = None)"
  shows "fst (replay_loop resolve timeout latest ids w) = None"
  using assms
proof (induction ids arbitrary: w)
  case (Cons i ids)
  then obtain fn where fn: "resolve (s_AgentID (map_get empty_step latest i)) = Some fn"
    and check: "\<forall>w. replay_check i (map_get empty_step latest i)
           (fst (fst (replay_safeCall fn timeout (s_Input (map_get empty_step latest i)) w)))
           (snd (fst (replay_safeCall fn timeout (s_Input (map_get empty_step latest i)) w))) = None" by auto
  obtain out err w' where call: "replay_safeCall fn timeout (s_Input (map_get empty_step latest i)) w = ((out, err), w')"
    by (metis prod.collapse)
  with check have "replay_check i (map_get empty_step latest i) out err = None" by (metis fst_conv snd_conv)
  with fn call Cons show ?case by (simp add: Let_def)
qed simp

section \<open>Replaying what was recorded\<close>

lemma node_run_ok_called:
  assumes "node_run env cfg fn policy cb invoc k ss r" and "ar_Err r = None"
  shows "ss \<noteq> [] \<and> s_Error (last ss) = [] \<and> s_AgentID (last ss) = inv_AgentID invoc \<and> s_Input (last ss) = inv_Input invoc
    \<and> (\<exists>out d. s_Output (last ss) = with_duration out d \<and> called cfg fn cb invoc out None)"
  using assms by (induction rule: node_run.induct) auto

lemma node_ok_success:
  assumes "node_ok env e g results n ss r" and "ar_Err r = None"
  shows "\<exists>fn. registry_get (inv_AgentID (pn_Invocation n)) (eng_registry e) = Some fn
    \<and> node_run env (eng_cfg e) fn (node_policy (eng_cfg e) n) (node_cb_policy (eng_cfg e) n) (pn_Invocation n) 1 ss r"
  using assms by (auto simp: node_ok_def Let_def split: option.splits)

lemma called_replay:
  assumes "\<And>t t' i w w'. fst (fn t i w) = fst (fn t' i w')" and "called cfg fn cb invoc out None"
  shows "fst (replay_safeCall fn timeout (inv_Input invoc) w) = (out, None)"
proof -
  have "normalizeInvocationError raw = None \<longleftrightarrow> raw = None" for raw
    by (simp add: normalizeInvocationError_def split: option.split)
  with assms(2) obtain t w0 w1 where call: "safeCall fn t (inv_Input invoc) w0 = ((out, None), w1)"
    unfolding called_def by metis
  then have "fst (fn t (inv_Input invoc) w0) = Returned out None"
    by (auto simp: safeCall_def NonRetryable_def split: prod.splits call_outcome.splits)
  then have "fst (fn timeout (inv_Input invoc) w) = Returned out None" using assms(1) by metis
  then show ?thesis by (auto simp: replay_safeCall_def split: prod.splits)
qed

lemma run_trace_ids:
  assumes "RunPlan env e plan scheds s = Some (results, tr, s')" and g: "buildGraph plan = Inr g"
  shows "set (invocation_keys tr) = set (plan_ids plan)"
proof -
  from RunPlan_spec [OF assms] obtain resm log where pr: "plan_run env e plan g resm log"
    and tr: "t_Steps tr = concat (map (\<lambda>i. map clone_step (log i)) (sort_strings (plan_ids plan)))" by blast
  have "log i \<noteq> [] \<and> (\<forall>st \<in> set (log i). s_InvocationID st = i)" if "i \<in> set (plan_ids plan)" for i
  proof -
    from that obtain n where "n \<in> set (ep_Nodes plan)" "i = node_id n" by (auto simp: plan_ids_def)
    with pr have "node_ok env e g resm n (log i) (the (resm i))" by (simp add: plan_run_def)
    from node_ok_log(1,2) [OF this] \<open>i = node_id n\<close> show ?thesis by simp
  qed
  then have ids: "s_InvocationID ` set (log i) = {i}" if "i \<in> set (plan_ids plan)" for i
    using that by (simp add: image_constant_conv cong: image_cong_simp)
  have "set (invocation_keys tr) = (\<Union>i \<in> set (plan_ids plan). s_InvocationID ` set (log i))"
    by (simp add: invocation_keys_def tr image_UN image_image)
  also have "\<dots> = set (plan_ids plan)" using ids by simp
  finally show ?thesis .
qed

text \<open>
  C8: Record and replay. If every node of a run succeeded, every agent's outcome depends on its
  input only, and the recorder keeps the inputs as they are (no payload is empty but not nil),
  then replaying the recorded trace against the same agents reports no mismatch, whatever state the
  world is in and whatever the timeout.
\<close>

theorem replay_accepts_recorded_run:
  assumes det: "deterministic_agents e"
    and run: "RunPlan env e plan scheds s = Some (results, tr, s')" and g: "buildGraph plan = Inr g"
    and ok: "\<forall>r \<in> set results. ar_Err r = None"
    and stable: "\<forall>n \<in> set (ep_Nodes plan). cloneInput (inv_Input (pn_Invocation n)) = inv_Input (pn_Invocation n)"
  shows "fst (ReplayAndCompare tr timeout (\<lambda>a. registry_get a (eng_registry e)) w) = None"
proof -
  obtain resm log where pr: "plan_run env e plan g resm log"
    and ids: "map result_id results = sort_strings (plan_ids plan)"
    and res: "\<And>n. n \<in> set (ep_Nodes plan) \<Longrightarrow> result_of results (node_id n) = resm (node_id n)"
    and steps: "\<And>n. n \<in> set (ep_Nodes plan) \<Longrightarrow> steps_of tr (node_id n) = map clone_step (log (node_id n))"
    by (rule RunPlan_nodes [OF run g]) (rule that)
  let ?latest = "\<lambda>i. map_get empty_step (expectedByInvocation tr) i"
  have node: "\<exists>fn. registry_get (s_AgentID (?latest i)) (eng_registry e) = Some fn
     \<and> (\<forall>w. replay_check i (?latest i) (fst (fst (replay_safeCall fn t (s_Input (?latest i)) w)))
           (snd (fst (replay_safeCall fn t (s_Input (?latest i)) w))) = None)"
    if "i \<in> set (plan_ids plan)" for i t
  proof -
    from that obtain n where n: "n \<in> set (ep_Nodes plan)" and i: "i = node_id n" by (auto simp: plan_ids_def)
    have nok: "node_ok env e g resm n (log i) (the (resm i))" using pr n i by (simp add: plan_run_def)
    have "resm i \<noteq> None" using pr that by (auto simp: plan_run_def)
    then have "the (resm i) \<in> set results" using res [OF n] i by (auto simp: result_of_def find_Some_iff)
    then have success: "ar_Err (the (resm i)) = None" using ok by blast
    from node_ok_success [OF nok success] obtain fn where
      fn: "registry_get (inv_AgentID (pn_Invocation n)) (eng_registry e) = Some fn"
      and nrun: "node_run env (eng_cfg e) fn (node_policy (eng_cfg e) n) (node_cb_policy (eng_cfg e) n)
         (pn_Invocation n) 1 (log i) (the (resm i))" by blast
    from node_run_ok_called [OF nrun success] obtain out d where
      last: "log i \<noteq> []" "s_Error (last (log i)) = []" "s_AgentID (last (log i)) = inv_AgentID (pn_Invocation n)"
        "s_Input (last (log i)) = inv_Input (pn_Invocation n)" "s_Output (last (log i)) = with_duration out d"
      and call: "called (eng_cfg e) fn (node_cb_policy (eng_cfg e) n) (pn_Invocation n) out None" by blast
    have "?latest i = clone_step (last (log i))"
      using latest_of_run [OF run g n] steps [OF n] last(1) i by (simp add: map_get_def last_map)
    moreover have "cloneInput (inv_Input (pn_Invocation n)) = inv_Input (pn_Invocation n)" using stable n by blast
    moreover have pure: "fst (fn t i w) = fst (fn t' i w')" for t t' i w w'
      using det fn by (auto simp: deterministic_agents_def)
    note called_replay [OF pure call]
    moreover have "ao_RequestID (with_duration out d) = ao_RequestID out" "ao_Payload (with_duration out d) = ao_Payload out"
      by (simp_all add: with_duration_def)
    ultimately show ?thesis using fn last by (simp add: replay_check_def)
  qed
  have "set (sort_strings (invocation_keys tr)) = set (plan_ids plan)" by (simp add: run_trace_ids [OF run g])
  then have "\<forall>i \<in> set (sort_strings (invocation_keys tr)). \<exists>fn. registry_get (s_AgentID (?latest i)) (eng_registry e) = Some fn
     \<and> (\<forall>w. replay_check i (?latest i) (fst (fst (replay_safeCall fn t (s_Input (?latest i)) w)))
           (snd (fst (replay_safeCall fn t (s_Input (?latest i)) w))) = None)" for t
    using node by simp
  note loop = replay_loop_matches [OF this]
  have "t_Steps tr \<noteq> []"
    using run_trace_ids [OF run g] buildGraph_illformed [OF g]
    by (auto simp: plan_wellformed_def plan_ids_def invocation_keys_def)
  with loop show ?thesis by (simp add: ReplayAndCompare_def Let_def)
qed

text \<open>
  A recorded panic never replays. The engine records a panic with message \<open>m\<close> as
  "agent error: agent panicked: m", the replay reports the same panic as "agent panic: m", so
  replaying a trace whose invocation ended in a panic always fails with an error mismatch, even
  though the agent behaved the same.
\<close>

theorem replay_rejects_panic:
  assumes "\<And>t i w. fst (fn t i w) = Panicked m"
    and "s_InvocationID st = invID" and "resolve (s_AgentID st) = Some fn"
    and "s_Error st = error_string (normalizeInvocationError (snd (fst (safeCall fn timeout (s_Input st) w0))))"
    and "t_Steps tr = [st]"
  shows "\<exists>err. fst (ReplayAndCompare tr timeout resolve w) = Some err
    \<and> err = Errorf (''trace replay: invocation '' @ invID @ '' error mismatch: got '' @ fmt_q (''agent panic: '' @ m)
        @ '' want '' @ fmt_q (''agent error: agent panicked: '' @ m))"
proof -
  obtain w1 where "fn timeout (s_Input st) w0 = (Panicked m, w1)" using assms(1) by (metis prod.collapse)
  then have err: "s_Error st = ''agent error: agent panicked: '' @ m"
    using assms(4) by (simp add: safeCall_def NonRetryable_def normalizeInvocationError_def)
  have call: "fst (replay_safeCall fn t (s_Input st) w) = (empty_output, Some (Errorf (''agent panic: '' @ m)))" for t
    using assms(1) [of t "s_Input st" w] by (auto simp: replay_safeCall_def split: prod.splits)
  have latest: "map_get empty_step (expectedByInvocation tr) invID = st"
    using assms(2,5) by (simp add: expectedByInvocation_def latest_step_def map_get_def)
  have "fst (replay_loop resolve t (expectedByInvocation tr) [invID] w) =
      Some (Errorf (''trace replay: invocation '' @ invID @ '' error mismatch: got '' @ fmt_q (''agent panic: '' @ m)
        @ '' want '' @ fmt_q (''agent error: agent panicked: '' @ m)))" for t
  proof -
    obtain w' where "replay_safeCall fn t (s_Input st) w = ((empty_output, Some (Errorf (''agent panic: '' @ m))), w')"
      using call [of t] by (metis prod.collapse)
    then show ?thesis by (simp add: latest assms(3) err replay_check_def Let_def)
  qed
  then show ?thesis
    using assms(2,5) by (simp add: ReplayAndCompare_def invocation_keys_def sort_strings_def sort_slice_def Let_def)
qed

section \<open>Examples\<close>

definition ok_plan :: ExecutionPlan where
  "ok_plan = \<lparr>ep_TaskID = ''t'', ep_Nodes = [mk_node ''a'' ''up'' []]\<rparr>"

definition ok_graph :: planGraph where
  "ok_graph = \<lparr>pg_nodes = ep_Nodes ok_plan, pg_nodesByID = plan_nodesByID ok_plan, pg_levels = [[''a'']]\<rparr>"

lemma ok_graph: "buildGraph ok_plan = Inr ok_graph"
proof -
  have "map_sum id pg_levels (buildGraph ok_plan) = Inr [[''a'']]"
    by (simp add: ok_plan_def mk_node_def buildGraph_def level_loop.simps sort_strings_def sort_slice_def Let_def)
  then obtain g where g: "buildGraph ok_plan = Inr g" "pg_levels g = [[''a'']]"
    by (cases "buildGraph ok_plan") auto
  with buildGraph_levels(5,6) [OF g(1)] show ?thesis by (cases g) (auto simp: ok_graph_def)
qed

lemma ok_node: "map_get empty_node (pg_nodesByID ok_graph) ''a'' = mk_node ''a'' ''up'' []"
  by (simp add: ok_graph_def plan_nodesByID_def ok_plan_def mk_node_def map_get_def)

lemma ok_seq:
  "fst (seq_levels ex_env ex_engine ok_graph [[''a'']] Map.empty (ex_state\<lparr>sh_world := 2, sh_recorder := NewRecorder ''t'' 1\<rparr>))
   = [''a'' \<mapsto> ok_result (pn_Invocation (mk_node ''a'' ''up'' [])) (with_duration empty_output 6)]"
  by (simp add: node_launch_def ok_node dependencyError_def ex_node_defs ex_state_def NewCircuitBreaker_def
      NewRecorder_def result_id_def sort_slice_def store_results_def time_sub_def)

lemma ok_run:
  "\<exists>scheds results tr s'. RunPlan ex_env ex_engine ok_plan scheds ex_state = Some (results, tr, s')
     \<and> (\<forall>r \<in> set results. ar_Err r = None)"
proof -
  have pool: "0 < rc_WorkerPoolSize (eng_cfg ex_engine)" by (simp add: ex_eng)
  have eqs: "e_now ex_env (sh_world ex_state) = (1, 2)" "pg_levels ok_graph = [[''a'']]" "ep_TaskID ok_plan = ''t''"
    "pg_nodes ok_graph = [mk_node ''a'' ''up'' []]" "node_id (mk_node ''a'' ''up'' []) = ''a''"
    by (simp_all add: ex_env_def ex_state_def ok_graph_def ok_plan_def mk_node_def)
  obtain s' where seq: "seq_levels ex_env ex_engine ok_graph [[''a'']] Map.empty
      (ex_state\<lparr>sh_world := 2, sh_recorder := NewRecorder ''t'' 1\<rparr>)
    = ([''a'' \<mapsto> ok_result (pn_Invocation (mk_node ''a'' ''up'' [])) (with_duration empty_output 6)], s')"
    using ok_seq by (metis prod.collapse)
  obtain tr s'' where fin: "finish_run ex_env s' = (tr, s'')" by fastforce
  let ?ok = "ok_result (pn_Invocation (mk_node ''a'' ''up'' [])) (with_duration empty_output 6)"
  from seq_run [OF ok_graph pool, of ex_env ex_state]
  obtain scheds where "RunPlan ex_env ex_engine ok_plan scheds ex_state = Some ([?ok], tr, s'')"
    unfolding eqs prod.case seq fin by (auto simp: sort_slice_def map_get_def mk_node_def)
  then show ?thesis by (intro exI conjI) (assumption, simp)
qed

theorem replay_accepts_recorded_run_witness:
  "\<exists>scheds results tr s'. RunPlan ex_env ex_engine ok_plan scheds ex_state = Some (results, tr, s')
     \<and> fst (ReplayAndCompare tr 0 (\<lambda>a. registry_get a (eng_registry ex_engine)) 77) = None"
proof -
  obtain scheds results tr s' where run: "RunPlan ex_env ex_engine ok_plan scheds ex_state = Some (results, tr, s')"
    and ok: "\<forall>r \<in> set results. ar_Err r = None"
    by (rule exE [OF ok_run], elim exE conjE, rule that)
  have "deterministic_agents ex_engine" by (rule ex_deterministic)
  moreover have "\<forall>n \<in> set (ep_Nodes ok_plan). cloneInput (inv_Input (pn_Invocation n)) = inv_Input (pn_Invocation n)"
    by (simp add: ok_plan_def mk_node_def cloneInput_def clone_bytes_def empty_input_def)
  ultimately have "fst (ReplayAndCompare tr 0 (\<lambda>a. registry_get a (eng_registry ex_engine)) 77) = None"
    by (rule replay_accepts_recorded_run [OF _ run ok_graph ok])
  with run show ?thesis by blast
qed

theorem replay_rejects_panic_witness:
  "fst (ReplayAndCompare
     ((NewRecorder ''t'' 0)\<lparr>t_Steps := [empty_step\<lparr>s_InvocationID := ''p'', s_AgentID := ''boom'',
        s_Error := ''agent error: agent panicked: nil map''\<rparr>]\<rparr>)
     0 (\<lambda>a. registry_get a ex_registry) 5)
   = Some (Errorf (''trace replay: invocation p error mismatch: got ''
       @ fmt_q ''agent panic: nil map'' @ '' want '' @ fmt_q ''agent error: agent panicked: nil map''))"
proof -
  let ?fn = "\<lambda>(_ :: duration) (_ :: AgentInput) (w :: nat). (Panicked ''nil map'', w + 5)"
  let ?st = "empty_step\<lparr>s_InvocationID := ''p'', s_AgentID := ''boom'', s_Error := ''agent error: agent panicked: nil map''\<rparr>"
  have "s_Error ?st = error_string (normalizeInvocationError (snd (fst (safeCall ?fn 0 (s_Input ?st) 1))))"
    by (simp add: safeCall_def NonRetryable_def normalizeInvocationError_def)
  from replay_rejects_panic [OF _ _ _ this, of "''nil map''" "''p''" "\<lambda>a. registry_get a ex_registry"]
  show ?thesis by (simp add: ex_get)
qed

end
