(* ===== verification/GoSha256.thy ===== *)
theory GoSha256
  imports GoStrings
begin

text \<open>
  \<open>crypto/sha256\<close> and \<open>encoding/hex\<close>, which the trace comparison uses to show payloads: the hash of
  FIPS 180-4 on 32-bit words, and the lower-case hexadecimal text of a byte string.
\<close>

unbundle bit_operations_syntax

text \<open>
  The constants are the first 32 bits of the fractional parts of the cube roots of the first 64
  primes, and of the square roots of the first eight.
\<close>

primrec root_bits :: "nat \<Rightarrow> nat \<Rightarrow> nat \<Rightarrow> nat \<Rightarrow> nat" where
  "root_bits k n 0 r = r"
| "root_bits k n (Suc b) r = root_bits k n b (if (r + 2 ^ b) ^ k \<le> n then r + 2 ^ b else r)"

definition root_fraction :: "nat \<Rightarrow> nat \<Rightarrow> 32 word" where
  "root_fraction k p = word_of_nat (root_bits k (p * 2 ^ (32 * k)) 37 0)"

definition small_primes :: "nat list" where
  "small_primes = filter (\<lambda>p. list_all (\<lambda>d. p mod d \<noteq> 0) [2..<p]) [2..<312]"

definition sha_K :: "32 word list" where
  "sha_K = map (root_fraction 3) small_primes"

definition sha_H0 :: "32 word list" where
  "sha_H0 = map (root_fraction 2) (take 8 small_primes)"

definition ror :: "nat \<Rightarrow> 32 word \<Rightarrow> 32 word" where
  "ror n x = drop_bit n x OR push_bit (32 - n) x"

definition sigma0 :: "32 word \<Rightarrow> 32 word" where
  "sigma0 x = ror 7 x XOR ror 18 x XOR drop_bit 3 x"

definition sigma1 :: "32 word \<Rightarrow> 32 word" where
  "sigma1 x = ror 17 x XOR ror 19 x XOR drop_bit 10 x"

definition Sigma0 :: "32 word \<Rightarrow> 32 word" where
  "Sigma0 x = ror 2 x XOR ror 13 x XOR ror 22 x"

definition Sigma1 :: "32 word \<Rightarrow> 32 word" where
  "Sigma1 x = ror 6 x XOR ror 11 x XOR ror 25 x"

text \<open>The message schedule; the list holds the words so far, the latest first.\<close>

fun schedule :: "nat \<Rightarrow> 32 word list \<Rightarrow> 32 word list" where
  "schedule 0 ws = ws"
| "schedule (Suc n) ws =
     schedule n ((sigma1 (ws ! 1) + ws ! 6 + sigma0 (ws ! 14) + ws ! 15) # ws)"

definition sha_round :: "32 word list \<Rightarrow> 32 word \<times> 32 word \<Rightarrow> 32 word list" where
  "sha_round st kw =
     (case st of
        [a, b, c, d, e, f, g, h] \<Rightarrow>
          (let t1 = h + Sigma1 e + ((e AND f) XOR (NOT e AND g)) + fst kw + snd kw;
               t2 = Sigma0 a + ((a AND b) XOR (a AND c) XOR (b AND c))
           in [t1 + t2, a, b, c, d + t1, e, f, g])
      | _ \<Rightarrow> st)"

definition sha_block :: "32 word list \<Rightarrow> 32 word list \<Rightarrow> 32 word list" where
  "sha_block st block =
     map2 (+) st (foldl sha_round st (zip sha_K (rev (schedule 48 (rev block)))))"

definition be_word :: "bytes \<Rightarrow> 32 word" where
  "be_word bs = word_of_nat (foldl (\<lambda>v c. 256 * v + of_char c) 0 bs)"

definition be_bytes :: "nat \<Rightarrow> nat \<Rightarrow> bytes" where
  "be_bytes k n = map (\<lambda>i. char_of (n div 256 ^ (k - 1 - i))) [0..<k]"

text \<open>Padding to a multiple of 64 bytes, with the length in bits at the end.\<close>

definition sha_pad :: "bytes \<Rightarrow> bytes" where
  "sha_pad msg =
     (let zeros = (119 - length msg mod 64) mod 64
      in msg @ byte_string [128] @ replicate zeros (char_of (0 :: nat)) @ be_bytes 8 (8 * length msg mod 2 ^ 64))"

fun chunks :: "nat \<Rightarrow> nat \<Rightarrow> 'a list \<Rightarrow> 'a list list" where
  "chunks 0 k xs = []"
| "chunks (Suc n) k xs = take k xs # chunks n k (drop k xs)"

definition sha256 :: "bytes \<Rightarrow> bytes" where
  "sha256 msg =
     (let p = sha_pad msg
      in concat (map (\<lambda>w. be_bytes 4 (unat w))
           (foldl (\<lambda>st blk. sha_block st (map be_word (chunks 16 4 blk))) sha_H0 (chunks (length p div 64) 64 p))))"

definition hex_encode :: "bytes \<Rightarrow> string" where
  "hex_encode b = concat (map (\<lambda>c. [hex_digit (of_char c div 16), hex_digit (of_char c mod 16)]) b)"

end
