(* ===== verification/TraceDebug.thy ===== *)
theory TraceDebug
  imports Replay GoSha256
begin

text \<open>
  \<open>src/internal/trace/debug.go\<close>: the comparison of two traces. It looks at the last attempt of every
  invocation and lists the fields in which the two sides differ; payloads are compared and shown by
  their SHA-256.
\<close>

record Divergence =
  dv_InvocationID :: string
  dv_Field :: string
  dv_Expected :: string
  dv_Actual :: string

definition divergence :: "string \<Rightarrow> string \<Rightarrow> string \<Rightarrow> string \<Rightarrow> Divergence" where
  "divergence i field e a = \<lparr>dv_InvocationID = i, dv_Field = field, dv_Expected = e, dv_Actual = a\<rparr>"

definition latestByInvocation :: "ExecutionTrace \<Rightarrow> (string \<rightharpoonup> Step)" where
  "latestByInvocation tr =
     foldl (\<lambda>m s. case m (s_InvocationID s) of
               None \<Rightarrow> m(s_InvocationID s \<mapsto> s)
             | Some prev \<Rightarrow> if s_Attempt prev \<le> s_Attempt s then m(s_InvocationID s \<mapsto> s) else m)
       Map.empty (t_Steps tr)"

definition payloadHash :: "bytes option \<Rightarrow> string" where
  "payloadHash b = hex_encode (sha256 (slice_bytes b))"

text \<open>The differences of one invocation that both traces have.\<close>

definition compare_steps :: "string \<Rightarrow> Step \<Rightarrow> Step \<Rightarrow> Divergence list" where
  "compare_steps i e a =
     (if s_AgentID e \<noteq> s_AgentID a then [divergence i ''agent_id'' (s_AgentID e) (s_AgentID a)] else [])
     @ (if s_Error e \<noteq> s_Error a then [divergence i ''error'' (s_Error e) (s_Error a)] else [])
     @ (if ao_RequestID (s_Output e) \<noteq> ao_RequestID (s_Output a)
        then [divergence i ''request_id'' (ao_RequestID (s_Output e)) (ao_RequestID (s_Output a))] else [])
     @ (let ep = payloadHash (ao_Payload (s_Output e)); ap = payloadHash (ao_Payload (s_Output a))
        in if ep \<noteq> ap then [divergence i ''payload_hash'' ep ap] else [])"

definition compare_invocation :: "(string \<rightharpoonup> Step) \<Rightarrow> (string \<rightharpoonup> Step) \<Rightarrow> string \<Rightarrow> Divergence list" where
  "compare_invocation expMap actMap i =
     (case expMap i of
        None \<Rightarrow> [divergence i ''missing_expected'' [] (s_AgentID (map_get empty_step actMap i))]
      | Some e \<Rightarrow>
          (case actMap i of
             None \<Rightarrow> [divergence i ''missing_actual'' (s_AgentID e) []]
           | Some a \<Rightarrow> compare_steps i e a))"

text \<open>The ids of the expected side, then those that only the actual side has, sorted.\<close>

definition compared_ids :: "ExecutionTrace \<Rightarrow> ExecutionTrace \<Rightarrow> string list" where
  "compared_ids expected actual =
     sort_strings (invocation_keys expected
       @ filter (\<lambda>i. i \<notin> set (invocation_keys expected)) (invocation_keys actual))"

definition Compare :: "ExecutionTrace \<Rightarrow> ExecutionTrace \<Rightarrow> Divergence list" where
  "Compare expected actual =
     concat (map (compare_invocation (latestByInvocation expected) (latestByInvocation actual)) (compared_ids expected actual))"

definition FormatDivergence :: "Divergence list \<Rightarrow> string" where
  "FormatDivergence ds =
     (if ds = [] then ''no divergence detected''
      else ''trace divergence detected:'' @ byte_string [10]
        @ concat (map (\<lambda>d. ''- invocation='' @ dv_InvocationID d @ '' field='' @ dv_Field d @ '' expected='' @ fmt_q (dv_Expected d)
             @ '' actual='' @ fmt_q (dv_Actual d) @ byte_string [10]) ds))"

section \<open>What an empty comparison says\<close>

lemma latestByInvocation_eq: "latestByInvocation = expectedByInvocation"
  by (simp add: latestByInvocation_def expectedByInvocation_def fun_eq_iff latest_step_def [abs_def])

lemma latest_None: "latestByInvocation tr i = None \<longleftrightarrow> i \<notin> set (invocation_keys tr)"
proof -
  have "foldl latest_step m ss i = None \<longleftrightarrow> m i = None \<and> i \<notin> s_InvocationID ` set ss" for m ss
    by (induction ss arbitrary: m) (auto simp: latest_step_at split: option.splits)
  then show ?thesis by (simp add: latestByInvocation_eq expectedByInvocation_def invocation_keys_def)
qed

definition same_outcome :: "Step \<Rightarrow> Step \<Rightarrow> bool" where
  "same_outcome e a \<longleftrightarrow> s_AgentID e = s_AgentID a \<and> s_Error e = s_Error a
     \<and> ao_RequestID (s_Output e) = ao_RequestID (s_Output a)
     \<and> payloadHash (ao_Payload (s_Output e)) = payloadHash (ao_Payload (s_Output a))"

definition step_outcome :: "Step \<Rightarrow> string \<times> string \<times> string \<times> string" where
  "step_outcome s = (s_AgentID s, s_Error s, ao_RequestID (s_Output s), payloadHash (ao_Payload (s_Output s)))"

lemma same_outcome_iff: "same_outcome e a \<longleftrightarrow> step_outcome e = step_outcome a"
  by (simp add: same_outcome_def step_outcome_def)

lemma compare_steps_Nil: "compare_steps i e a = [] \<longleftrightarrow> same_outcome e a"
  by (auto simp: compare_steps_def same_outcome_def Let_def)

lemma Compare_Nil:
  "Compare expected actual = [] \<longleftrightarrow>
     set (invocation_keys expected) = set (invocation_keys actual)
     \<and> (\<forall>i e a. latestByInvocation expected i = Some e \<longrightarrow> latestByInvocation actual i = Some a \<longrightarrow> same_outcome e a)"
proof -
  have "Compare expected actual = [] \<longleftrightarrow>
      (\<forall>i \<in> set (invocation_keys expected) \<union> set (invocation_keys actual).
         compare_invocation (latestByInvocation expected) (latestByInvocation actual) i = [])"
    by (auto simp: Compare_def compared_ids_def)
  also have "\<dots> \<longleftrightarrow> (\<forall>i \<in> set (invocation_keys expected) \<union> set (invocation_keys actual).
      \<exists>e a. latestByInvocation expected i = Some e \<and> latestByInvocation actual i = Some a \<and> same_outcome e a)"
    by (intro ball_cong refl) (auto simp: compare_invocation_def compare_steps_Nil split: option.splits)
  finally show ?thesis
    using latest_None [of expected] latest_None [of actual] by (metis UnCI UnE option.exhaust option.sel subsetI subset_antisym option.distinct(1))
qed

text \<open>
  C25: The comparison of traces reports nothing exactly if the two traces have the same invocations
  and the last attempts of each agree in agent, error, request id and the hash of the payload.
\<close>

theorem compare_reports_nothing_iff:
  "Compare expected actual = [] \<longleftrightarrow>
     (\<forall>i. map_option step_outcome (latestByInvocation expected i) = map_option step_outcome (latestByInvocation actual i))"
proof -
  have "Compare expected actual = [] \<longleftrightarrow>
      (\<forall>i. (latestByInvocation expected i = None) = (latestByInvocation actual i = None))
      \<and> (\<forall>i e a. latestByInvocation expected i = Some e \<longrightarrow> latestByInvocation actual i = Some a \<longrightarrow> step_outcome e = step_outcome a)"
    unfolding Compare_Nil latest_None same_outcome_iff by blast
  also have "\<dots> \<longleftrightarrow> (\<forall>i. map_option step_outcome (latestByInvocation expected i) = map_option step_outcome (latestByInvocation actual i))"
    unfolding all_conj_distrib [symmetric] by (rule all_cong1) (auto split: option.split simp: map_option_case)
  finally show ?thesis .
qed

section \<open>Two runs of a deterministic plan\<close>

lemma latest_fold_erase:
  assumes "map erase_step ss' = map erase_step ss" and "map_option erase_step (m' i) = map_option erase_step (m i)"
  shows "map_option erase_step (foldl latest_step m' ss' i) = map_option erase_step (foldl latest_step m ss i)"
  using assms
proof (induction ss arbitrary: ss' m m')
  case (Cons s ss)
  then obtain s' rest where ss': "ss' = s' # rest" and s': "erase_step s' = erase_step s" "map erase_step rest = map erase_step ss"
    by (cases ss') auto
  have f: "s_InvocationID s' = s_InvocationID s" "s_Attempt s' = s_Attempt s"
    using arg_cong [OF s'(1), of s_InvocationID] arg_cong [OF s'(1), of s_Attempt] by (simp_all add: erase_step_def)
  have att: "s_Attempt (erase_step x) = s_Attempt x" for x by (simp add: erase_step_def)
  have "map_option erase_step (latest_step m' s' i) = map_option erase_step (latest_step m s i)"
  proof (cases "m i")
    case None
    with Cons.prems(2) s'(1) show ?thesis by (simp add: latest_step_at f)
  next
    case (Some x)
    with Cons.prems(2) obtain y where y: "m' i = Some y" "erase_step y = erase_step x" by auto
    then have "s_Attempt y = s_Attempt x" using att by metis
    with Some y s'(1) show ?thesis by (simp add: latest_step_at f)
  qed
  from Cons.IH [of rest "latest_step m' s'" "latest_step m s", OF s'(2) this] show ?case by (simp add: ss')
qed simp

lemma erase_step_outcome:
  assumes "erase_step x = erase_step y"
  shows "same_outcome x y"
proof -
  have "s_AgentID (erase_step z) = s_AgentID z" "s_Error (erase_step z) = s_Error z"
    "ao_RequestID (s_Output (erase_step z)) = ao_RequestID (s_Output z)" "ao_Payload (s_Output (erase_step z)) = ao_Payload (s_Output z)" for z
    by (simp_all add: erase_step_def erase_output_def)
  with assms show ?thesis unfolding same_outcome_def by metis
qed

lemma erased_equal_no_divergence:
  assumes "map erase_step (t_Steps tr') = map erase_step (t_Steps tr)"
  shows "Compare tr tr' = []"
proof -
  have "map s_InvocationID (map erase_step ss) = map s_InvocationID ss" for ss by (simp add: erase_step_def o_def)
  then have "map s_InvocationID (t_Steps tr') = map s_InvocationID (t_Steps tr)" using assms by metis
  moreover have "map_option erase_step (latestByInvocation tr' i) = map_option erase_step (latestByInvocation tr i)" for i
    using latest_fold_erase [OF assms, of Map.empty i Map.empty] by (simp add: latestByInvocation_eq expectedByInvocation_def)
  ultimately show ?thesis
    unfolding Compare_Nil invocation_keys_def by (metis erase_step_outcome option.simps(9) option.inject)
qed

text \<open>
  The debug command finds nothing between two runs of the same deterministic plan. If every
  agent's outcome depends on its input only, no breaker is enabled and the context is never done,
  then the comparison of the traces of two runs is empty, over any two interleavings, worlds and
  pool sizes.
\<close>

theorem deterministic_runs_no_divergence:
  assumes "deterministic_agents e" and "\<forall>d w. fst (e_wait env d w) = None"
    and "\<forall>n \<in> set (ep_Nodes plan). cp_FailureThreshold (node_cb_policy (eng_cfg e) n) \<le> 0"
    and "RunPlan env e plan scheds s = Some (results, tr, s1)"
    and "RunPlan env (with_pool W e) plan scheds' s' = Some (results', tr', s1')"
  shows "Compare tr tr' = [] \<and> FormatDivergence (Compare tr tr') = ''no divergence detected''"
  using erased_equal_no_divergence RunPlan_deterministic [OF assms] by (simp add: FormatDivergence_def)

theorem deterministic_runs_no_divergence_witness:
  "\<exists>scheds results tr s1 scheds' results' tr' s1'.
     RunPlan ex_env ex_engine ok_plan scheds ex_state = Some (results, tr, s1)
     \<and> RunPlan ex_env (with_pool 1 ex_engine) ok_plan scheds' ex_state = Some (results', tr', s1')
     \<and> Compare tr tr' = []"
proof -
  obtain scheds results tr s1 where run: "RunPlan ex_env ex_engine ok_plan scheds ex_state = Some (results, tr, s1)"
    by (rule exE [OF ok_run], elim exE conjE, rule that)
  have "0 < rc_WorkerPoolSize (eng_cfg (with_pool 1 ex_engine))" by (simp add: with_pool_def)
  from RunPlan_completable [OF this, of ex_env ok_plan ex_state] obtain scheds' results' tr' s1' where
    run': "RunPlan ex_env (with_pool 1 ex_engine) ok_plan scheds' ex_state = Some (results', tr', s1')" by blast
  have "deterministic_agents ex_engine" by (rule ex_deterministic)
  moreover have "\<forall>d w. fst (e_wait ex_env d w) = None" by (simp add: ex_env_def)
  moreover have "\<forall>n \<in> set (ep_Nodes ok_plan). cp_FailureThreshold (node_cb_policy (eng_cfg ex_engine) n) \<le> 0"
    by (simp add: ok_plan_def mk_node_def node_cb_policy_def default_breaker_def ex_eng Let_def)
  ultimately have "Compare tr tr' = []"
    using deterministic_runs_no_divergence [OF _ _ _ run run'] by blast
  with run run' show ?thesis by blast
qed

end
