(* ===== verification/GoPaths.thy ===== *)
theory GoPaths
  imports GoStrings
begin

text \<open>
  The functions of Go's package \<open>path/filepath\<close> the program uses, on slash-separated paths:
  \<open>Clean\<close>, \<open>Join\<close>, \<open>Dir\<close> and \<open>Base\<close>; and \<open>os.TempDir\<close>.
\<close>

fun split_slash :: "string \<Rightarrow> string \<Rightarrow> string list" where
  "split_slash acc [] = [rev acc]"
| "split_slash acc (c # s) =
     (if c = CHR ''/'' then rev acc # split_slash [] s else split_slash (c # acc) s)"

fun join_slash :: "string list \<Rightarrow> string" where
  "join_slash [] = []"
| "join_slash [p] = p"
| "join_slash (p # q # ps) = p @ ''/'' @ join_slash (q # ps)"

text \<open>One component of a path; the components kept so far are in reverse order.\<close>

definition clean_step :: "bool \<Rightarrow> string list \<Rightarrow> string \<Rightarrow> string list" where
  "clean_step rooted out p =
     (if p = [] \<or> p = ''.'' then out
      else if p = ''..'' then
        (case out of
           q # qs \<Rightarrow> if q = ''..'' then p # out else qs
         | [] \<Rightarrow> if rooted then [] else [p])
      else p # out)"

definition path_clean :: "string \<Rightarrow> string" where
  "path_clean path =
     (let rooted = has_prefix path ''/'';
          out = join_slash (rev (foldl (clean_step rooted) [] (split_slash [] path)))
      in if rooted then CHR ''/'' # out else if out = [] then ''.'' else out)"

text \<open>Leading empty elements are ignored.\<close>

definition path_join :: "string list \<Rightarrow> string" where
  "path_join elems =
     (case dropWhile (\<lambda>e. e = []) elems of [] \<Rightarrow> [] | es \<Rightarrow> path_clean (join_slash es))"

definition path_dir :: "string \<Rightarrow> string" where
  "path_dir path = path_clean (rev (dropWhile (\<lambda>c. c \<noteq> CHR ''/'') (rev path)))"

definition temp_dir :: "(string \<Rightarrow> string) \<Rightarrow> string" where
  "temp_dir getenv = (if getenv ''TMPDIR'' = [] then ''/tmp'' else getenv ''TMPDIR'')"

lemma clean_examples:
  "path_join [''/tmp'', ''a.lock''] = ''/tmp/a.lock''" "path_clean ''a/./b/../c//d'' = ''a/c/d''"
  "path_clean [] = ''.''" "path_dir ''var/log/audit.jsonl'' = ''var/log''" "path_dir ''x'' = ''.''"
  by (simp_all add: path_join_def path_clean_def path_dir_def clean_step_def has_prefix_def)

end
