(* ===== verification/Coordinator.thy ===== *)
theory Coordinator
  imports Engine GoPaths GoSha256
begin

text \<open>
  The lease coordinators of \<open>src/internal/coordinator\<close>. A lease on a key is meant to exclude other
  holders until it is released or its time to live is over. Three stores implement it: a map in
  memory behind a mutex, lock files created with \<open>O_EXCL\<close>, and Redis keys.

  An \<open>Acquire\<close> is a program of atomic actions, so that several of them can be interleaved; it takes
  the number of rounds its loop may make, and \<open>None\<close> means that it is still waiting after them.
  The contents of a lock file are what \<open>time.Parse\<close> makes of its bytes: the time that was written, or
  \<open>None\<close> for bytes that are not a time, such as those of a file that was created but not yet written.
\<close>

section \<open>Shared parts\<close>

record ('st, 'w) coord =
  co_store :: 'st
  co_world :: 'w

definition co_now :: "('w, 'x) env_scheme \<Rightarrow> (time \<Rightarrow> (('st, 'w) coord, 'r) prog) \<Rightarrow> (('st, 'w) coord, 'r) prog" where
  "co_now env = act (\<lambda>s. case e_now env (co_world s) of (t, w) \<Rightarrow> (t, s\<lparr>co_world := w\<rparr>))"

definition co_wait ::
  "('w, 'x) env_scheme \<Rightarrow> duration \<Rightarrow> (goerr option \<Rightarrow> (('st, 'w) coord, 'r) prog) \<Rightarrow> (('st, 'w) coord, 'r) prog" where
  "co_wait env d = act (\<lambda>s. case e_wait env d (co_world s) of (r, w) \<Rightarrow> (r, s\<lparr>co_world := w\<rparr>))"

definition default_ttl :: "duration \<Rightarrow> duration" where
  "default_ttl ttl = (if ttl \<le> 0 then 2 * minute else ttl)"

datatype Lease = memoryLease string | fileLease string | redisLease string string

section \<open>The coordinator in memory\<close>

type_synonym memoryCoordinator = "string \<rightharpoonup> time"

definition NewMemoryCoordinator :: memoryCoordinator where
  "NewMemoryCoordinator = Map.empty"

text \<open>The critical section of one round, at time \<open>now\<close>: \<open>None\<close> if the key is held.\<close>

definition mem_try :: "memoryCoordinator \<Rightarrow> time \<Rightarrow> string \<Rightarrow> duration \<Rightarrow> memoryCoordinator option" where
  "mem_try locks now key ttl =
     (case locks key of
        None \<Rightarrow> Some (locks(key \<mapsto> time_add now ttl))
      | Some exp \<Rightarrow> if time_after now exp then Some (locks(key \<mapsto> time_add now ttl)) else None)"

definition mem_round ::
  "('w, 'x) env_scheme \<Rightarrow> string \<Rightarrow> duration \<Rightarrow> (memoryCoordinator, 'w) coord \<Rightarrow> bool \<times> (memoryCoordinator, 'w) coord" where
  "mem_round env key ttl s =
     (case e_now env (co_world s) of (now, w) \<Rightarrow>
      case mem_try (co_store s) now key ttl of
        Some locks \<Rightarrow> (True, s\<lparr>co_store := locks, co_world := w\<rparr>)
      | None \<Rightarrow> (False, s\<lparr>co_world := w\<rparr>))"

fun mem_acquire_loop ::
  "('w, 'x) env_scheme \<Rightarrow> nat \<Rightarrow> string \<Rightarrow> duration \<Rightarrow> ((memoryCoordinator, 'w) coord, Lease result option) prog" where
  "mem_acquire_loop env 0 key ttl = Return None"
| "mem_acquire_loop env (Suc n) key ttl =
     act (mem_round env key ttl) (\<lambda>acquired.
       if acquired then Return (Some (Inr (memoryLease key)))
       else co_wait env (20 * millisecond) (\<lambda>ctxErr.
         case ctxErr of
           Some e \<Rightarrow> Return (Some (Inl (WrapErr ''acquire lease: '' e [])))
         | None \<Rightarrow> mem_acquire_loop env n key ttl))"

definition memory_Acquire ::
  "('w, 'x) env_scheme \<Rightarrow> nat \<Rightarrow> string \<Rightarrow> duration \<Rightarrow> ((memoryCoordinator, 'w) coord, Lease result option) prog" where
  "memory_Acquire env n key ttl = mem_acquire_loop env n key (default_ttl ttl)"

definition memory_Release :: "memoryCoordinator \<Rightarrow> string \<Rightarrow> memoryCoordinator" where
  "memory_Release locks key = locks(key := None)"

section \<open>The coordinator on lock files\<close>

text \<open>
  A directory of lock files: each name refers to a file node, and each node holds its contents. A
  name that is removed and created again refers to a new node; a writer keeps the node it opened.
\<close>

record lock_files =
  lf_dir :: "string \<rightharpoonup> nat"
  lf_data :: "nat \<rightharpoonup> time"
  lf_next :: nat

datatype fs_op = MkdirAll | OpenFile | WriteString | ReadFile | Remove

text \<open>An operation of the file system may fail for a reason of its own (permissions, a full disk).\<close>

record 'w fs_env = "'w env" +
  fs_fault :: "fs_op \<Rightarrow> string \<Rightarrow> 'w \<Rightarrow> goerr option \<times> 'w"

definition NewFileCoordinator :: "(string \<Rightarrow> string) \<Rightarrow> string \<Rightarrow> string" where
  "NewFileCoordinator getenv dir =
     (if dir = [] then path_join [temp_dir getenv, ''fluxroute-coordination''] else dir)"

definition lock_path :: "string \<Rightarrow> string \<Rightarrow> string" where
  "lock_path dir key = path_join [dir, key @ ''.lock'']"

definition fs_act ::
  "'w fs_env \<Rightarrow> fs_op \<Rightarrow> string \<Rightarrow> (goerr option \<Rightarrow> lock_files \<Rightarrow> 'a \<times> lock_files)
   \<Rightarrow> ('a \<Rightarrow> ((lock_files, 'w) coord, 'r) prog) \<Rightarrow> ((lock_files, 'w) coord, 'r) prog" where
  "fs_act fe fsop path f = act (\<lambda>s.
     case fs_fault fe fsop path (co_world s) of (err, w) \<Rightarrow>
     case f err (co_store s) of (a, files) \<Rightarrow> (a, s\<lparr>co_store := files, co_world := w\<rparr>))"

datatype open_result = Opened nat | Exists | OpenFailed goerr

text \<open>\<open>os.OpenFile\<close> with \<open>O_CREATE|O_EXCL|O_WRONLY\<close>.\<close>

definition open_excl :: "string \<Rightarrow> goerr option \<Rightarrow> lock_files \<Rightarrow> open_result \<times> lock_files" where
  "open_excl path err files =
     (case err of
        Some e \<Rightarrow> (OpenFailed e, files)
      | None \<Rightarrow>
          if lf_dir files path = None
          then (Opened (lf_next files),
                files\<lparr>lf_dir := (lf_dir files)(path \<mapsto> lf_next files),
                      lf_data := (lf_data files)(lf_next files := None), lf_next := Suc (lf_next files)\<rparr>)
          else (Exists, files))"

text \<open>A failed write is ignored by the code.\<close>

definition write_expiry :: "nat \<Rightarrow> time \<Rightarrow> goerr option \<Rightarrow> lock_files \<Rightarrow> unit \<times> lock_files" where
  "write_expiry node expires err files =
     ((), if err = None then files\<lparr>lf_data := (lf_data files)(node \<mapsto> expires)\<rparr> else files)"

definition expired :: "string \<Rightarrow> time \<Rightarrow> goerr option \<Rightarrow> lock_files \<Rightarrow> bool \<times> lock_files" where
  "expired path now err files =
     (case err of
        Some _ \<Rightarrow> (True, files)
      | None \<Rightarrow>
          (case lf_dir files path of
             None \<Rightarrow> (True, files)
           | Some node \<Rightarrow>
               (case lf_data files node of
                  None \<Rightarrow> (True, files)
                | Some t \<Rightarrow> (time_after now t, files))))"

definition remove_lock :: "string \<Rightarrow> goerr option \<Rightarrow> lock_files \<Rightarrow> goerr option \<times> lock_files" where
  "remove_lock path err files =
     (if lf_dir files path = None then (None, files)
      else
        (case err of
           Some e \<Rightarrow> (Some e, files)
         | None \<Rightarrow> (None, files\<lparr>lf_dir := (lf_dir files)(path := None)\<rparr>)))"

fun file_acquire_loop ::
  "'w fs_env \<Rightarrow> nat \<Rightarrow> string \<Rightarrow> duration \<Rightarrow> ((lock_files, 'w) coord, Lease result option) prog" where
  "file_acquire_loop fe 0 path ttl = Return None"
| "file_acquire_loop fe (Suc n) path ttl =
     co_now fe (\<lambda>now.
     fs_act fe OpenFile path (open_excl path) (\<lambda>r.
       case r of
         Opened node \<Rightarrow>
           fs_act fe WriteString path (write_expiry node (time_add now ttl)) (\<lambda>_.
             Return (Some (Inr (fileLease path))))
       | OpenFailed e \<Rightarrow> Return (Some (Inl (WrapErr ''acquire file lease: '' e [])))
       | Exists \<Rightarrow>
           fs_act fe ReadFile path (expired path now) (\<lambda>gone.
             if gone then fs_act fe Remove path (remove_lock path) (\<lambda>_. file_acquire_loop fe n path ttl)
             else co_wait fe (25 * millisecond) (\<lambda>ctxErr.
               case ctxErr of
                 Some e \<Rightarrow> Return (Some (Inl (WrapErr ''acquire file lease: '' e [])))
               | None \<Rightarrow> file_acquire_loop fe n path ttl))))"

definition file_Acquire ::
  "'w fs_env \<Rightarrow> nat \<Rightarrow> string \<Rightarrow> string \<Rightarrow> duration \<Rightarrow> ((lock_files, 'w) coord, Lease result option) prog" where
  "file_Acquire fe n dir key ttl =
     fs_act fe MkdirAll dir (\<lambda>err files. (err, files)) (\<lambda>mkErr.
       case mkErr of
         Some e \<Rightarrow> Return (Some (Inl (WrapErr ''mkdir coordinator dir: '' e [])))
       | None \<Rightarrow> file_acquire_loop fe n (lock_path dir key) (default_ttl ttl))"

definition file_Release :: "'w fs_env \<Rightarrow> string \<Rightarrow> ((lock_files, 'w) coord, goerr option) prog" where
  "file_Release fe path =
     fs_act fe Remove path (remove_lock path) (\<lambda>err.
       Return (case err of None \<Rightarrow> None | Some e \<Rightarrow> Some (WrapErr ''release file lease: '' e [])))"

section \<open>The coordinator on Redis\<close>

text \<open>
  The Redis server and its client library are parameters: \<open>SETNX\<close> with a time to live, the commands
  of the script, failures of the connection, and the source of random bytes.
\<close>

record 'w redis =
  rd_ParseURL :: "string \<Rightarrow> goerr option"
  rd_Ping :: "'w \<Rightarrow> goerr option \<times> 'w"
  rd_SetNX :: "string \<Rightarrow> string \<Rightarrow> duration \<Rightarrow> 'w \<Rightarrow> bool result \<times> 'w"
  rd_GET :: "string \<Rightarrow> 'w \<Rightarrow> string option"
  rd_DEL :: "string \<Rightarrow> 'w \<Rightarrow> 'w"
  rd_EvalFault :: "'w \<Rightarrow> goerr option \<times> 'w"
  rd_Rand :: "'w \<Rightarrow> bytes result \<times> 'w"

definition randomToken :: "'w redis \<Rightarrow> 'w \<Rightarrow> string result \<times> 'w" where
  "randomToken rd w =
     (case rd_Rand rd w of
        (Inl e, w) \<Rightarrow> (Inl (WrapErr ''random token: '' e []), w)
      | (Inr b, w) \<Rightarrow> (Inr (hex_encode b), w))"

text \<open>The coordinator keeps its client and its key prefix; the client is the parameter.\<close>

definition NewRedisCoordinator :: "'w redis \<Rightarrow> string \<Rightarrow> string \<Rightarrow> 'w \<Rightarrow> string result \<times> 'w" where
  "NewRedisCoordinator rd redisURL keyPrefix w =
     (if trim_space redisURL = [] then (Inl (Errorf ''redis url is empty''), w)
      else
        (case rd_ParseURL rd redisURL of
           Some e \<Rightarrow> (Inl (WrapErr ''parse redis url: '' e []), w)
         | None \<Rightarrow>
             (case rd_Ping rd w of
                (Some e, w) \<Rightarrow> (Inl (WrapErr ''redis ping failed: '' e []), w)
              | (None, w) \<Rightarrow> (Inr (if keyPrefix = [] then ''fluxroute'' else keyPrefix), w))))"

fun redis_acquire_loop ::
  "'w redis \<Rightarrow> ('w, 'x) env_scheme \<Rightarrow> nat \<Rightarrow> string \<Rightarrow> string \<Rightarrow> duration \<Rightarrow> 'w \<Rightarrow> Lease result option \<times> 'w" where
  "redis_acquire_loop rd env 0 fullKey token ttl w = (None, w)"
| "redis_acquire_loop rd env (Suc n) fullKey token ttl w =
     (case rd_SetNX rd fullKey token ttl w of
        (Inl e, w) \<Rightarrow> (Some (Inl (WrapErr ''redis setnx failed: '' e [])), w)
      | (Inr ok, w) \<Rightarrow>
          if ok then (Some (Inr (redisLease fullKey token)), w)
          else
            (case e_wait env (30 * millisecond) w of
               (Some e, w) \<Rightarrow> (Some (Inl (WrapErr ''acquire redis lease: '' e [])), w)
             | (None, w) \<Rightarrow> redis_acquire_loop rd env n fullKey token ttl w))"

definition redis_Acquire ::
  "'w redis \<Rightarrow> ('w, 'x) env_scheme \<Rightarrow> nat \<Rightarrow> string \<Rightarrow> string \<Rightarrow> duration \<Rightarrow> 'w \<Rightarrow> Lease result option \<times> 'w" where
  "redis_Acquire rd env n keyPrefix key ttl w =
     (case randomToken rd w of
        (Inl e, w) \<Rightarrow> (Some (Inl e), w)
      | (Inr token, w) \<Rightarrow> redis_acquire_loop rd env n (keyPrefix @ '':'' @ key) token (default_ttl ttl) w)"

text \<open>The Lua script: delete the key only if it still holds the caller's token.\<close>

definition release_script :: "'w redis \<Rightarrow> string \<Rightarrow> string \<Rightarrow> 'w \<Rightarrow> 'w" where
  "release_script rd key token w = (if rd_GET rd key w = Some token then rd_DEL rd key w else w)"

definition redis_Release :: "'w redis \<Rightarrow> string \<Rightarrow> string \<Rightarrow> 'w \<Rightarrow> goerr option \<times> 'w" where
  "redis_Release rd key token w =
     (case rd_EvalFault rd w of
        (Some e, w) \<Rightarrow> (Some (WrapErr ''release redis lease: '' e []), w)
      | (None, w) \<Rightarrow> (None, release_script rd key token w))"

section \<open>What a lease store promises\<close>

text \<open>
  \<open>lease_end s k\<close> is the time until which the store shows the key as held. A try fails exactly while
  the key is held, and then holds it for the time to live; a release gives it free.
\<close>

locale lease_store =
  fixes attempt :: "'st \<Rightarrow> time \<Rightarrow> string \<Rightarrow> duration \<Rightarrow> 'st option"
    and release :: "'st \<Rightarrow> string \<Rightarrow> 'st"
    and lease_end :: "'st \<Rightarrow> string \<Rightarrow> time option"
    and wf :: "'st \<Rightarrow> bool"
  assumes attempt_None: "wf s \<Longrightarrow> attempt s now k ttl = None \<longleftrightarrow> (\<exists>e. lease_end s k = Some e \<and> now \<le> e)"
    and attempt_Some: "wf s \<Longrightarrow> attempt s now k ttl = Some s' \<Longrightarrow>
      wf s' \<and> lease_end s' k = Some (now + ttl) \<and> (\<forall>k'. k' \<noteq> k \<longrightarrow> lease_end s' k' = lease_end s k')"
    and release_end: "wf s \<Longrightarrow> wf (release s k) \<and> lease_end (release s k) k = None
      \<and> (\<forall>k'. k' \<noteq> k \<longrightarrow> lease_end (release s k) k' = lease_end s k')"

text \<open>
  A history of clients on one store, with the leases that were granted and not yet given back. Time
  passes, attempts succeed or fail, and a client gives a lease back before it is over.
\<close>

inductive lease_history ::
  "('st \<Rightarrow> time \<Rightarrow> string \<Rightarrow> duration \<Rightarrow> 'st option) \<Rightarrow> ('st \<Rightarrow> string \<Rightarrow> 'st) \<Rightarrow> 'st
   \<Rightarrow> time \<Rightarrow> 'st \<Rightarrow> (nat \<times> string \<times> time) set \<Rightarrow> bool"
  for attempt release init where
  start: "lease_history attempt release init t init {}"
| tick: "lease_history attempt release init t' s H" if "lease_history attempt release init t s H" and "t \<le> t'"
| grant: "lease_history attempt release init t s' (insert (client, k, t + ttl) H)"
    if "lease_history attempt release init t s H" and "attempt s t k ttl = Some s'"
| give_back: "lease_history attempt release init t (release s k) (H - {(client, k, e)})"
    if "lease_history attempt release init t s H" and "(client, k, e) \<in> H" and "t \<le> e"

inductive_simps lease_history_unfold: "lease_history attempt release init t s H"

context lease_store
begin

lemma history_invariant:
  assumes "lease_history attempt release init t s H" and "wf init"
  shows "wf s \<and> (\<forall>c k e. (c, k, e) \<in> H \<longrightarrow> t \<le> e \<longrightarrow> lease_end s k = Some e)
    \<and> (\<forall>c k e c' e'. (c, k, e) \<in> H \<longrightarrow> t \<le> e \<longrightarrow> (c', k, e') \<in> H \<longrightarrow> t \<le> e' \<longrightarrow> c' = c \<and> e' = e)"
  using assms
proof (induction rule: lease_history.induct)
  case (start t)
  then show ?case by simp
next
  case (tick t s H t')
  then show ?case by (meson order_trans)
next
  case (grant t s H k ttl s' client)
  then have wf: "wf s" and held: "(c, k', e) \<in> H \<Longrightarrow> t \<le> e \<Longrightarrow> lease_end s k' = Some e" for c k' e by auto
  have free: "k' \<noteq> k" if "(c, k', e) \<in> H" "t \<le> e" for c k' e
    using held [OF that] attempt_None [OF wf, of t k ttl] grant.hyps(2) that(2) by auto
  have new: "wf s'" "lease_end s' k = Some (t + ttl)" "\<forall>k'. k' \<noteq> k \<longrightarrow> lease_end s' k' = lease_end s k'"
    using attempt_Some [OF wf grant.hyps(2)] by auto
  have "\<forall>c k' e. (c, k', e) \<in> insert (client, k, t + ttl) H \<longrightarrow> t \<le> e \<longrightarrow> lease_end s' k' = Some e"
    using new free held by auto
  moreover have "\<forall>c k' e c' e'. (c, k', e) \<in> insert (client, k, t + ttl) H \<longrightarrow> t \<le> e
      \<longrightarrow> (c', k', e') \<in> insert (client, k, t + ttl) H \<longrightarrow> t \<le> e' \<longrightarrow> c' = c \<and> e' = e"
    using grant.IH [OF grant.prems] free by blast
  ultimately show ?case using new(1) by blast
next
  case (give_back t s H client k e)
  then have wf: "wf s" and held: "(c, k', e') \<in> H \<Longrightarrow> t \<le> e' \<Longrightarrow> lease_end s k' = Some e'"
    and one: "(c, k', e') \<in> H \<Longrightarrow> t \<le> e' \<Longrightarrow> (c', k', e'') \<in> H \<Longrightarrow> t \<le> e'' \<Longrightarrow> c' = c \<and> e'' = e'" for c c' k' e' e''
    by auto
  have others: "k' \<noteq> k" if "(c, k', e') \<in> H - {(client, k, e)}" "t \<le> e'" for c k' e'
    using one [OF give_back.hyps(2,3), of c e'] that by auto
  have "\<forall>c k' e'. (c, k', e') \<in> H - {(client, k, e)} \<longrightarrow> t \<le> e' \<longrightarrow> lease_end (release s k) k' = Some e'"
    using release_end [OF wf, of k] others held by (metis DiffD1)
  with release_end [OF wf, of k] one show ?case by blast
qed

lemma exclusive:
  assumes "lease_history attempt release init t s H" and "wf init"
    and "(c, k, e) \<in> H" and "(c', k, e') \<in> H" and "t \<le> e" and "t \<le> e'"
  shows "c' = c \<and> e' = e"
  using history_invariant [OF assms(1,2)] assms(3-6) by blast

end

section \<open>The stores keep the promise\<close>

interpretation memory_store: lease_store mem_try memory_Release "\<lambda>locks k. locks k" "\<lambda>_. True"
  by unfold_locales (auto simp: mem_try_def memory_Release_def time_after_def time_add_def split: option.splits if_splits)

text \<open>A round of the file coordinator that nobody interrupts: an expired file is removed and created anew.\<close>

definition file_create :: "lock_files \<Rightarrow> time \<Rightarrow> string \<Rightarrow> duration \<Rightarrow> lock_files option" where
  "file_create files now path ttl =
     (case open_excl path None files of
        (Opened node, files) \<Rightarrow> Some (snd (write_expiry node (time_add now ttl) None files))
      | (_, files) \<Rightarrow> None)"

definition file_try :: "lock_files \<Rightarrow> time \<Rightarrow> string \<Rightarrow> duration \<Rightarrow> lock_files option" where
  "file_try files now path ttl =
     (case file_create files now path ttl of
        Some files \<Rightarrow> Some files
      | None \<Rightarrow>
          if fst (expired path now None files)
          then file_create (snd (remove_lock path None files)) now path ttl
          else None)"

definition file_lease_end :: "lock_files \<Rightarrow> string \<Rightarrow> time option" where
  "file_lease_end files path = (case lf_dir files path of None \<Rightarrow> None | Some node \<Rightarrow> lf_data files node)"

definition lock_files_ok :: "lock_files \<Rightarrow> bool" where
  "lock_files_ok files \<longleftrightarrow>
     (\<forall>path node. lf_dir files path = Some node \<longrightarrow> node < lf_next files \<and> lf_data files node \<noteq> None)
     \<and> inj_on (lf_dir files) (dom (lf_dir files))"

lemma file_create_None: "file_create files now path ttl = None \<longleftrightarrow> lf_dir files path \<noteq> None"
  by (auto simp: file_create_def open_excl_def)

lemma file_create_Some:
  assumes "lock_files_ok files" and "file_create files now path ttl = Some files'"
  shows "lock_files_ok files'" "file_lease_end files' path = Some (now + ttl)"
    "path' \<noteq> path \<Longrightarrow> file_lease_end files' path' = file_lease_end files path'"
proof -
  let ?n = "lf_next files"
  have free: "lf_dir files path = None" using assms(2) file_create_None [of files now path ttl] by simp
  have files': "files' = files\<lparr>lf_dir := (lf_dir files)(path \<mapsto> ?n), lf_data := (lf_data files)(?n \<mapsto> now + ttl), lf_next := Suc ?n\<rparr>"
    using assms(2) free by (auto simp: file_create_def open_excl_def write_expiry_def time_add_def)
  have fresh: "lf_dir files p \<noteq> Some ?n" for p
    using assms(1) by (auto simp: lock_files_ok_def)
  have "inj_on (lf_dir files') (dom (lf_dir files'))"
    using assms(1) fresh unfolding lock_files_ok_def inj_on_def files' by (auto simp: dom_def)
  then show "lock_files_ok files'"
    using assms(1) by (auto simp: lock_files_ok_def files' less_SucI)
  show "file_lease_end files' path = Some (now + ttl)" by (simp add: file_lease_end_def files')
  show "path' \<noteq> path \<Longrightarrow> file_lease_end files' path' = file_lease_end files path'"
    using fresh by (auto simp: file_lease_end_def files' split: option.split)
qed

definition unlink :: "lock_files \<Rightarrow> string \<Rightarrow> lock_files" where
  "unlink files path = snd (remove_lock path None files)"

lemma unlink_dir: "lf_dir (unlink files path) = (lf_dir files)(path := None)"
  by (auto simp: unlink_def remove_lock_def)

lemma unlink_facts:
  assumes "lock_files_ok files"
  shows "lock_files_ok (unlink files path)" "file_lease_end (unlink files path) path = None"
    "path' \<noteq> path \<Longrightarrow> file_lease_end (unlink files path) path' = file_lease_end files path'"
  using assms
  by (auto simp: unlink_def remove_lock_def lock_files_ok_def file_lease_end_def inj_on_def dom_def split: option.splits)

lemma file_try_eq:
  "file_try files now path ttl =
     (case lf_dir files path of
        None \<Rightarrow> file_create files now path ttl
      | Some node \<Rightarrow>
          if (\<exists>e. lf_data files node = Some e \<and> now \<le> e) then None
          else file_create (unlink files path) now path ttl)"
proof (cases "lf_dir files path")
  case None
  then have "file_create files now path ttl \<noteq> None" by (simp add: file_create_None)
  with None show ?thesis by (auto simp: file_try_def)
next
  case (Some node)
  then have "file_create files now path ttl = None" by (simp add: file_create_None)
  with Some show ?thesis
    by (auto simp: file_try_def expired_def time_after_def unlink_def split: option.splits)
qed

lemma file_try_None:
  assumes "lock_files_ok files"
  shows "file_try files now path ttl = None \<longleftrightarrow> (\<exists>e. file_lease_end files path = Some e \<and> now \<le> e)"
  by (auto simp: file_try_eq file_create_None unlink_dir file_lease_end_def split: option.splits)

lemma file_try_Some:
  assumes "lock_files_ok files" and "file_try files now path ttl = Some files'"
  shows "lock_files_ok files' \<and> file_lease_end files' path = Some (now + ttl)
    \<and> (\<forall>path'. path' \<noteq> path \<longrightarrow> file_lease_end files' path' = file_lease_end files path')"
proof -
  obtain files0 where "files0 = files \<or> files0 = unlink files path" and "file_create files0 now path ttl = Some files'"
    using assms(2) by (auto simp: file_try_eq split: option.splits if_splits)
  moreover from this(1) have "lock_files_ok files0"
    and "path' \<noteq> path \<Longrightarrow> file_lease_end files0 path' = file_lease_end files path'" for path'
    using assms(1) unlink_facts by auto
  ultimately show ?thesis using file_create_Some by metis
qed

interpretation file_store: lease_store file_try unlink file_lease_end lock_files_ok
  by unfold_locales (simp_all add: file_try_None file_try_Some unlink_facts)

text \<open>
  \<open>file_try\<close> is what the loop of \<open>Acquire\<close> does when it runs alone, at one moment, without faults.
\<close>

definition calm :: "'w fs_env \<Rightarrow> time \<Rightarrow> bool" where
  "calm fe now \<longleftrightarrow> (\<forall>w. e_now fe w = (now, w)) \<and> (\<forall>fsop path w. fs_fault fe fsop path w = (None, w))"

lemma file_acquire_alone:
  assumes "calm fe now"
  shows "run_prog (file_acquire_loop fe (Suc (Suc n)) path ttl) s =
    (case file_try (co_store s) now path ttl of
       Some files \<Rightarrow> (Some (Inr (fileLease path)), s\<lparr>co_store := files\<rparr>)
     | None \<Rightarrow> run_prog (co_wait fe (25 * millisecond) (\<lambda>ctxErr.
               case ctxErr of
                 Some e \<Rightarrow> Return (Some (Inl (WrapErr ''acquire file lease: '' e [])))
               | None \<Rightarrow> file_acquire_loop fe (Suc n) path ttl)) s)"
  using assms
  by (auto simp: calm_def co_now_def fs_act_def file_try_def file_create_def open_excl_def write_expiry_def
      expired_def remove_lock_def split: option.splits prod.splits)

section \<open>Properties\<close>

text \<open>
  C10: Mutual exclusion of the coordinator in memory. In every history in which clients give their
  leases back before these are over, two leases on the same key that are both still valid are one
  and the same: they belong to the same client.
\<close>

theorem memory_lease_exclusive:
  assumes "lease_history mem_try memory_Release NewMemoryCoordinator t locks granted"
    and "(client, key, expiry) \<in> granted" and "(client', key, expiry') \<in> granted"
    and "t \<le> expiry" and "t \<le> expiry'"
  shows "client' = client \<and> expiry' = expiry"
  by (rule memory_store.exclusive [OF assms(1) _ assms(2-5)]) simp

text \<open>
  A late release takes away the lease of somebody else. A client whose lease is over before it
  calls \<open>Release\<close> deletes the entry of the next holder, because \<open>Release\<close> does not look whose entry it
  is; a third client then gets the key at once, while the lease of the second is still valid.
\<close>

theorem late_release_breaks_exclusion:
  assumes "mem_try locks t key ttl = Some locks1" and "t + ttl < t'"
  shows "\<exists>locks2 locks3. mem_try locks1 t' key ttl' = Some locks2 \<and> locks2 key = Some (t' + ttl')
    \<and> mem_try (memory_Release locks2 key) t' key ttl'' = Some locks3"
proof -
  have "locks1 key = Some (t + ttl)" using memory_store.attempt_Some [OF _ assms(1)] by simp
  with assms(2) show ?thesis by (simp add: mem_try_def memory_Release_def time_after_def time_add_def)
qed

theorem late_release_breaks_exclusion_witness:
  "\<exists>locks1 locks2 locks3. mem_try NewMemoryCoordinator 0 ''job'' 10 = Some locks1
     \<and> mem_try locks1 11 ''job'' 50 = Some locks2 \<and> locks2 ''job'' = Some 61
     \<and> mem_try (memory_Release locks2 ''job'') 11 ''job'' 50 = Some locks3"
proof -
  have first: "mem_try NewMemoryCoordinator 0 ''job'' 10 = Some [''job'' \<mapsto> 10]"
    by (simp add: mem_try_def NewMemoryCoordinator_def time_add_def)
  from late_release_breaks_exclusion [OF first, of 11 50 50] obtain locks2 locks3 where
    "mem_try [''job'' \<mapsto> 10] 11 ''job'' 50 = Some locks2" "locks2 ''job'' = Some 61"
    "mem_try (memory_Release locks2 ''job'') 11 ''job'' 50 = Some locks3" by auto
  with first show ?thesis by blast
qed

theorem memory_lease_exclusive_witness:
  "lease_history mem_try memory_Release NewMemoryCoordinator 3 [''job'' \<mapsto> 10] {(1, ''job'', 10)}
   \<and> {(client, expiry). (client, ''job'', expiry) \<in> {(1 :: nat, ''job'', 10 :: int)} \<and> 3 \<le> expiry} = {(1, 10)}"
proof -
  have first: "mem_try NewMemoryCoordinator 0 ''job'' 10 = Some [''job'' \<mapsto> 10]"
    by (simp add: mem_try_def NewMemoryCoordinator_def time_add_def)
  have "lease_history mem_try memory_Release NewMemoryCoordinator 0 [''job'' \<mapsto> 10] {(1, ''job'', 0 + 10)}"
    by (rule lease_history.grant) (rule lease_history.start, rule first)
  from lease_history.tick [OF this, of 3]
  have hist: "lease_history mem_try memory_Release NewMemoryCoordinator 3 [''job'' \<mapsto> 10] {(1, ''job'', 10)}" by simp
  moreover have "client = 1 \<and> expiry = 10"
    if "(client, ''job'', expiry) \<in> {(1 :: nat, ''job'', 10 :: int)}" and "3 \<le> expiry" for client expiry
    using memory_lease_exclusive [OF hist _ that(1), of 1 10] that(2) by simp
  ultimately show ?thesis by auto
qed

text \<open>A clock that stands still, a file system without faults, and an empty directory.\<close>

definition frozen :: "unit fs_env" where
  "frozen = \<lparr>e_now = (\<lambda>w. (0, w)), e_wait = (\<lambda>_ w. (None, w)), fs_fault = (\<lambda>_ _ w. (None, w))\<rparr>"

definition empty_dir :: lock_files where
  "empty_dir = \<lparr>lf_dir = Map.empty, lf_data = Map.empty, lf_next = 0\<rparr>"

text \<open>
  C19: The file coordinator does not exclude. Two processes call \<open>Acquire\<close> for the same key at the
  same moment, with any time to live, and both return a lease: the second one reads the lock file
  between its creation and the writing of its expiry, takes the empty file for an expired one,
  removes it and creates its own. No lease has run out and no operation has failed.
\<close>

theorem file_acquire_race:
  "\<exists>sched. let P = run_sched 2 sched (start_pool [Spawn (file_Acquire frozen 2 dir key ttl),
                      Spawn (file_Acquire frozen 2 dir key ttl)] \<lparr>co_store = empty_dir, co_world = ()\<rparr>)
     in pool_done P \<and> p_channel P = [Some (Inr (fileLease (lock_path dir key))), Some (Inr (fileLease (lock_path dir key)))]
        \<and> file_lease_end (co_store (p_shared P)) (lock_path dir key) = Some (default_ttl ttl)"
  by (rule exI [of _ "[None, None, Some 0, Some 0, Some 0, Some 0, Some 1, Some 1, Some 1, Some 1, Some 1, Some 1,
       Some 1, Some 1, Some 1, Some 1, Some 0, Some 0]"])
    (simp add: run_sched_def start_pool_def running_def pool_done_def file_Acquire_def co_now_def fs_act_def act_def
      frozen_def empty_dir_def open_excl_def expired_def remove_lock_def write_expiry_def file_lease_end_def time_add_def
      numeral_2_eq_2)

text \<open>
  C20: A waiting \<open>Acquire\<close> returns. If nobody touches the key any more, the context is not cancelled and
  every pause lasts at least its 20 milliseconds, the call gets the lease after at most as many
  rounds as pauses fit into the remaining time of the present holder.
\<close>

theorem memory_acquire_terminates:
  assumes now: "\<And>w. e_now env w = (clk w, w)"
    and pause: "\<And>w. \<exists>w'. e_wait env (20 * millisecond) w = (None, w') \<and> clk w + 20 * millisecond \<le> clk w'"
    and held: "co_store s key = Some e" and rounds: "e - clk (co_world s) < int n * (20 * millisecond)"
  shows "\<exists>s'. run_prog (memory_Acquire env (Suc n) key ttl) s = (Some (Inr (memoryLease key)), s')"
proof -
  have "\<exists>s'. run_prog (mem_acquire_loop env (Suc n) key d) s = (Some (Inr (memoryLease key)), s')" for d
    using held rounds
  proof (induction n arbitrary: s)
    case 0
    then show ?case by (simp add: mem_round_def now mem_try_def time_after_def)
  next
    case (Suc n)
    show ?case
    proof (cases "e < clk (co_world s)")
      case True
      with Suc.prems(1) show ?thesis by (simp add: mem_round_def now mem_try_def time_after_def)
    next
      case False
      obtain w' where w': "e_wait env (20 * millisecond) (co_world s) = (None, w')"
        "clk (co_world s) + 20 * millisecond \<le> clk w'" using pause by blast
      let ?s = "s\<lparr>co_world := w'\<rparr>"
      have "run_prog (mem_acquire_loop env (Suc (Suc n)) key d) s = run_prog (mem_acquire_loop env (Suc n) key d) ?s"
        using False Suc.prems(1) w'(1)
        by (simp add: mem_acquire_loop.simps(2) [of env "Suc n"] mem_round_def now mem_try_def time_after_def co_wait_def
            del: mem_acquire_loop.simps)
      moreover have "co_store ?s key = Some e" "e - clk (co_world ?s) < int n * (20 * millisecond)"
        using Suc.prems w'(2) by (simp_all add: algebra_simps)
      ultimately show ?thesis using Suc.IH [of ?s] by simp
    qed
  qed
  then show ?thesis by (simp add: memory_Acquire_def del: mem_acquire_loop.simps)
qed

text \<open>A clock that a pause advances by its own length.\<close>

definition steady :: "int env" where
  "steady = \<lparr>e_now = (\<lambda>w. (w, w)), e_wait = (\<lambda>d w. (None, w + d))\<rparr>"

theorem memory_acquire_terminates_witness:
  "\<exists>s'. run_prog (memory_Acquire steady 8 ''job'' 5) \<lparr>co_store = [''job'' \<mapsto> 100000000], co_world = 1\<rparr>
     = (Some (Inr (memoryLease ''job'')), s')"
proof -
  have "\<exists>s'. run_prog (memory_Acquire steady (Suc 7) ''job'' 5) \<lparr>co_store = [''job'' \<mapsto> 100000000], co_world = 1\<rparr>
     = (Some (Inr (memoryLease ''job'')), s')"
    by (rule memory_acquire_terminates [where clk = "\<lambda>w. w" and e = 100000000]) (simp_all add: steady_def)
  then show ?thesis by simp
qed

text \<open>
  What the Redis coordinator relies on, as the Redis commands are documented. \<open>view w k\<close> is the value
  of a key that exists and has not expired: \<open>GET\<close> reads it, \<open>DEL\<close> removes it, and \<open>SET NX\<close> sets it exactly
  if it is absent.
\<close>

definition redis_commands :: "'w redis \<Rightarrow> ('w \<Rightarrow> string \<rightharpoonup> string) \<Rightarrow> bool" where
  "redis_commands rd view \<longleftrightarrow>
     (\<forall>k w. rd_GET rd k w = view w k)
     \<and> (\<forall>k w. view (rd_DEL rd k w) = (view w)(k := None))
     \<and> (\<forall>k v ttl w ok w'. rd_SetNX rd k v ttl w = (Inr ok, w') \<longrightarrow>
          (ok \<longleftrightarrow> view w k = None) \<and> view w' = (if ok then (view w)(k \<mapsto> v) else view w))
     \<and> (\<forall>w w'. rd_EvalFault rd w = (None, w') \<longrightarrow> view w' = view w)"

lemma redis_acquire_loop_holds:
  assumes "redis_commands rd view"
    and "redis_acquire_loop rd env n fullKey token ttl w = (Some (Inr (redisLease k tok)), w')"
  shows "k = fullKey \<and> tok = token \<and> view w' k = Some tok"
  using assms(2)
proof (induction n arbitrary: w)
  case (Suc n)
  obtain r w1 where set: "rd_SetNX rd fullKey token ttl w = (r, w1)" by fastforce
  show ?case
  proof (cases r)
    case (Inl e)
    with Suc.prems set show ?thesis by simp
  next
    case (Inr ok)
    show ?thesis
    proof (cases ok)
      case True
      with assms(1) set Inr have "view w1 fullKey = Some token" by (simp add: redis_commands_def)
      with Suc.prems set Inr True show ?thesis by simp
    next
      case False
      with Suc.prems set Inr obtain w2 where
        "redis_acquire_loop rd env n fullKey token ttl w2 = (Some (Inr (redisLease k tok)), w')"
        by (auto split: prod.splits option.splits)
      with Suc.IH show ?thesis by blast
    qed
  qed
qed simp

text \<open>
  C21: Only the owner can end a lease of the Redis coordinator. When \<open>Acquire\<close> returns a lease, the key
  holds the lease's own token; a \<open>Release\<close> with any other token, for instance by a client whose lease
  has expired, leaves it in place, and the owner's \<open>Release\<close> frees the key and no other.
\<close>

theorem redis_release_owner_only:
  assumes redis: "redis_commands rd view"
    and acquire: "redis_Acquire rd env n keyPrefix key ttl w = (Some (Inr (redisLease k tok)), w1)"
  shows "k = keyPrefix @ '':'' @ key \<and> view w1 k = Some tok
    \<and> (\<forall>tok' k' err w2. redis_Release rd k' tok' w1 = (err, w2) \<longrightarrow> tok' \<noteq> tok \<longrightarrow> err = None \<longrightarrow> view w2 k = Some tok)
    \<and> (\<forall>w2. redis_Release rd k tok w1 = (None, w2) \<longrightarrow> view w2 = (view w1)(k := None))"
proof -
  from acquire obtain token w0 where
    "redis_acquire_loop rd env n (keyPrefix @ '':'' @ key) token (default_ttl ttl) w0 = (Some (Inr (redisLease k tok)), w1)"
    by (auto simp: redis_Acquire_def split: prod.splits sum.splits)
  from redis_acquire_loop_holds [OF redis this] have k: "k = keyPrefix @ '':'' @ key" "view w1 k = Some tok" by auto
  have rel: "view w2 = (if view w1 k' = Some tok' then (view w1)(k' := None) else view w1)"
    if "redis_Release rd k' tok' w1 = (None, w2)" for k' tok' w2
  proof -
    from that obtain w' where "rd_EvalFault rd w1 = (None, w')" "w2 = release_script rd k' tok' w'"
      by (auto simp: redis_Release_def split: prod.splits option.splits)
    with redis show ?thesis by (simp add: release_script_def redis_commands_def)
  qed
  have "view w2 k = Some tok" if "redis_Release rd k' tok' w1 = (None, w2)" "tok' \<noteq> tok" for k' tok' w2
    using rel [OF that(1)] that(2) k(2) by auto
  moreover have "view w2 = (view w1)(k := None)" if "redis_Release rd k tok w1 = (None, w2)" for w2
    using rel [OF that] k(2) by simp
  ultimately show ?thesis using k by blast
qed

text \<open>A server in which no key ever expires, and the token \<open>00\<close>.\<close>

definition plain_redis :: "(string \<rightharpoonup> string) redis" where
  "plain_redis = \<lparr>rd_ParseURL = (\<lambda>_. None), rd_Ping = (\<lambda>w. (None, w)),
     rd_SetNX = (\<lambda>k v _ w. if w k = None then (Inr True, w(k \<mapsto> v)) else (Inr False, w)),
     rd_GET = (\<lambda>k w. w k), rd_DEL = (\<lambda>k w. w(k := None)), rd_EvalFault = (\<lambda>w. (None, w)),
     rd_Rand = (\<lambda>w. (Inr [CHR 0x00], w))\<rparr>"

theorem redis_release_owner_only_witness:
  "redis_Acquire plain_redis \<lparr>e_now = (\<lambda>w. (0, w)), e_wait = (\<lambda>_ w. (None, w))\<rparr> 1 ''app'' ''job'' 0 Map.empty
     = (Some (Inr (redisLease ''app:job'' ''00'')), [''app:job'' \<mapsto> ''00''])
   \<and> snd (redis_Release plain_redis ''app:job'' ''ff'' [''app:job'' \<mapsto> ''00'']) ''app:job'' = Some ''00''"
proof -
  let ?env = "\<lparr>e_now = (\<lambda>w. (0, w)), e_wait = (\<lambda>_ w. (None, w))\<rparr>"
  have redis: "redis_commands plain_redis (\<lambda>w. w)"
    by (auto simp: redis_commands_def plain_redis_def split: if_splits)
  have acquire: "redis_Acquire plain_redis ?env 1 ''app'' ''job'' 0 Map.empty
     = (Some (Inr (redisLease ''app:job'' ''00'')), [''app:job'' \<mapsto> ''00''])"
    by (simp add: redis_Acquire_def randomToken_def plain_redis_def hex_encode_def hex_digit_def char_of_def bit_0)
  obtain err w2 where rel: "redis_Release plain_redis ''app:job'' ''ff'' [''app:job'' \<mapsto> ''00''] = (err, w2)" by fastforce
  then have "err = None" by (simp add: redis_Release_def plain_redis_def)
  with redis_release_owner_only [OF redis acquire] rel have "w2 ''app:job'' = Some ''00''" by simp
  with acquire rel show ?thesis by simp
qed

end
