(* ===== verification/GoUtf8.thy ===== *)
theory GoUtf8
  imports GoStrings
begin

text \<open>
  UTF-8 as Go's package \<open>unicode/utf8\<close> reads and writes it, on byte strings: the size of the code
  point at the front of a string (0 for bytes that are not UTF-8), valid strings, and the bytes of a
  code point.
\<close>

abbreviation byte :: "char \<Rightarrow> nat" where "byte c \<equiv> of_char c"

definition byte_in :: "nat \<Rightarrow> nat \<Rightarrow> char \<Rightarrow> bool" where
  "byte_in lo hi c \<longleftrightarrow> lo \<le> byte c \<and> byte c \<le> hi"

text \<open>The range of the second byte depends on the first one: no overlong forms, no surrogates.\<close>

definition second_byte :: "char \<Rightarrow> char \<Rightarrow> bool" where
  "second_byte a b \<longleftrightarrow>
     (if byte a = 224 then byte_in 160 191 b
      else if byte a = 237 then byte_in 128 159 b
      else if byte a = 240 then byte_in 144 191 b
      else if byte a = 244 then byte_in 128 143 b
      else byte_in 128 191 b)"

definition rune_len :: "char \<Rightarrow> nat" where
  "rune_len a =
     (if byte a < 128 then 1
      else if byte_in 194 223 a then 2
      else if byte_in 224 239 a then 3
      else if byte_in 240 244 a then 4
      else 0)"

definition rune_tail :: "char \<Rightarrow> string \<Rightarrow> bool" where
  "rune_tail a t \<longleftrightarrow> (case t of [] \<Rightarrow> True | b # r \<Rightarrow> second_byte a b \<and> list_all (byte_in 128 191) r)"

definition utf8_size :: "string \<Rightarrow> nat" where
  "utf8_size s =
     (case s of
        [] \<Rightarrow> 0
      | a # r \<Rightarrow> if rune_len a \<le> length s \<and> rune_tail a (take (rune_len a - 1) r) then rune_len a else 0)"

function utf8_valid :: "string \<Rightarrow> bool" where
  "utf8_valid s \<longleftrightarrow>
     (if s = [] then True else if utf8_size s = 0 then False else utf8_valid (drop (utf8_size s) s))"
  by pat_completeness auto
termination by (relation "measure length") auto

declare utf8_valid.simps [simp del]

text \<open>\<open>utf8.AppendRune\<close>; a surrogate or a number out of range becomes U+FFFD.\<close>

definition encode_rune :: "nat \<Rightarrow> string" where
  "encode_rune r =
     (if r < 128 then byte_string [r]
      else if r < 2048 then byte_string [192 + r div 64, 128 + r mod 64]
      else if r > 1114111 \<or> 55296 \<le> r \<and> r < 57344 then byte_string [239, 191, 189]
      else if r < 65536 then byte_string [224 + r div 4096, 128 + r div 64 mod 64, 128 + r mod 64]
      else byte_string [240 + r div 262144, 128 + r div 4096 mod 64, 128 + r div 64 mod 64, 128 + r mod 64])"

definition replacement :: string where "replacement = encode_rune 65533"

section \<open>Valid strings\<close>

lemma utf8_valid_Nil [simp]: "utf8_valid []"
  by (simp add: utf8_valid.simps)

lemma utf8_size_ascii [simp]: "byte c < 128 \<Longrightarrow> utf8_size (c # s) = 1"
  by (simp add: utf8_size_def rune_len_def rune_tail_def)

lemma utf8_valid_ascii [simp]: "byte c < 128 \<Longrightarrow> utf8_valid (c # s) \<longleftrightarrow> utf8_valid s"
  by (subst utf8_valid.simps) simp

lemma ascii_valid: "ascii s \<Longrightarrow> utf8_valid s"
  by (induction s) (auto simp: ascii_def)

lemma utf8_size_le: "utf8_size s \<le> length s"
  by (auto simp: utf8_size_def split: list.split)

lemma utf8_size_Cons:
  "utf8_size (a # r) \<noteq> 0 \<longleftrightarrow> rune_len a \<noteq> 0 \<and> rune_len a \<le> Suc (length r) \<and> rune_tail a (take (rune_len a - 1) r)"
  "utf8_size (a # r) \<noteq> 0 \<Longrightarrow> utf8_size (a # r) = rune_len a"
  by (auto simp: utf8_size_def)

lemma rune_tail_bytes: "rune_tail a t \<Longrightarrow> c \<in> set t \<Longrightarrow> 128 \<le> byte c"
  by (auto simp: rune_tail_def second_byte_def byte_in_def list_all_iff split: list.splits if_splits)

text \<open>The bytes of a code point outside ASCII are all outside ASCII, and what follows does not matter.\<close>

lemma utf8_size_bytes:
  assumes "utf8_size (a # r) \<noteq> 0" and "128 \<le> byte a" and "c \<in> set (take (utf8_size (a # r)) (a # r))"
  shows "128 \<le> byte c"
proof -
  have "rune_tail a (take (rune_len a - 1) r)" and "utf8_size (a # r) = rune_len a"
    using assms(1) utf8_size_Cons [of a r] by blast+
  with rune_tail_bytes [of a _ c] assms(2,3) show ?thesis by (auto simp: take_Cons' split: if_splits)
qed

lemma utf8_size_take:
  assumes "utf8_size s \<noteq> 0"
  shows "utf8_size (take (utf8_size s) s @ t) = utf8_size s"
proof (cases s)
  case (Cons a r)
  have n: "utf8_size s = rune_len a" "rune_len a \<noteq> 0" "rune_len a \<le> Suc (length r)" "rune_tail a (take (rune_len a - 1) r)"
    using assms utf8_size_Cons [of a r] by (auto simp: Cons)
  then have "take (utf8_size s) s = a # take (rune_len a - 1) r" by (simp add: Cons take_Cons')
  with n show ?thesis by (simp add: utf8_size_def min_def)
qed (use assms in \<open>simp add: utf8_size_def\<close>)

lemma utf8_size_append: "utf8_size s \<noteq> 0 \<Longrightarrow> utf8_size (s @ t) = utf8_size s"
  using utf8_size_take [of s "drop (utf8_size s) s @ t"] by (metis append.assoc append_take_drop_id)

lemma utf8_valid_step:
  "s \<noteq> [] \<Longrightarrow> utf8_valid s \<longleftrightarrow> utf8_size s \<noteq> 0 \<and> utf8_valid (drop (utf8_size s) s)"
  by (subst utf8_valid.simps) simp

lemma utf8_valid_append: "utf8_valid s \<Longrightarrow> utf8_valid t \<Longrightarrow> utf8_valid (s @ t)"
proof (induction s rule: utf8_valid.induct)
  case (1 s)
  show ?case
  proof (cases "s = []")
    case False
    with "1.prems"(1) have n: "utf8_size s \<noteq> 0" "utf8_valid (drop (utf8_size s) s)" by (simp_all add: utf8_valid_step)
    have "utf8_valid (drop (utf8_size s) s @ t)" by (rule "1.IH" [OF False n "1.prems"(2)])
    with False n(1) utf8_size_append [OF n(1), of t] utf8_size_le [of s] show ?thesis
      by (simp add: utf8_valid_step [of "s @ t"])
  qed (use "1.prems" in simp)
qed

end
