(* ===== verification/GoJsonText.thy ===== *)
theory GoJsonText
  imports GoJson GoUtf8
begin

text \<open>
  The text of JSON documents: \<open>json.Marshal\<close> and \<open>json.MarshalIndent\<close> of a value, and the reader of
  \<open>encoding/json\<close>, which is the scanner of its file \<open>scanner.go\<close> (one step per byte, a stack of open
  arrays and objects, the same error messages) with the values it delimits. Every document that is
  written from a value is read back as that value.
\<close>

section \<open>Strings\<close>

definition u_escape :: "nat \<Rightarrow> string" where
  "u_escape r = byte_string [92, 117]
     @ [hex_digit (r div 4096), hex_digit (r div 256 mod 16), hex_digit (r div 16 mod 16), hex_digit (r mod 16)]"

text \<open>With the escapes for HTML that \<open>Marshal\<close> makes.\<close>

definition escape_ascii :: "char \<Rightarrow> string" where
  "escape_ascii c =
     (let n = byte c in
      if n = 34 \<or> n = 92 then byte_string [92, n]
      else if n = 8 then byte_string [92, 98]
      else if n = 12 then byte_string [92, 102]
      else if n = 10 then byte_string [92, 110]
      else if n = 13 then byte_string [92, 114]
      else if n = 9 then byte_string [92, 116]
      else if n < 32 \<or> n = 60 \<or> n = 62 \<or> n = 38 then u_escape n
      else [c])"

function json_escape :: "string \<Rightarrow> string" where
  "json_escape s =
     (case s of
        [] \<Rightarrow> []
      | c # r \<Rightarrow>
          if byte c < 128 then escape_ascii c @ json_escape r
          else if utf8_size s = 0 then u_escape 65533 @ json_escape r
          else
            (let bs = take (utf8_size s) s
             in (if bs = byte_string [226, 128, 168] then u_escape 8232
                 else if bs = byte_string [226, 128, 169] then u_escape 8233 else bs)
                @ json_escape (drop (utf8_size s) s)))"
  by pat_completeness auto
termination by (relation "measure length") auto

declare json_escape.simps [simp del]

definition json_string :: "string \<Rightarrow> string" where
  "json_string s = byte_string [34] @ json_escape s @ byte_string [34]"

definition hex_val :: "char \<Rightarrow> nat option" where
  "hex_val c =
     (if byte_in 48 57 c then Some (byte c - 48)
      else if byte_in 97 102 c then Some (byte c - 87)
      else if byte_in 65 70 c then Some (byte c - 55)
      else None)"

text \<open>\<open>getu4\<close>: the number of an escape \<open>\uXXXX\<close> at the front.\<close>

definition getu4 :: "string \<Rightarrow> nat option" where
  "getu4 s =
     (case s of
        b # u # h1 # h2 # h3 # h4 # _ \<Rightarrow>
          if byte b = 92 \<and> byte u = 117 then
            (case (hex_val h1, hex_val h2, hex_val h3, hex_val h4) of
               (Some x1, Some x2, Some x3, Some x4) \<Rightarrow> Some (((x1 * 16 + x2) * 16 + x3) * 16 + x4)
             | _ \<Rightarrow> None)
          else None
      | _ \<Rightarrow> None)"

text \<open>\<open>utf16.DecodeRune\<close>; \<open>None\<close> where the pair is not a surrogate pair.\<close>

definition surrogate_pair :: "nat \<Rightarrow> nat \<Rightarrow> nat option" where
  "surrogate_pair r1 r2 =
     (if 55296 \<le> r1 \<and> r1 < 56320 \<and> 56320 \<le> r2 \<and> r2 < 57344
      then Some ((r1 - 55296) * 1024 + (r2 - 56320) + 65536) else None)"

definition simple_escape :: "char \<Rightarrow> char" where
  "simple_escape c =
     (let n = byte c in
      if n = 98 then char_of (8 :: nat) else if n = 102 then char_of (12 :: nat) else if n = 110 then char_of (10 :: nat)
      else if n = 114 then char_of (13 :: nat) else if n = 116 then char_of (9 :: nat) else c)"

text \<open>\<open>unquoteBytes\<close> on the inside of a literal that the scanner has accepted.\<close>

function json_unquote :: "string \<Rightarrow> string" where
  "json_unquote s =
     (case s of
        [] \<Rightarrow> []
      | c # r \<Rightarrow>
          if byte c = 92 then
            (case getu4 s of
               None \<Rightarrow> (case r of [] \<Rightarrow> [] | e # r' \<Rightarrow> simple_escape e # json_unquote r')
             | Some r1 \<Rightarrow>
                 (case Option.bind (getu4 (drop 6 s)) (surrogate_pair r1) of
                    Some x \<Rightarrow> encode_rune x @ json_unquote (drop 12 s)
                  | None \<Rightarrow> encode_rune r1 @ json_unquote (drop 6 s)))
          else if byte c < 128 then c # json_unquote r
          else if utf8_size s = 0 then replacement @ json_unquote r
          else take (utf8_size s) s @ json_unquote (drop (utf8_size s) s))"
  by pat_completeness auto
termination by (relation "measure length") auto

declare json_unquote.simps [simp del]

section \<open>Writing\<close>

definition digits_text :: "string \<Rightarrow> int \<Rightarrow> string" where
  "digits_text ds k =
     (let n = int (length ds) in
      if k \<le> 0 then ''0.'' @ replicate (nat (- k)) CHR ''0'' @ ds
      else if n \<le> k then ds @ replicate (nat (k - n)) CHR ''0''
      else take (nat k) ds @ ''.'' @ drop (nat k) ds)"

text \<open>
  The shortest decimal that reads back as the double, the closest one of that length:
  \<open>\<plusminus> 0.d\<^sub>1d\<^sub>2\<dots> \<times> 10\<^sup>k\<close> with \<open>n\<close> digits. The exponent is found from the size of the number.
\<close>

fun dec_exp_up :: "nat \<Rightarrow> rat \<Rightarrow> int \<Rightarrow> int" where
  "dec_exp_up 0 x k = k"
| "dec_exp_up (Suc n) x k =
     (if pow10 k \<le> x then dec_exp_up n x (k + 1) else if x < pow10 (k - 1) then dec_exp_up n x (k - 1) else k)"

definition candidates :: "rat \<Rightarrow> int \<Rightarrow> nat \<Rightarrow> nat list" where
  "candidates x k n =
     (let y = x * pow10 (int n - k); lo = nat \<lfloor>y\<rfloor>; hi = nat \<lceil>y\<rceil>
      in filter (\<lambda>m. fl64 (of_nat m * pow10 (k - int n)) = x)
           (if y - of_nat lo \<le> of_nat hi - y then [lo, hi] else [hi, lo]))"

fun shortest :: "rat \<Rightarrow> int \<Rightarrow> nat \<Rightarrow> nat \<Rightarrow> nat \<times> nat" where
  "shortest x k 0 n = (0, n)"
| "shortest x k (Suc fuel) n =
     (case candidates x k n of m # _ \<Rightarrow> (m, n) | [] \<Rightarrow> shortest x k fuel (n + 1))"

definition float_text :: "bool \<Rightarrow> rat \<Rightarrow> string" where
  "float_text neg x =
     (if neg then ''-'' else []) @
     (if x = 0 then ''0''
      else
        (let k0 = dec_exp_up 800 x 0;
             (m, n) = shortest x k0 17 1;
             ds0 = decimal m;
             k = k0 + int (length ds0) - int n;
             ds = strip_zeros ds0
         in if x < pow10 (- 6) \<or> pow10 21 \<le> x then
              (let e = k - 1
               in take 1 ds @ (if length ds = 1 then [] else ''.'' @ drop 1 ds)
                  @ ''e'' @ (if e < 0 then ''-'' else ''+'') @ decimal (nat \<bar>e\<bar>))
            else digits_text ds k))"

text \<open>
  \<open>ws d\<close> is what stands before an element or a closing bracket at depth \<open>d\<close>, \<open>colon\<close> what stands
  between a key and its value.
\<close>

fun join_with :: "string \<Rightarrow> string list \<Rightarrow> string" where
  "join_with sep [] = []"
| "join_with sep [x] = x"
| "join_with sep (x # y # xs) = x @ sep @ join_with sep (y # xs)"

fun render :: "(nat \<Rightarrow> string) \<Rightarrow> string \<Rightarrow> nat \<Rightarrow> jval \<Rightarrow> string" where
  "render ws colon d JNull = ''null''"
| "render ws colon d (JBool b) = (if b then ''true'' else ''false'')"
| "render ws colon d (JNum lit) = lit"
| "render ws colon d (JFloat x) = (case x of Fin neg v \<Rightarrow> float_text neg v | _ \<Rightarrow> [])"
| "render ws colon d (JStr s) = json_string s"
| "render ws colon d (JArr vs) =
     (if vs = [] then ''[]''
      else ''['' @ ws (d + 1) @ join_with ('','' @ ws (d + 1)) (map (\<lambda>v. render ws colon (d + 1) v) vs) @ ws d @ '']'')"
| "render ws colon d (JObj kvs) =
     (if kvs = [] then ''{}''
      else ''{'' @ ws (d + 1)
        @ join_with ('','' @ ws (d + 1)) (map (\<lambda>(k, v). json_string k @ colon @ render ws colon (d + 1) v) kvs)
        @ ws d @ ''}'')"

text \<open>Both refuse a value with an infinity or NaN in it (\<open>UnsupportedValueError\<close>).\<close>

definition json_Marshal :: "jval \<Rightarrow> string result" where
  "json_Marshal v =
     (if encodable v then Inr (render (\<lambda>_. []) '':'' 0 v) else Inl (Errorf ''json: unsupported value''))"

definition indent2 :: "nat \<Rightarrow> string" where
  "indent2 d = byte_string [10] @ replicate (2 * d) CHR '' ''"

definition json_MarshalIndent :: "jval \<Rightarrow> string result" where
  "json_MarshalIndent v =
     (if encodable v then Inr (render indent2 '': '' 0 v) else Inl (Errorf ''json: unsupported value''))"

section \<open>Reading\<close>

datatype frame = FArr "jval list" | FObj "(string \<times> jval) list" string

datatype jstate =
    BeginValue | BeginValueOrEmpty | BeginStringOrEmpty | BeginString | AfterKey | EndValue jval
  | InString bool string | InStringEsc bool string | InStringEscU nat bool string
  | NumNeg string | Num1 string | Num0 string | NumDot string | NumDot0 string | NumE string | NumESign string | NumE0 string
  | InLiteral string string jval

definition is_space :: "char \<Rightarrow> bool" where
  "is_space c \<longleftrightarrow> byte c = 32 \<or> byte c = 9 \<or> byte c = 13 \<or> byte c = 10"

definition max_depth :: nat where "max_depth = 10000"

definition latin1_quote :: "char \<Rightarrow> string" where
  "latin1_quote c =
     (if byte c < 128 then quote_char c
      else if byte c < 161 \<or> byte c = 173 then u_escape (byte c)
      else encode_rune (byte c))"

definition char_literal :: "char \<Rightarrow> string" where
  "char_literal c =
     (if byte c = 39 then byte_string [39, 92, 39, 39]
      else if byte c = 34 then byte_string [39, 34, 39]
      else byte_string [39] @ latin1_quote c @ byte_string [39])"

definition scan_error :: "char \<Rightarrow> string \<Rightarrow> 'a result" where
  "scan_error c context = Inl (Errorf (''invalid character '' @ char_literal c @ '' '' @ context))"

definition end_value :: "jval \<Rightarrow> frame list \<Rightarrow> char \<Rightarrow> (jstate \<times> frame list) result" where
  "end_value v fr c =
     (if is_space c then Inr (EndValue v, fr)
      else
        (case fr of
           [] \<Rightarrow> scan_error c ''after top-level value''
         | FArr vs # fs \<Rightarrow>
             if c = CHR '','' then Inr (BeginValue, FArr (v # vs) # fs)
             else if c = CHR '']'' then Inr (EndValue (JArr (rev (v # vs))), fs)
             else scan_error c ''after array element''
         | FObj kvs k # fs \<Rightarrow>
             if c = CHR '','' then Inr (BeginString, FObj ((k, v) # kvs) [] # fs)
             else if c = CHR ''}'' then Inr (EndValue (JObj (rev ((k, v) # kvs))), fs)
             else scan_error c ''after object key:value pair''))"

definition push_frame :: "char \<Rightarrow> frame \<Rightarrow> jstate \<Rightarrow> frame list \<Rightarrow> (jstate \<times> frame list) result" where
  "push_frame c f st fr =
     (if length fr < max_depth then Inr (st, f # fr) else scan_error c ''exceeded max depth'')"

definition begin_value :: "frame list \<Rightarrow> char \<Rightarrow> (jstate \<times> frame list) result" where
  "begin_value fr c =
     (if is_space c then Inr (BeginValue, fr)
      else if c = CHR ''{'' then push_frame c (FObj [] []) BeginStringOrEmpty fr
      else if c = CHR ''['' then push_frame c (FArr []) BeginValueOrEmpty fr
      else if byte c = 34 then Inr (InString False [], fr)
      else if c = CHR ''-'' then Inr (NumNeg [c], fr)
      else if c = CHR ''0'' then Inr (Num0 [c], fr)
      else if c = CHR ''t'' then Inr (InLiteral ''true'' ''rue'' (JBool True), fr)
      else if c = CHR ''f'' then Inr (InLiteral ''false'' ''alse'' (JBool False), fr)
      else if c = CHR ''n'' then Inr (InLiteral ''null'' ''ull'' JNull, fr)
      else if is_digit c then Inr (Num1 [c], fr)
      else scan_error c ''looking for beginning of value'')"

definition begin_string :: "frame list \<Rightarrow> char \<Rightarrow> (jstate \<times> frame list) result" where
  "begin_string fr c =
     (if is_space c then Inr (BeginString, fr)
      else if byte c = 34 then Inr (InString True [], fr)
      else scan_error c ''looking for beginning of object key string'')"

text \<open>A finished string is a value, or the key of the innermost object.\<close>

definition end_string :: "bool \<Rightarrow> string \<Rightarrow> frame list \<Rightarrow> jstate \<times> frame list" where
  "end_string is_key acc fr =
     (let s = json_unquote (rev acc) in
      if is_key then (AfterKey, case fr of FObj kvs _ # fs \<Rightarrow> FObj kvs s # fs | _ \<Rightarrow> fr)
      else (EndValue (JStr s), fr))"

definition num_end :: "string \<Rightarrow> frame list \<Rightarrow> char \<Rightarrow> (jstate \<times> frame list) result" where
  "num_end acc fr c = end_value (JNum (rev acc)) fr c"

definition num_exp :: "string \<Rightarrow> frame list \<Rightarrow> char \<Rightarrow> (jstate \<times> frame list) result" where
  "num_exp acc fr c =
     (if is_digit c then Inr (NumE0 (c # acc), fr) else scan_error c ''in exponent of numeric literal'')"

definition num_frac :: "string \<Rightarrow> frame list \<Rightarrow> char \<Rightarrow> (jstate \<times> frame list) result" where
  "num_frac acc fr c =
     (if c = CHR ''e'' \<or> c = CHR ''E'' then Inr (NumE (c # acc), fr) else num_end acc fr c)"

definition num_int :: "string \<Rightarrow> frame list \<Rightarrow> char \<Rightarrow> (jstate \<times> frame list) result" where
  "num_int acc fr c = (if c = CHR ''.'' then Inr (NumDot (c # acc), fr) else num_frac acc fr c)"

fun scan_step :: "jstate \<times> frame list \<Rightarrow> char \<Rightarrow> (jstate \<times> frame list) result" where
  "scan_step (BeginValue, fr) c = begin_value fr c"
| "scan_step (BeginValueOrEmpty, fr) c =
     (if is_space c then Inr (BeginValueOrEmpty, fr)
      else if c = CHR '']'' then Inr (EndValue (JArr []), tl fr)
      else begin_value fr c)"
| "scan_step (BeginStringOrEmpty, fr) c =
     (if is_space c then Inr (BeginStringOrEmpty, fr)
      else if c = CHR ''}'' then Inr (EndValue (JObj []), tl fr)
      else begin_string fr c)"
| "scan_step (BeginString, fr) c = begin_string fr c"
| "scan_step (AfterKey, fr) c =
     (if is_space c then Inr (AfterKey, fr)
      else if c = CHR '':'' then Inr (BeginValue, fr)
      else scan_error c ''after object key'')"
| "scan_step (EndValue v, fr) c = end_value v fr c"
| "scan_step (InString k acc, fr) c =
     (if byte c = 34 then Inr (end_string k acc fr)
      else if byte c = 92 then Inr (InStringEsc k (c # acc), fr)
      else if byte c < 32 then scan_error c ''in string literal''
      else Inr (InString k (c # acc), fr))"
| "scan_step (InStringEsc k acc, fr) c =
     (if byte c = 117 then Inr (InStringEscU 3 k (c # acc), fr)
      else if byte c \<in> {98, 102, 110, 114, 116, 92, 47, 34} then Inr (InString k (c # acc), fr)
      else scan_error c ''in string escape code'')"
| "scan_step (InStringEscU n k acc, fr) c =
     (if hex_val c = None then scan_error c (''in '' @ byte_string [92] @ ''u hexadecimal character escape'')
      else Inr (if n = 0 then InString k (c # acc) else InStringEscU (n - 1) k (c # acc), fr))"
| "scan_step (NumNeg acc, fr) c =
     (if c = CHR ''0'' then Inr (Num0 (c # acc), fr)
      else if is_digit c then Inr (Num1 (c # acc), fr)
      else scan_error c ''in numeric literal'')"
| "scan_step (Num1 acc, fr) c = (if is_digit c then Inr (Num1 (c # acc), fr) else num_int acc fr c)"
| "scan_step (Num0 acc, fr) c = num_int acc fr c"
| "scan_step (NumDot acc, fr) c =
     (if is_digit c then Inr (NumDot0 (c # acc), fr) else scan_error c ''after decimal point in numeric literal'')"
| "scan_step (NumDot0 acc, fr) c = (if is_digit c then Inr (NumDot0 (c # acc), fr) else num_frac acc fr c)"
| "scan_step (NumE acc, fr) c =
     (if c = CHR ''+'' \<or> c = CHR ''-'' then Inr (NumESign (c # acc), fr) else num_exp acc fr c)"
| "scan_step (NumESign acc, fr) c = num_exp acc fr c"
| "scan_step (NumE0 acc, fr) c = (if is_digit c then Inr (NumE0 (c # acc), fr) else num_end acc fr c)"
| "scan_step (InLiteral word expect v, fr) c =
     (case expect of
        [] \<Rightarrow> end_value v fr c
      | e # es \<Rightarrow>
          if c = e then Inr (if es = [] then EndValue v else InLiteral word es v, fr)
          else scan_error c (''in literal '' @ word @ '' (expecting '' @ char_literal e @ '')''))"

fun scan_all :: "jstate \<times> frame list \<Rightarrow> string \<Rightarrow> (jstate \<times> frame list) result" where
  "scan_all x [] = Inr x"
| "scan_all x (c # s) = (case scan_step x c of Inl e \<Rightarrow> Inl e | Inr y \<Rightarrow> scan_all y s)"

text \<open>At the end of the input the scanner gets one more space.\<close>

definition json_parse :: "string \<Rightarrow> jval result" where
  "json_parse s =
     (case scan_all (BeginValue, []) (s @ '' '') of
        Inl e \<Rightarrow> Inl e
      | Inr (EndValue v, []) \<Rightarrow> Inr v
      | Inr _ \<Rightarrow> Inl (Errorf ''unexpected end of JSON input''))"

section \<open>Reading back a string\<close>

lemma byte_char [simp]: "n < 256 \<Longrightarrow> byte (char_of n) = n"
  by simp

lemma hex_val_digit [simp]: "d < 16 \<Longrightarrow> hex_val (hex_digit d) = Some d"
  by (auto simp: hex_val_def hex_digit_def byte_in_def)

lemma length_u_escape [simp]: "length (u_escape r) = 6"
  by (simp add: u_escape_def byte_string_def)

lemma getu4_u_escape [simp]: "r < 65536 \<Longrightarrow> getu4 (u_escape r @ t) = Some r"
proof -
  assume r: "r < 65536"
  have "((r div 4096 * 16 + r div 256 mod 16) * 16 + r div 16 mod 16) * 16 + r mod 16 = r"
    using div_mult_mod_eq [of r 16] div_mult_mod_eq [of "r div 16" 16] div_mult_mod_eq [of "r div 256" 16]
    by (simp add: div_mult2_eq [symmetric])
  moreover have "r div 4096 < 16" using r by (simp add: less_mult_imp_div_less)
  ultimately show ?thesis by (simp add: getu4_def u_escape_def byte_string_def)
qed

lemma u_escape_Cons: "\<exists>c r. u_escape n = c # r \<and> byte c = 92"
  by (simp add: u_escape_def byte_string_def)

lemma unquote_u_escape:
  assumes "r < 55296 \<or> r = 65533"
  shows "json_unquote (u_escape r @ t) = encode_rune r @ json_unquote t"
proof -
  have "r < 65536" using assms by auto
  moreover have "surrogate_pair r = (\<lambda>_. None)" using assms by (auto simp: surrogate_pair_def)
  moreover have "Option.bind m (\<lambda>_. None) = None" for m :: "nat option" by (cases m) auto
  moreover obtain c u where cu: "u_escape r @ t = c # u" "byte c = 92" using u_escape_Cons [of r] by auto
  moreover have "getu4 (c # u) = Some r" "drop 6 (c # u) = t"
    using getu4_u_escape [OF calculation(1), of t] length_u_escape [of r] unfolding cu(1) [symmetric] by simp_all
  ultimately show ?thesis by (subst json_unquote.simps) (simp del: drop_Cons_numeral)
qed

lemma unquote_ascii:
  assumes "byte c < 128" "byte c \<noteq> 92"
  shows "json_unquote (c # t) = c # json_unquote t"
  using assms by (subst json_unquote.simps) simp

lemma unquote_simple:
  assumes "byte b = 92" "byte e \<noteq> 117"
  shows "json_unquote (b # e # t) = simple_escape e # json_unquote t"
proof -
  have "getu4 (b # e # t) = None" using assms by (simp add: getu4_def split: list.split)
  with assms show ?thesis by (subst json_unquote.simps) simp
qed

lemma unquote_escape_ascii:
  assumes "byte c < 128"
  shows "json_unquote (escape_ascii c @ t) = c # json_unquote t"
proof -
  have c: "c = char_of (byte c)" by simp
  consider "byte c \<in> {34, 92}" | "byte c \<in> {8, 12, 10, 13, 9}" | "byte c \<notin> {34, 92, 8, 12, 10, 13, 9}" "byte c < 32 \<or> byte c \<in> {60, 62, 38}"
    | "byte c \<notin> {34, 92, 8, 12, 10, 13, 9}" "\<not> (byte c < 32 \<or> byte c \<in> {60, 62, 38})" by blast
  then show ?thesis
  proof cases
    case 1
    then show ?thesis
      by (auto simp: escape_ascii_def byte_string_def unquote_simple simple_escape_def)
  next
    case 2
    then show ?thesis
      by (auto simp: escape_ascii_def byte_string_def unquote_simple simple_escape_def) (metis c)+
  next
    case 3
    then have "escape_ascii c = u_escape (byte c)" by (auto simp: escape_ascii_def)
    with assms show ?thesis by (simp add: unquote_u_escape encode_rune_def byte_string_def)
  next
    case 4
    then have "escape_ascii c = [c]" by (auto simp: escape_ascii_def)
    with assms 4 show ?thesis by (simp add: unquote_ascii)
  qed
qed

lemma unquote_rune:
  assumes "utf8_size s \<noteq> 0" and "128 \<le> byte (hd s)" and "s \<noteq> []"
  shows "json_unquote (take (utf8_size s) s @ t) = take (utf8_size s) s @ json_unquote t"
proof -
  let ?n = "utf8_size s"
  have n: "utf8_size (take ?n s @ t) = ?n" by (rule utf8_size_take [OF assms(1)])
  have len: "length (take ?n s) = ?n" using utf8_size_le [of s] by simp
  from assms obtain c r where cr: "take ?n s @ t = c # r" "128 \<le> byte c" by (cases s; cases "?n") auto
  have "json_unquote (take ?n s @ t) = take ?n (take ?n s @ t) @ json_unquote (drop ?n (take ?n s @ t))"
    using assms(1) n cr by (subst json_unquote.simps) simp
  with len show ?thesis by simp
qed

lemma json_unquote_escape:
  assumes "utf8_valid s"
  shows "json_unquote (json_escape s) = s"
  using assms
proof (induction s rule: json_escape.induct)
  case (1 s)
  show ?case
  proof (cases s)
    case Nil
    then show ?thesis by (simp add: json_escape.simps json_unquote.simps)
  next
    case (Cons c r)
    show ?thesis
    proof (cases "byte c < 128")
      case True
      with 1 Cons show ?thesis by (subst json_escape.simps) (simp add: unquote_escape_ascii)
    next
      case False
      let ?n = "utf8_size s" and ?bs = "take (utf8_size s) s"
      have n: "?n \<noteq> 0" "utf8_valid (drop ?n s)" using "1.prems" Cons by (simp_all add: utf8_valid_step)
      have IH: "json_unquote (json_escape (drop ?n s)) = drop ?n s" by (rule "1.IH"(3) [OF Cons False n(1) refl n(2)])
      have sep: "encode_rune 8232 = byte_string [226, 128, 168]" "encode_rune 8233 = byte_string [226, 128, 169]"
        by (simp_all add: encode_rune_def byte_string_def)
      have "json_escape s = (if ?bs = byte_string [226, 128, 168] then u_escape 8232
          else if ?bs = byte_string [226, 128, 169] then u_escape 8233 else ?bs) @ json_escape (drop ?n s)"
        using Cons False n(1) by (subst json_escape.simps) (simp add: Let_def)
      moreover have "json_unquote (?bs @ json_escape (drop ?n s)) = ?bs @ drop ?n s"
        using unquote_rune [OF n(1)] False Cons IH by simp
      ultimately have "json_unquote (json_escape s) = ?bs @ drop ?n s"
        using IH sep by (simp add: unquote_u_escape del: append_take_drop_id split: if_splits)
      then show ?thesis by simp
    qed
  qed
qed

lemma scan_all_append:
  "scan_all x (s @ t) = (case scan_all x s of Inl e \<Rightarrow> Inl e | Inr y \<Rightarrow> scan_all y t)"
  by (induction s arbitrary: x) (auto split: sum.split)

text \<open>Text that keeps the scanner inside a string literal.\<close>

definition inside :: "string \<Rightarrow> bool" where
  "inside p \<longleftrightarrow> (\<forall>k acc fr. scan_all (InString k acc, fr) p = Inr (InString k (rev p @ acc), fr))"

lemma inside_append: "inside p \<Longrightarrow> inside q \<Longrightarrow> inside (p @ q)"
  by (simp add: inside_def scan_all_append)

lemma inside_Nil [simp]: "inside []"
  by (simp add: inside_def)

lemma inside_plain: "\<forall>c \<in> set p. byte c \<noteq> 34 \<and> byte c \<noteq> 92 \<and> 32 \<le> byte c \<Longrightarrow> inside p"
  by (induction p) (auto simp: inside_def)

lemma inside_u_escape: "r < 65536 \<Longrightarrow> inside (u_escape r)"
proof -
  assume "r < 65536"
  then have "r div 4096 < 16" by (simp add: less_mult_imp_div_less)
  then have hex: "hex_val (hex_digit (r div 4096)) \<noteq> None" "hex_val (hex_digit (r div 256 mod 16)) \<noteq> None"
    "hex_val (hex_digit (r div 16 mod 16)) \<noteq> None" "hex_val (hex_digit (r mod 16)) \<noteq> None" by simp_all
  have steps: "scan_all (InString k acc, fr) (byte_string [92, 117] @ [a, b, c, d])
      = Inr (InString k (rev (byte_string [92, 117] @ [a, b, c, d]) @ acc), fr)"
    if "hex_val a \<noteq> None" "hex_val b \<noteq> None" "hex_val c \<noteq> None" "hex_val d \<noteq> None" for k acc fr a b c d
    using that by (simp add: byte_string_def del: not_None_eq)
  show ?thesis unfolding inside_def u_escape_def using steps [OF hex] by blast
qed

lemma inside_simple: "byte e \<in> {98, 102, 110, 114, 116, 92, 47, 34} \<Longrightarrow> byte b = 92 \<Longrightarrow> inside [b, e]"
  by (auto simp: inside_def)

lemma inside_escape_ascii:
  assumes "byte c < 128"
  shows "inside (escape_ascii c)"
proof -
  let ?simple = "byte c \<in> {34, 92, 8, 12, 10, 13, 9}" and ?coded = "byte c < 32 \<or> byte c = 60 \<or> byte c = 62 \<or> byte c = 38"
  consider ?simple | "\<not> ?simple" ?coded | "\<not> ?simple" "\<not> ?coded" by blast
  then show ?thesis
  proof cases
    case 1
    then obtain e where "escape_ascii c = [char_of (92 :: nat), e]" "byte e \<in> {98, 102, 110, 114, 116, 92, 47, 34}"
      by (auto simp: escape_ascii_def byte_string_def)
    then show ?thesis using inside_simple [of e "char_of (92 :: nat)"] by simp
  next
    case 2
    then have "escape_ascii c = u_escape (byte c)" by (auto simp: escape_ascii_def)
    with assms show ?thesis by (simp add: inside_u_escape)
  next
    case 3
    then have "escape_ascii c = [c]" by (auto simp: escape_ascii_def)
    with 3 show ?thesis by (auto intro!: inside_plain)
  qed
qed

lemma inside_escape: "inside (json_escape s)"
proof (induction s rule: json_escape.induct)
  case (1 s)
  show ?case
  proof (cases s)
    case Nil
    then show ?thesis by (simp add: json_escape.simps)
  next
    case (Cons c r)
    have bytes: "inside (take (utf8_size s) s)" if "\<not> byte c < 128" "utf8_size s \<noteq> 0"
    proof (rule inside_plain, rule ballI)
      fix x assume "x \<in> set (take (utf8_size s) s)"
      with that have "128 \<le> byte x" using utf8_size_bytes [of c r x] by (simp add: Cons)
      then show "byte x \<noteq> 34 \<and> byte x \<noteq> 92 \<and> 32 \<le> byte x" by simp
    qed
    show ?thesis
    proof (cases "byte c < 128 \<or> utf8_size s = 0")
      case True
      with 1(1,2) [OF Cons] Cons show ?thesis
        by (subst json_escape.simps) (auto intro!: inside_append inside_escape_ascii inside_u_escape)
    next
      case False
      with 1(3) [OF Cons _ _ refl] bytes Cons show ?thesis
        by (subst json_escape.simps) (auto simp: Let_def intro!: inside_append inside_u_escape)
    qed
  qed
qed

lemma scan_string:
  assumes "utf8_valid s"
  shows "scan_all (BeginValue, fr) (json_string s) = Inr (EndValue (JStr s), fr)"
    and "scan_all (BeginString, FObj kvs k # fs) (json_string s) = Inr (AfterKey, FObj kvs s # fs)"
    and "scan_all (BeginStringOrEmpty, FObj kvs k # fs) (json_string s) = Inr (AfterKey, FObj kvs s # fs)"
proof -
  have in_esc: "scan_all (InString b [], f) (json_escape s) = Inr (InString b (rev (json_escape s)), f)" for b f
    using inside_escape [of s] by (simp add: inside_def)
  have q: "byte (char_of (34 :: nat)) = 34" "\<not> is_space (char_of (34 :: nat))"
    "char_of (34 :: nat) \<noteq> CHR ''{''" "char_of (34 :: nat) \<noteq> CHR ''[''" "char_of (34 :: nat) \<noteq> CHR ''}''"
    by (simp_all add: is_space_def char_of_def bit_0)
  show "scan_all (BeginValue, fr) (json_string s) = Inr (EndValue (JStr s), fr)"
    and "scan_all (BeginString, FObj kvs k # fs) (json_string s) = Inr (AfterKey, FObj kvs s # fs)"
    and "scan_all (BeginStringOrEmpty, FObj kvs k # fs) (json_string s) = Inr (AfterKey, FObj kvs s # fs)"
    using assms q by (simp_all add: json_string_def byte_string_def scan_all_append in_esc begin_value_def begin_string_def
        end_string_def json_unquote_escape)
qed

section \<open>Reading back a document\<close>

text \<open>
  The values whose documents are read back: strings in UTF-8, whole numbers, and at most \<open>n\<close> levels of
  arrays and objects.
\<close>

fun readable :: "nat \<Rightarrow> jval \<Rightarrow> bool" where
  "readable n (JNum lit) \<longleftrightarrow> (\<exists>i. lit = itoa i)"
| "readable n (JFloat _) \<longleftrightarrow> False"
| "readable n (JStr s) \<longleftrightarrow> utf8_valid s"
| "readable n (JArr vs) \<longleftrightarrow> 0 < n \<and> (\<forall>v \<in> set vs. readable (n - 1) v)"
| "readable n (JObj kvs) \<longleftrightarrow> 0 < n \<and> (\<forall>kv \<in> set kvs. utf8_valid (fst kv) \<and> readable (n - 1) (snd kv))"
| "readable n _ \<longleftrightarrow> True"

lemma readable_JInt [simp]: "readable n (JInt i)"
  by (auto simp: JInt_def)

lemma readable_mono: "readable n v \<Longrightarrow> n \<le> m \<Longrightarrow> readable m v"
proof (induction v arbitrary: n m)
  case (JArr vs)
  have "readable (m - 1) v" if "v \<in> set vs" for v
    by (rule JArr.IH [OF that, of "n - 1"]) (use JArr.prems that in auto)
  with JArr.prems show ?case by auto
next
  case (JObj kvs)
  have "readable (m - 1) (snd kv)" if "kv \<in> set kvs" for kv
    by (rule JObj.IH [OF that, of "snd kv" "n - 1"]) (use JObj.prems that in \<open>auto simp: snds.simps\<close>)
  with JObj.prems show ?case by auto
qed auto

definition spaces :: "string \<Rightarrow> bool" where
  "spaces w \<longleftrightarrow> list_all is_space w"

text \<open>What may follow a value.\<close>

definition delim :: "char \<Rightarrow> bool" where
  "delim c \<longleftrightarrow> is_space c \<or> c = CHR '','' \<or> c = CHR '']'' \<or> c = CHR ''}''"

lemma scan_all_Cons: "scan_step x c = Inr y \<Longrightarrow> scan_all x (c # s) = scan_all y s"
  by simp

lemma skip_spaces:
  assumes "spaces w" and "st \<in> {BeginValue, BeginValueOrEmpty, BeginString, BeginStringOrEmpty, AfterKey, EndValue v}"
  shows "scan_all (st, fr) (w @ t) = scan_all (st, fr) t"
  using assms by (induction w) (auto simp: spaces_def begin_value_def begin_string_def end_value_def)

lemma spaces_delim: "spaces w \<Longrightarrow> delim c \<Longrightarrow> \<exists>c' t'. w @ c # t = c' # t' \<and> delim c'"
  by (cases w) (auto simp: spaces_def delim_def)

lemma delim_not_number:
  assumes "delim c"
  shows "\<not> is_digit c" "c \<noteq> CHR ''.''" "c \<noteq> CHR ''e''" "c \<noteq> CHR ''E''"
  using assms by (auto simp: delim_def is_space_def is_digit_def)

lemma digit_props:
  assumes "d < 10"
  shows "is_digit (digit d)" "\<not> is_space (digit d)" "byte (digit d) \<noteq> 34" "digit d = CHR ''0'' \<longleftrightarrow> d = 0"
proof -
  show "is_digit (digit d)" "\<not> is_space (digit d)" "byte (digit d) \<noteq> 34"
    using assms by (auto simp: is_digit_def is_space_def)
  show "digit d = CHR ''0'' \<longleftrightarrow> d = 0"
  proof
    assume "digit d = CHR ''0''"
    then have "(of_char (digit d) :: nat) = of_char CHR ''0''" by simp
    with assms show "d = 0" by simp
  qed (simp add: digit_def char_of_def bit_0)
qed

lemma decimal_leading: "0 < n \<Longrightarrow> \<exists>d t. decimal n = digit d # t \<and> 0 < d \<and> d < 10"
proof (induction n rule: decimal.induct)
  case (1 n)
  show ?case
  proof (cases "n < 10")
    case True
    with "1.prems" show ?thesis by (subst decimal.simps) auto
  next
    case False
    with 1 have "\<exists>d t. decimal (n div 10) = digit d # t \<and> 0 < d \<and> d < 10" by simp
    with False show ?thesis by (subst decimal.simps) auto
  qed
qed

lemma scan_digits:
  assumes "list_all is_digit ds"
  shows "scan_all (Num1 acc, fr) ds = Inr (Num1 (rev ds @ acc), fr)"
  using assms by (induction ds arbitrary: acc) auto

lemma begin_digit:
  assumes "0 < d" "d < 10"
  shows "begin_value fr (digit d) = Inr (Num1 [digit d], fr)"
  and "scan_step (NumNeg acc, fr) (digit d) = Inr (Num1 (digit d # acc), fr)"
proof -
  have "byte (digit d) \<noteq> byte c" if "byte c < 48 \<or> 57 < byte c" for c using assms that by auto
  then have other: "digit d \<noteq> c" if "byte c < 48 \<or> 57 < byte c" for c using that by metis
  show "begin_value fr (digit d) = Inr (Num1 [digit d], fr)"
    using assms digit_props [OF assms(2)] by (simp add: begin_value_def other)
  show "scan_step (NumNeg acc, fr) (digit d) = Inr (Num1 (digit d # acc), fr)"
    using assms digit_props [OF assms(2)] by simp
qed

lemma scan_itoa:
  "\<exists>st. scan_all (BeginValue, fr) (itoa i) = Inr (st, fr) \<and> st \<in> {Num0 (rev (itoa i)), Num1 (rev (itoa i))}"
proof -
  have zero: "decimal 0 = ''0''" by (simp add: decimal.simps digit_def char_of_def bit_0)
  consider "i = 0" | "i < 0" | "0 < i" by linarith
  then show ?thesis
  proof cases
    case 1
    then show ?thesis by (simp add: itoa_def zero begin_value_def is_space_def)
  next
    case 2
    then obtain d t where dt: "decimal (nat (- i)) = digit d # t" "0 < d" "d < 10" using decimal_leading [of "nat (- i)"] by auto
    then have "list_all is_digit t" using decimal_all_digits [of "nat (- i)"] by simp
    with dt 2 show ?thesis by (simp add: itoa_def begin_value_def is_space_def begin_digit(2) scan_digits del: scan_step.simps(10))
  next
    case 3
    then obtain d t where dt: "decimal (nat i) = digit d # t" "0 < d" "d < 10" using decimal_leading [of "nat i"] by auto
    then have "list_all is_digit t" using decimal_all_digits [of "nat i"] by simp
    with dt 3 show ?thesis by (simp add: itoa_def begin_digit(1) scan_digits)
  qed
qed

lemma scan_number:
  assumes "delim c"
  shows "scan_all (BeginValue, fr) (itoa i @ c # t) = scan_all (EndValue (JNum (itoa i)), fr) (c # t)"
  using scan_itoa [of fr i] delim_not_number [OF assms]
  by (auto simp: scan_all_append num_int_def num_frac_def num_end_def)

text \<open>Nothing that is written starts with a space or a closing bracket.\<close>

lemma render_first:
  assumes "readable n v"
  shows "\<exists>x xs. render ws colon d v = x # xs \<and> \<not> is_space x \<and> x \<noteq> CHR '']''"
proof (cases v)
  case (JNum lit)
  with assms obtain i where i: "lit = itoa i" by auto
  obtain k t where kt: "decimal (nat \<bar>i\<bar>) = digit k # t" "k < 10"
    using decimal_leading [of "nat \<bar>i\<bar>"] by (cases "i = 0") (auto simp: decimal.simps [of 0])
  then have "digit k \<noteq> CHR '']''" "\<not> is_space (digit k)"
    using digit_props(2) [OF kt(2)] of_char_digit [OF kt(2)] by fastforce+
  with kt i JNum show ?thesis by (auto simp: itoa_def is_space_def abs_if split: if_splits)
qed (use assms in \<open>auto simp: json_string_def byte_string_def is_space_def char_of_def bit_0\<close>)

lemma begin_or_empty:
  assumes "readable n v"
  shows "scan_all (BeginValueOrEmpty, fr) (render ws colon d v @ t) = scan_all (BeginValue, fr) (render ws colon d v @ t)"
proof -
  from render_first [OF assms] obtain x xs
    where x: "render ws colon d v = x # xs" "\<not> is_space x" "x \<noteq> CHR '']''" by blast
  then show ?thesis by simp
qed

lemma join_with_Cons: "xs \<noteq> [] \<Longrightarrow> join_with sep (x # xs) = x @ sep @ join_with sep xs"
  by (cases xs) auto

lemma scan_elements:
  assumes "vs \<noteq> []" and sp: "spaces w" "spaces w'"
    and rd: "\<And>v. v \<in> set vs \<Longrightarrow> readable m v"
    and scan: "\<And>v acc c t. v \<in> set vs \<Longrightarrow> delim c \<Longrightarrow>
      scan_all (BeginValue, FArr acc # fr) (render ws colon d v @ c # t) = scan_all (EndValue v, FArr acc # fr) (c # t)"
    and st: "st = BeginValue \<or> st = BeginValueOrEmpty"
  shows "scan_all (st, FArr acc # fr) (join_with ('','' @ w) (map (render ws colon d) vs) @ w' @ CHR '']'' # t)
       = scan_all (EndValue (JArr (rev acc @ vs)), fr) t"
  using assms(1) rd scan st
proof (induction vs arbitrary: acc st)
  case (Cons v vs)
  have either: "scan_all (st, FArr acc # fr) (render ws colon d v @ u) = scan_all (BeginValue, FArr acc # fr) (render ws colon d v @ u)" for u
    using Cons.prems(4) begin_or_empty [OF Cons.prems(2)] by auto
  show ?case
  proof (cases "vs = []")
    case True
    obtain c' t' where c': "w' @ CHR '']'' # t = c' # t'" "delim c'" using spaces_delim [OF sp(2), of "CHR '']''" t] by (auto simp: delim_def)
    have "scan_all (st, FArr acc # fr) (render ws colon d v @ w' @ CHR '']'' # t)
        = scan_all (EndValue v, FArr acc # fr) (w' @ CHR '']'' # t)"
      unfolding either c'(1) by (rule Cons.prems(3)) (simp_all add: c'(2))
    also have "\<dots> = scan_all (EndValue v, FArr acc # fr) (CHR '']'' # t)" by (rule skip_spaces [OF sp(2), of _ v]) simp
    also have "\<dots> = scan_all (EndValue (JArr (rev acc @ [v])), fr) t" by (simp add: end_value_def is_space_def)
    finally show ?thesis using True by simp
  next
    case False
    let ?rest = "join_with ('','' @ w) (map (render ws colon d) vs) @ w' @ CHR '']'' # t"
    have "join_with ('','' @ w) (map (render ws colon d) (v # vs)) = render ws colon d v @ ('','' @ w) @ join_with ('','' @ w) (map (render ws colon d) vs)"
      unfolding list.map by (rule join_with_Cons) (use False in simp)
    then have "scan_all (st, FArr acc # fr) (join_with ('','' @ w) (map (render ws colon d) (v # vs)) @ w' @ CHR '']'' # t)
        = scan_all (st, FArr acc # fr) (render ws colon d v @ CHR '','' # w @ ?rest)" by simp
    also have "\<dots> = scan_all (EndValue v, FArr acc # fr) (CHR '','' # w @ ?rest)"
      unfolding either by (rule Cons.prems(3)) (simp_all add: delim_def)
    also have "\<dots> = scan_all (BeginValue, FArr (v # acc) # fr) (w @ ?rest)" by (simp add: end_value_def is_space_def)
    also have "\<dots> = scan_all (BeginValue, FArr (v # acc) # fr) ?rest" by (rule skip_spaces [OF sp(1)]) simp
    also have "\<dots> = scan_all (EndValue (JArr (rev (v # acc) @ vs)), fr) t"
      by (rule Cons.IH [OF False]) (use Cons.prems(2,3) in auto)
    finally show ?thesis by simp
  qed
qed simp

abbreviation member_text :: "(nat \<Rightarrow> string) \<Rightarrow> string \<Rightarrow> nat \<Rightarrow> string \<times> jval \<Rightarrow> string" where
  "member_text ws colon d \<equiv> \<lambda>(k, v). json_string k @ colon @ render ws colon d v"

lemma scan_members:
  assumes "kvs \<noteq> []" and sp: "spaces w" "spaces w'" and colon: "colon = CHR '':'' # w''" "spaces w''"
    and rd: "\<And>kv. kv \<in> set kvs \<Longrightarrow> utf8_valid (fst kv)"
    and scan: "\<And>k v acc c t. (k, v) \<in> set kvs \<Longrightarrow> delim c \<Longrightarrow>
      scan_all (BeginValue, FObj acc k # fr) (render ws colon d v @ c # t) = scan_all (EndValue v, FObj acc k # fr) (c # t)"
    and st: "st = BeginString \<or> st = BeginStringOrEmpty"
  shows "scan_all (st, FObj acc k0 # fr) (join_with ('','' @ w) (map (member_text ws colon d) kvs) @ w' @ CHR ''}'' # t)
       = scan_all (EndValue (JObj (rev acc @ kvs)), fr) t"
  using assms(1) rd scan st
proof (induction kvs arbitrary: acc st k0)
  case (Cons kv kvs)
  obtain k v where kv: "kv = (k, v)" by fastforce
  have key: "scan_all (st, FObj acc k0 # fr) (member_text ws colon d kv @ c # u) = scan_all (EndValue v, FObj acc k # fr) (c # u)"
    if "delim c" for c u
  proof -
    have "scan_all (st, FObj acc k0 # fr) (member_text ws colon d kv @ c # u)
        = scan_all (AfterKey, FObj acc k # fr) (colon @ render ws colon d v @ c # u)"
      using Cons.prems(2) [of kv] Cons.prems(4) scan_string(2,3) [of k acc k0 fr] by (auto simp: kv scan_all_append)
    also have "\<dots> = scan_all (BeginValue, FObj acc k # fr) (w'' @ render ws colon d v @ c # u)"
      by (simp add: colon(1) is_space_def)
    also have "\<dots> = scan_all (BeginValue, FObj acc k # fr) (render ws colon d v @ c # u)" by (rule skip_spaces [OF colon(2)]) simp
    also have "\<dots> = scan_all (EndValue v, FObj acc k # fr) (c # u)" by (rule Cons.prems(3)) (simp_all add: kv that)
    finally show ?thesis .
  qed
  show ?case
  proof (cases "kvs = []")
    case True
    obtain c' t' where c': "w' @ CHR ''}'' # t = c' # t'" "delim c'" using spaces_delim [OF sp(2), of "CHR ''}''" t] by (auto simp: delim_def)
    have "scan_all (st, FObj acc k0 # fr) (member_text ws colon d kv @ w' @ CHR ''}'' # t)
        = scan_all (EndValue v, FObj acc k # fr) (w' @ CHR ''}'' # t)"
      unfolding c'(1) by (rule key [OF c'(2)])
    also have "\<dots> = scan_all (EndValue v, FObj acc k # fr) (CHR ''}'' # t)" by (rule skip_spaces [OF sp(2), of _ v]) simp
    also have "\<dots> = scan_all (EndValue (JObj (rev acc @ [kv])), fr) t" by (simp add: end_value_def is_space_def kv)
    finally show ?thesis using True by simp
  next
    case False
    let ?rest = "join_with ('','' @ w) (map (member_text ws colon d) kvs) @ w' @ CHR ''}'' # t"
    have "join_with ('','' @ w) (map (member_text ws colon d) (kv # kvs))
        = member_text ws colon d kv @ ('','' @ w) @ join_with ('','' @ w) (map (member_text ws colon d) kvs)"
      unfolding list.map by (rule join_with_Cons) (use False in simp)
    then have "scan_all (st, FObj acc k0 # fr) (join_with ('','' @ w) (map (member_text ws colon d) (kv # kvs)) @ w' @ CHR ''}'' # t)
        = scan_all (st, FObj acc k0 # fr) (member_text ws colon d kv @ CHR '','' # w @ ?rest)" by simp
    also have "\<dots> = scan_all (EndValue v, FObj acc k # fr) (CHR '','' # w @ ?rest)" by (rule key) (simp add: delim_def)
    also have "\<dots> = scan_all (BeginString, FObj (kv # acc) [] # fr) (w @ ?rest)" by (simp add: end_value_def is_space_def kv)
    also have "\<dots> = scan_all (BeginString, FObj (kv # acc) [] # fr) ?rest" by (rule skip_spaces [OF sp(1)]) simp
    also have "\<dots> = scan_all (EndValue (JObj (rev (kv # acc) @ kvs)), fr) t"
      by (rule Cons.IH [OF False]) (use Cons.prems(2,3) in auto)
    finally show ?thesis by simp
  qed
qed simp

lemma scan_literal:
  "scan_all (BeginValue, fr) (''null'' @ t) = scan_all (EndValue JNull, fr) t"
  "scan_all (BeginValue, fr) (''true'' @ t) = scan_all (EndValue (JBool True), fr) t"
  "scan_all (BeginValue, fr) (''false'' @ t) = scan_all (EndValue (JBool False), fr) t"
  by (simp_all add: begin_value_def is_space_def)

lemma scan_render:
  assumes ws: "\<And>d. spaces (ws d)" and colon: "colon = CHR '':'' # w''" "spaces w''"
    and "readable n v" and "length fr + n \<le> max_depth" and "delim c"
  shows "scan_all (BeginValue, fr) (render ws colon d v @ c # t) = scan_all (EndValue v, fr) (c # t)"
  using assms(4-6)
proof (induction v arbitrary: n fr c t d)
  case (JNum lit)
  then show ?case using scan_number by auto
next
  case (JStr s)
  then show ?case by (simp add: scan_all_append scan_string(1))
next
  case (JArr vs)
  then obtain m where m: "n = Suc m" and vs: "\<And>v. v \<in> set vs \<Longrightarrow> readable m v" by (cases n) auto
  have open_arr: "scan_all (BeginValue, fr) (CHR ''['' # u) = scan_all (BeginValueOrEmpty, FArr [] # fr) u" for u
    using JArr.prems(2) by (simp add: begin_value_def is_space_def push_frame_def m)
  have elem: "scan_all (BeginValue, FArr acc # fr) (render ws colon (d + 1) v @ c' # t') = scan_all (EndValue v, FArr acc # fr) (c' # t')"
    if "v \<in> set vs" "delim c'" for v acc c' t'
    by (rule JArr.IH [OF that(1) vs [OF that(1)] _ that(2)]) (use JArr.prems(2) m in simp)
  show ?case
  proof (cases "vs = []")
    case False
    let ?body = "join_with ('','' @ ws (d + 1)) (map (render ws colon (d + 1)) vs) @ ws d @ CHR '']'' # (c # t)"
    have "scan_all (BeginValue, fr) (render ws colon d (JArr vs) @ c # t) = scan_all (BeginValueOrEmpty, FArr [] # fr) (ws (d + 1) @ ?body)"
      using False open_arr by simp
    also have "\<dots> = scan_all (BeginValueOrEmpty, FArr [] # fr) ?body" by (rule skip_spaces [OF ws]) simp
    also have "\<dots> = scan_all (EndValue (JArr (rev [] @ vs)), fr) (c # t)"
      by (rule scan_elements [OF False ws ws vs elem]) auto
    finally show ?thesis by simp
  qed (use open_arr in \<open>simp add: is_space_def\<close>)
next
  case (JObj kvs)
  then obtain m where m: "n = Suc m" and keys: "\<And>kv. kv \<in> set kvs \<Longrightarrow> utf8_valid (fst kv)"
    and vals: "\<And>kv. kv \<in> set kvs \<Longrightarrow> readable m (snd kv)" by (cases n) auto
  have open_obj: "scan_all (BeginValue, fr) (CHR ''{'' # u) = scan_all (BeginStringOrEmpty, FObj [] [] # fr) u" for u
    using JObj.prems(2) by (simp add: begin_value_def is_space_def push_frame_def m)
  have val: "scan_all (BeginValue, FObj acc k # fr) (render ws colon (d + 1) v @ c' # t') = scan_all (EndValue v, FObj acc k # fr) (c' # t')"
    if "(k, v) \<in> set kvs" "delim c'" for k v acc c' t'
  proof (rule JObj.IH [OF that(1) _ _ _ that(2)])
    show "v \<in> Basic_BNFs.snds (k, v)" by simp
    show "readable m v" using vals [OF that(1)] by simp
    show "length (FObj acc k # fr) + m \<le> max_depth" using JObj.prems(2) m by simp
  qed
  show ?case
  proof (cases "kvs = []")
    case False
    let ?body = "join_with ('','' @ ws (d + 1)) (map (member_text ws colon (d + 1)) kvs) @ ws d @ CHR ''}'' # (c # t)"
    have "scan_all (BeginValue, fr) (render ws colon d (JObj kvs) @ c # t) = scan_all (BeginStringOrEmpty, FObj [] [] # fr) (ws (d + 1) @ ?body)"
      using False open_obj by simp
    also have "\<dots> = scan_all (BeginStringOrEmpty, FObj [] [] # fr) ?body" by (rule skip_spaces [OF ws]) simp
    also have "\<dots> = scan_all (EndValue (JObj (rev [] @ kvs)), fr) (c # t)"
      by (rule scan_members [OF False ws ws colon keys val]) auto
    finally show ?thesis by simp
  qed (use open_obj in \<open>simp add: is_space_def\<close>)
qed (use scan_literal in auto)

lemma readable_encodable: "readable n v \<Longrightarrow> encodable v"
  by (induction v arbitrary: n) (auto simp: list_all_iff)

lemma json_parse_render:
  assumes "\<And>d. spaces (ws d)" and "colon = CHR '':'' # w''" "spaces w''" and "readable max_depth v"
  shows "json_parse (render ws colon 0 v) = Inr v"
  using scan_render [OF assms, where fr = "[]" and c = "CHR '' ''" and d = 0 and t = "[]"]
  by (simp add: json_parse_def delim_def is_space_def end_value_def)

lemma Marshal_roundtrip: "readable max_depth v \<Longrightarrow> \<exists>s. json_Marshal v = Inr s \<and> json_parse s = Inr v"
  using json_parse_render [of "\<lambda>_. []" "'':''" "[]" v] readable_encodable by (auto simp: json_Marshal_def spaces_def)

lemma MarshalIndent_roundtrip: "readable max_depth v \<Longrightarrow> \<exists>s. json_MarshalIndent v = Inr s \<and> json_parse s = Inr v"
  using json_parse_render [of indent2 "'': ''" "'' ''" v] readable_encodable
  by (auto simp: json_MarshalIndent_def spaces_def indent2_def byte_string_def is_space_def list_all_iff)

end
