(* ===== verification/GoTime.thy ===== *)
theory GoTime
  imports GoCalendar
begin

text \<open>
  The layout \<open>time.RFC3339Nano\<close> of a time in UTC, as \<open>Format\<close> writes it and as \<open>MarshalJSON\<close> does, and
  the strict reader of \<open>UnmarshalJSON\<close>, which also accepts other offsets and longer fractions. Times
  carry no zone in this model: the process runs with UTC as its local zone.
\<close>

definition fmt_pad :: "nat \<Rightarrow> nat \<Rightarrow> string" where
  "fmt_pad w n = replicate (w - length (decimal n)) CHR ''0'' @ decimal n"

definition format_fraction :: "nat \<Rightarrow> string" where
  "format_fraction ns = (if ns = 0 then [] else ''.'' @ strip_zeros (fmt_pad 9 ns))"

definition day_of_month :: "time \<Rightarrow> nat" where
  "day_of_month t =
     (case year_month t of (y, m) \<Rightarrow> nat (t div day - (days_before_year y + days_before_month y m) + 1))"

definition format_clock :: "nat \<Rightarrow> string" where
  "format_clock s = fmt_pad 2 (s div 3600) @ '':'' @ fmt_pad 2 (s div 60 mod 60) @ '':'' @ fmt_pad 2 (s mod 60)"

definition format_time :: "time \<Rightarrow> string" where
  "format_time t =
     (case year_month t of (y, m) \<Rightarrow>
      let ns = nat (t mod day)
      in (if y < 0 then ''-'' else []) @ fmt_pad 4 (nat \<bar>y\<bar>) @ ''-'' @ fmt_pad 2 m @ ''-'' @ fmt_pad 2 (day_of_month t) @ ''T''
         @ format_clock (ns div 10 ^ 9) @ format_fraction (ns mod 10 ^ 9) @ ''Z'')"

section \<open>Reading\<close>

definition num_at :: "string \<Rightarrow> nat \<Rightarrow> nat \<Rightarrow> nat \<Rightarrow> nat \<Rightarrow> nat option" where
  "num_at s i w lo hi =
     (let ds = take w (drop i s)
      in if length ds = w \<and> list_all is_digit ds \<and> lo \<le> undecimal ds \<and> undecimal ds \<le> hi then Some (undecimal ds) else None)"

definition sep_at :: "string \<Rightarrow> nat \<Rightarrow> char \<Rightarrow> bool" where
  "sep_at s i c \<longleftrightarrow> i < length s \<and> s ! i = c"

text \<open>The first nine digits count.\<close>

definition parse_fraction :: "string \<Rightarrow> nat \<times> string" where
  "parse_fraction s =
     (case s of
        [] \<Rightarrow> (0, [])
      | c # r \<Rightarrow>
          if c = CHR ''.'' \<and> takeWhile is_digit r \<noteq> []
          then (undecimal (take 9 (takeWhile is_digit r @ replicate 9 CHR ''0'')), dropWhile is_digit r)
          else (0, s))"

definition parse_zone :: "string \<Rightarrow> int option" where
  "parse_zone s =
     (if s = ''Z'' then Some 0
      else if length s = 6 \<and> (sep_at s 0 CHR ''+'' \<or> sep_at s 0 CHR ''-'') \<and> sep_at s 3 CHR '':'' then
        (case (num_at s 1 2 0 23, num_at s 4 2 0 59) of
           (Some h, Some m) \<Rightarrow>
             (let off = int (h * 60 + m) * (60 * 10 ^ 9) in Some (if sep_at s 0 CHR ''-'' then - off else off))
         | _ \<Rightarrow> None)
      else None)"

definition parse_time :: "string \<Rightarrow> time option" where
  "parse_time s =
     (case (num_at s 0 4 0 9999, num_at s 5 2 1 12, num_at s 8 2 1 31, num_at s 11 2 0 23, num_at s 14 2 0 59, num_at s 17 2 0 59) of
        (Some y, Some m, Some d, Some h, Some mi, Some se) \<Rightarrow>
          if sep_at s 4 CHR ''-'' \<and> sep_at s 7 CHR ''-'' \<and> sep_at s 10 CHR ''T'' \<and> sep_at s 13 CHR '':'' \<and> sep_at s 16 CHR '':''
             \<and> int d \<le> month_lengths (int y) ! (m - 1)
          then
            (case parse_fraction (drop 19 s) of (ns, r) \<Rightarrow>
             case parse_zone r of
               None \<Rightarrow> None
             | Some off \<Rightarrow>
                 Some ((days_before_year (int y) + days_before_month (int y) m + int d - 1) * day
                   + int (h * 3600 + mi * 60 + se) * 10 ^ 9 + int ns - off))
          else None
      | _ \<Rightarrow> None)"

section \<open>Reading back\<close>

lemma fmt_pad_props:
  assumes "n < 10 ^ Suc k"
  shows "length (fmt_pad (Suc k) n) = Suc k" "list_all is_digit (fmt_pad (Suc k) n)" "undecimal (fmt_pad (Suc k) n) = n"
  using decimal_length [OF assms] decimal_all_digits [of n]
  by (auto simp: fmt_pad_def list_all_iff is_digit_def)

lemma fmt_pad_length: "n < 10 ^ w \<Longrightarrow> 0 < w \<Longrightarrow> length (fmt_pad w n) = w"
  using fmt_pad_props(1) [of n "w - 1"] by simp

lemma num_at_pad:
  assumes "length a = i" and "w = Suc k" and "n < 10 ^ w" and "lo \<le> n" and "n \<le> hi"
  shows "num_at (a @ fmt_pad w n @ b) i w lo hi = Some n"
  using assms fmt_pad_props [of n k] by (simp add: num_at_def)

lemma strip_zeros_split: "\<exists>k. ds = strip_zeros ds @ replicate k CHR ''0''"
proof -
  let ?z = "takeWhile (\<lambda>c. c = CHR ''0'') (rev ds)"
  have "ds = strip_zeros ds @ rev ?z"
    unfolding strip_zeros_def rev_append [symmetric] takeWhile_dropWhile_id by simp
  moreover have "rev ?z = replicate (length ?z) CHR ''0''"
    using replicate_length_same [of ?z "CHR ''0''"] set_takeWhileD [of _ "\<lambda>c. c = CHR ''0''" "rev ds"]
    by (metis rev_replicate)
  ultimately show ?thesis by metis
qed

lemma parse_format_fraction:
  assumes "ns < 10 ^ 9"
  shows "parse_fraction (format_fraction ns @ ''Z'') = (ns, ''Z'')"
proof (cases "ns = 0")
  case True
  then show ?thesis by (simp add: format_fraction_def parse_fraction_def)
next
  case False
  define p ds where "p = fmt_pad 9 ns" and "ds = strip_zeros p"
  have p: "length p = 9" "list_all is_digit p" "undecimal p = ns"
    using fmt_pad_props [of ns 8] assms by (simp_all add: p_def)
  obtain k where k: "p = ds @ replicate k CHR ''0''" using strip_zeros_split [of p] by (auto simp: ds_def)
  have "ds \<noteq> []" using k p(3) False undecimal_zeros [of k "[]"] by (auto simp: undecimal_def)
  moreover have dg: "list_all is_digit ds" using k p(2) by simp
  moreover have "take 9 (ds @ replicate 9 CHR ''0'') = p" using k p(1) by (simp add: take_replicate min_def)
  moreover have "takeWhile is_digit (ds @ ''Z'') = ds" "dropWhile is_digit (ds @ ''Z'') = ''Z''"
    using dg by (simp_all add: takeWhile_append dropWhile_append list_all_iff is_digit_def)
  ultimately show ?thesis using False p(3) by (simp add: format_fraction_def parse_fraction_def p_def [symmetric] ds_def [symmetric])
qed

lemma year_month_bounds:
  assumes "0 \<le> t" and "t < days_before_year 10000 * day" and "year_month t = (y, m)"
  shows "1 \<le> y" "y \<le> 9999" "1 \<le> m" "m \<le> 12"
    "1 \<le> day_of_month t" "int (day_of_month t) \<le> month_lengths y ! (m - 1)"
    "days_before_year y + days_before_month y m + int (day_of_month t) - 1 = t div day"
proof -
  define d where "d = t div day"
  have d: "0 \<le> d" "d < days_before_year 10000"
    using assms(1,2) div_bounds [of day t] by (simp_all add: d_def pos_imp_zdiv_nonneg_iff)
  have y: "y = year_of_day d" "m = month_of_day y d" using assms(3) by (auto simp: year_month_def Let_def d_def)
  note year = year_of_day [of d, folded y(1)]
  note month = month_of_day [OF year, folded y(2)]
  show "1 \<le> y"
  proof (rule ccontr)
    assume "\<not> 1 \<le> y"
    then have "days_before_year (y + 1) \<le> days_before_year 1" using days_before_year_mono [of "y + 1" 1] by (cases "y = 0") auto
    with d(1) year(2) show False by (simp add: days_before_year_def)
  qed
  show "y \<le> 9999"
  proof (rule ccontr)
    assume "\<not> y \<le> 9999"
    then have "days_before_year 10000 \<le> days_before_year y" using days_before_year_mono [of 10000 y] by (cases "y = 10000") auto
    with d(2) year(1) show False by simp
  qed
  show m: "1 \<le> m" "m \<le> 12" by (fact month)+
  have dom: "int (day_of_month t) = d - (days_before_year y + days_before_month y m) + 1"
    using month(3) by (simp add: day_of_month_def assms(3) d_def)
  have "days_before_month y (m + 1) = days_before_month y m + month_lengths y ! (m - 1)"
    using m length_month_lengths [of y] by (cases m) (simp_all add: days_before_month_def take_Suc_conv_app_nth)
  with dom month(3,4) show "1 \<le> day_of_month t" "int (day_of_month t) \<le> month_lengths y ! (m - 1)"
    "days_before_year y + days_before_month y m + int (day_of_month t) - 1 = t div day"
    by (simp_all add: d_def)
qed

lemma clock_parts:
  fixes s :: nat
  assumes "s < 86400"
  shows "s div 3600 \<le> 23" "s div 60 mod 60 \<le> 59" "s mod 60 \<le> 59" "s div 3600 * 3600 + s div 60 mod 60 * 60 + s mod 60 = s"
proof -
  show "s div 3600 \<le> 23" using assms less_mult_imp_div_less [of s 24 3600] by simp
  show "s div 60 mod 60 \<le> 59" "s mod 60 \<le> 59" by (simp_all add: less_Suc_eq_le [symmetric])
  have "s div 3600 = s div 60 div 60" by (simp add: div_mult2_eq [symmetric])
  then show "s div 3600 * 3600 + s div 60 mod 60 * 60 + s mod 60 = s"
    using div_mult_mod_eq [of s 60] div_mult_mod_eq [of "s div 60" 60] by linarith
qed

lemma parse_format_time:
  assumes "0 \<le> t" and "t < days_before_year 10000 * day"
  shows "parse_time (format_time t) = Some t"
proof -
  obtain y m where ym: "year_month t = (y, m)" by fastforce
  note b = year_month_bounds [OF assms ym]
  define d where "d = day_of_month t"
  have d: "1 \<le> d" "int d \<le> month_lengths y ! (m - 1)" using b by (simp_all add: d_def)
  have "month_lengths y ! (m - 1) \<in> set (month_lengths y)" using b(3,4) by (intro nth_mem) (simp add: length_month_lengths)
  then have "month_lengths y ! (m - 1) \<le> 31" by (auto simp: month_lengths_def split: if_splits)
  with d have d31: "d \<le> 31" by linarith
  define ns s f where "ns = nat (t mod day)" and "s = ns div 10 ^ 9" and "f = ns mod 10 ^ 9"
  have ns: "int ns = t mod day" "ns < 86400 * 10 ^ 9"
    using pos_mod_sign [of day t] pos_mod_bound [of day t] by (simp_all add: ns_def nat_less_iff)
  have s: "s < 86400" using ns(2) by (simp add: s_def less_mult_imp_div_less)
  note clock = clock_parts [OF s]
  have f: "f < 10 ^ 9" by (simp add: f_def)
  let ?Y = "fmt_pad 4 (nat y)" and ?M = "fmt_pad 2 m" and ?D = "fmt_pad 2 d" and ?H = "fmt_pad 2 (s div 3600)"
    and ?I = "fmt_pad 2 (s div 60 mod 60)" and ?S = "fmt_pad 2 (s mod 60)" and ?R = "format_fraction f @ ''Z''"
  have whole: "format_time t = ?Y @ ''-'' @ ?M @ ''-'' @ ?D @ ''T'' @ ?H @ '':'' @ ?I @ '':'' @ ?S @ ?R"
    using b(1) by (simp add: format_time_def ym format_clock_def Let_def d_def s_def f_def ns_def)
  have small: "nat y < 10 ^ 4" "m < 10 ^ 2" "d < 10 ^ 2" "s div 3600 < 10 ^ 2" "s div 60 mod 60 < 10 ^ 2" "s mod 60 < 10 ^ 2"
    using b(1,2,4) d31 clock(1-3) by simp_all
  have len: "length ?Y = 4" "length ?M = 2" "length ?D = 2" "length ?H = 2" "length ?I = 2" "length ?S = 2"
    by (rule fmt_pad_length, rule small, simp)+
  have at: "num_at (format_time t) i 2 lo hi = Some n"
    if "format_time t = a @ fmt_pad 2 n @ r" "length a = i" "n < 10 ^ 2" "lo \<le> n" "n \<le> hi" for a r i lo hi n
    unfolding that(1) by (rule num_at_pad [of _ _ _ 1]) (use that in simp_all)
  have fields: "num_at (format_time t) 0 4 0 9999 = Some (nat y)" "num_at (format_time t) 5 2 1 12 = Some m"
    "num_at (format_time t) 8 2 1 31 = Some d" "num_at (format_time t) 11 2 0 23 = Some (s div 3600)"
    "num_at (format_time t) 14 2 0 59 = Some (s div 60 mod 60)" "num_at (format_time t) 17 2 0 59 = Some (s mod 60)"
  proof -
    show "num_at (format_time t) 0 4 0 9999 = Some (nat y)"
      unfolding whole using num_at_pad [of "[]" 0 4 3 "nat y" 0 9999] small(1) b(2) by simp
    show "num_at (format_time t) 5 2 1 12 = Some m"
      by (rule at [of "?Y @ ''-''"]) (simp_all only: whole append_assoc len length_append small b, simp_all)
    show "num_at (format_time t) 8 2 1 31 = Some d"
      by (rule at [of "?Y @ ''-'' @ ?M @ ''-''"]) (simp_all only: whole append_assoc len length_append small d d31, simp_all)
    show "num_at (format_time t) 11 2 0 23 = Some (s div 3600)"
      by (rule at [of "?Y @ ''-'' @ ?M @ ''-'' @ ?D @ ''T''"]) (simp_all only: whole append_assoc len length_append small clock, simp_all)
    show "num_at (format_time t) 14 2 0 59 = Some (s div 60 mod 60)"
      by (rule at [of "?Y @ ''-'' @ ?M @ ''-'' @ ?D @ ''T'' @ ?H @ '':''"]) (simp_all only: whole append_assoc len length_append small clock, simp_all)
    show "num_at (format_time t) 17 2 0 59 = Some (s mod 60)"
      by (rule at [of "?Y @ ''-'' @ ?M @ ''-'' @ ?D @ ''T'' @ ?H @ '':'' @ ?I @ '':''"]) (simp_all only: whole append_assoc len length_append small clock, simp_all)
  qed
  have seps: "sep_at (format_time t) 4 CHR ''-''" "sep_at (format_time t) 7 CHR ''-''" "sep_at (format_time t) 10 CHR ''T''"
    "sep_at (format_time t) 13 CHR '':''" "sep_at (format_time t) 16 CHR '':''"
    unfolding whole sep_at_def using len by (simp_all add: nth_append)
  have rest: "drop 19 (format_time t) = ?R" unfolding whole using len by simp
  have "int (s div 3600 * 3600 + s div 60 mod 60 * 60 + s mod 60) * 10 ^ 9 + int f = int ns"
  proof -
    have "ns = s * 10 ^ 9 + f" unfolding s_def f_def by (rule div_mult_mod_eq [symmetric])
    then have "int ns = int s * 10 ^ 9 + int f" by simp
    then show ?thesis unfolding clock(4) by simp
  qed
  moreover have "t div day * day + t mod day = t" by simp
  ultimately have sum: "(days_before_year y + days_before_month y m + int d - 1) * day
      + int (s div 3600 * 3600 + s div 60 mod 60 * 60 + s mod 60) * 10 ^ 9 + int f - 0 = t"
    unfolding b(7) [folded d_def] ns(1) by (simp only: diff_0_right add.assoc)
  show ?thesis
    unfolding parse_time_def fields rest parse_format_fraction [OF f]
    using seps d(2) b(1) sum by (simp add: parse_zone_def)
qed

text \<open>A time is written in ASCII.\<close>

lemma digits_ascii: "list_all is_digit ds \<Longrightarrow> ascii ds"
  by (auto simp: ascii_def list_all_iff is_digit_def)

lemma ascii_append [simp]: "ascii (s @ t) \<longleftrightarrow> ascii s \<and> ascii t"
  by (auto simp: ascii_def)

lemma fmt_pad_ascii: "ascii (fmt_pad w n)"
  using decimal_all_digits [of n] by (intro digits_ascii) (auto simp: fmt_pad_def list_all_iff is_digit_def)

lemma strip_zeros_ascii: "ascii s \<Longrightarrow> ascii (strip_zeros s)"
  by (auto simp: ascii_def strip_zeros_def dest: set_dropWhileD)

lemma format_time_ascii: "ascii (format_time t)"
proof -
  have lits: "ascii ''-''" "ascii ''T''" "ascii '':''" "ascii ''.''" "ascii ''Z''" "ascii []" by (simp_all add: ascii_def)
  show ?thesis
    by (simp add: format_time_def format_clock_def format_fraction_def Let_def fmt_pad_ascii strip_zeros_ascii lits del: append_Cons
        split: prod.split)
qed

end
