(* ===== verification/GoFiles.thy ===== *)
theory GoFiles
  imports GoErrors
begin

text \<open>
  Files as the program uses them through package \<open>os\<close>: whole files are read and written, and a file is
  opened to append to it or to start it anew. The host is the contents of the files by path, and the
  rest of the world; before each operation the world may make it fail (permissions, a full disk).
  A path is the name of a file: two different paths are two files. Directories are not modelled.
\<close>

datatype file_op = FMkdirAll | FOpen | FCreate | FWrite | FRead

record 'w host =
  h_files :: "string \<rightharpoonup> bytes"
  h_world :: 'w

record 'w host_env =
  he_now :: "'w \<Rightarrow> time \<times> 'w"
  he_fault :: "file_op \<Rightarrow> string \<Rightarrow> 'w \<Rightarrow> goerr option \<times> 'w"

definition host_now :: "'w host_env \<Rightarrow> 'w host \<Rightarrow> time \<times> 'w host" where
  "host_now he h = (case he_now he (h_world h) of (t, w) \<Rightarrow> (t, h\<lparr>h_world := w\<rparr>))"

definition host_fault :: "'w host_env \<Rightarrow> file_op \<Rightarrow> string \<Rightarrow> 'w host \<Rightarrow> goerr option \<times> 'w host" where
  "host_fault he fop path h = (case he_fault he fop path (h_world h) of (e, w) \<Rightarrow> (e, h\<lparr>h_world := w\<rparr>))"

definition missing_file :: "string \<Rightarrow> goerr" where
  "missing_file path = Errorf (''open '' @ path @ '': no such file or directory'')"

text \<open>\<open>os.OpenFile\<close> with \<open>O_CREATE|O_APPEND|O_WRONLY\<close>, and \<open>os.Create\<close>.\<close>

definition open_append :: "'w host_env \<Rightarrow> string \<Rightarrow> 'w host \<Rightarrow> goerr option \<times> 'w host" where
  "open_append he path h =
     (case host_fault he FOpen path h of
        (Some e, h) \<Rightarrow> (Some e, h)
      | (None, h) \<Rightarrow>
          (None, if h_files h path = None then h\<lparr>h_files := (h_files h)(path \<mapsto> [])\<rparr> else h))"

definition create_file :: "'w host_env \<Rightarrow> string \<Rightarrow> 'w host \<Rightarrow> goerr option \<times> 'w host" where
  "create_file he path h =
     (case host_fault he FCreate path h of
        (Some e, h) \<Rightarrow> (Some e, h)
      | (None, h) \<Rightarrow> (None, h\<lparr>h_files := (h_files h)(path \<mapsto> [])\<rparr>))"

text \<open>\<open>os.Open\<close> of a file to read.\<close>

definition open_read :: "'w host_env \<Rightarrow> string \<Rightarrow> 'w host \<Rightarrow> goerr option \<times> 'w host" where
  "open_read he path h =
     (case host_fault he FOpen path h of
        (Some e, h) \<Rightarrow> (Some e, h)
      | (None, h) \<Rightarrow> (if h_files h path = None then Some (missing_file path) else None, h))"

text \<open>A write at the end of an open file: all of it or nothing.\<close>

definition write_end :: "'w host_env \<Rightarrow> string \<Rightarrow> bytes \<Rightarrow> 'w host \<Rightarrow> goerr option \<times> 'w host" where
  "write_end he path b h =
     (case host_fault he FWrite path h of
        (Some e, h) \<Rightarrow> (Some e, h)
      | (None, h) \<Rightarrow>
          (None, h\<lparr>h_files := (h_files h)(path \<mapsto> (case h_files h path of None \<Rightarrow> [] | Some old \<Rightarrow> old) @ b)\<rparr>))"

text \<open>\<open>os.ReadFile\<close> and \<open>os.WriteFile\<close>.\<close>

definition read_file :: "'w host_env \<Rightarrow> string \<Rightarrow> 'w host \<Rightarrow> bytes result \<times> 'w host" where
  "read_file he path h =
     (case host_fault he FRead path h of
        (Some e, h) \<Rightarrow> (Inl e, h)
      | (None, h) \<Rightarrow> (case h_files h path of None \<Rightarrow> (Inl (missing_file path), h) | Some b \<Rightarrow> (Inr b, h)))"

definition write_file :: "'w host_env \<Rightarrow> string \<Rightarrow> bytes \<Rightarrow> 'w host \<Rightarrow> goerr option \<times> 'w host" where
  "write_file he path b h =
     (case create_file he path h of
        (Some e, h) \<Rightarrow> (Some e, h)
      | (None, h) \<Rightarrow> write_end he path b h)"

definition mkdir_all :: "'w host_env \<Rightarrow> string \<Rightarrow> 'w host \<Rightarrow> goerr option \<times> 'w host" where
  "mkdir_all he dir h = host_fault he FMkdirAll dir h"

text \<open>A host on which nothing fails.\<close>

definition fault_free :: "'w host_env \<Rightarrow> bool" where
  "fault_free he \<longleftrightarrow> (\<forall>fop path w. he_fault he fop path w = (None, w))"

text \<open>A host with a stopped clock.\<close>

definition still_host :: "unit host_env" where
  "still_host = \<lparr>he_now = (\<lambda>w. (0, w)), he_fault = (\<lambda>fop path w. (None, w))\<rparr>"

lemmas file_defs = host_now_def open_append_def create_file_def open_read_def write_end_def
  read_file_def write_file_def mkdir_all_def

lemma host_fault_free: "fault_free he \<Longrightarrow> host_fault he fop path h = (None, h)"
  by (simp add: host_fault_def fault_free_def)

lemma write_then_read:
  assumes "fault_free he"
  shows "\<exists>h'. write_file he path b h = (None, h') \<and> read_file he path h' = (Inr b, h')"
  using assms by (simp add: file_defs host_fault_free)

end
