(* ===== verification/AuditLog.thy ===== *)
theory AuditLog
  imports GoJsonText GoTime GoCsv GoPaths GoFiles
begin

text \<open>
  The audit log: the logger of \<open>src/internal/audit/logger.go\<close>, which appends one JSON document per line,
  and the export to CSV of \<open>src/internal/audit/export.go\<close>, with the line scanner and the buffered writer
  it uses. The mutex of the logger covers its file operations, so a call of \<open>Write\<close> is one step here.
\<close>

section \<open>The logger\<close>

record Event =
  ev_Timestamp :: string
  ev_Actor :: string
  ev_Action :: string
  ev_Resource :: string
  ev_Status :: string
  ev_Error :: string

text \<open>The tags of the struct; \<open>error\<close> is left out when empty.\<close>

definition event_json :: "Event \<Rightarrow> jval" where
  "event_json ev =
     JObj ([(''ts'', JStr (ev_Timestamp ev)), (''actor'', JStr (ev_Actor ev)), (''action'', JStr (ev_Action ev)),
            (''resource'', JStr (ev_Resource ev)), (''status'', JStr (ev_Status ev))]
           @ (if ev_Error ev = [] then [] else [(''error'', JStr (ev_Error ev))]))"

definition event_fields :: "(string \<times> jkind) list" where
  "event_fields = map (\<lambda>n. (n, KString)) [''ts'', ''actor'', ''action'', ''resource'', ''status'', ''error'']"

definition event_of :: "(string \<rightharpoonup> jscalar) \<Rightarrow> Event" where
  "event_of m = \<lparr>ev_Timestamp = get_string m ''ts'', ev_Actor = get_string m ''actor'', ev_Action = get_string m ''action'',
     ev_Resource = get_string m ''resource'', ev_Status = get_string m ''status'', ev_Error = get_string m ''error''\<rparr>"

record Logger =
  lg_path :: string

definition NewLogger :: "string \<Rightarrow> Logger" where
  "NewLogger path = \<lparr>lg_path = path\<rparr>"

definition Enabled :: "Logger option \<Rightarrow> bool" where
  "Enabled l \<longleftrightarrow> (case l of None \<Rightarrow> False | Some lg \<Rightarrow> lg_path lg \<noteq> [])"

definition logger_Write ::
  "'w host_env \<Rightarrow> Logger option \<Rightarrow> string \<Rightarrow> string \<Rightarrow> string \<Rightarrow> string \<Rightarrow> goerr option \<Rightarrow> 'w host
   \<Rightarrow> goerr option \<times> 'w host" where
  "logger_Write he l actor action resource status err h =
     (if \<not> Enabled l then (None, h)
      else
        (case host_now he h of (now, h) \<Rightarrow>
         let path = lg_path (the l);
             ev = \<lparr>ev_Timestamp = format_time now, ev_Actor = actor, ev_Action = action, ev_Resource = resource,
                   ev_Status = status, ev_Error = (case err of None \<Rightarrow> [] | Some e \<Rightarrow> err_text e)\<rparr>
         in case json_Marshal (event_json ev) of
              Inl e \<Rightarrow> (Some (WrapErr ''audit marshal: '' e []), h)
            | Inr b \<Rightarrow>
                (case mkdir_all he (path_dir path) h of
                   (Some e, h) \<Rightarrow> (Some (WrapErr ''audit mkdir: '' e []), h)
                 | (None, h) \<Rightarrow>
                     (case open_append he path h of
                        (Some e, h) \<Rightarrow> (Some (WrapErr ''audit open: '' e []), h)
                      | (None, h) \<Rightarrow>
                          (case write_end he path (b @ [newline]) h of
                             (Some e, h) \<Rightarrow> (Some (WrapErr ''audit write: '' e []), h)
                           | (None, h) \<Rightarrow> (None, h))))))"

section \<open>The export\<close>

text \<open>
  \<open>bufio.Scanner\<close> with \<open>ScanLines\<close>: the pieces between newlines, the last one only when it is not empty.
\<close>

fun split_lines :: "string \<Rightarrow> string \<Rightarrow> string list" where
  "split_lines acc [] = (if acc = [] then [] else [rev acc])"
| "split_lines acc (c # s) = (if c = newline then rev acc # split_lines [] s else split_lines (c # acc) s)"

definition drop_cr :: "string \<Rightarrow> string" where
  "drop_cr line = (if line \<noteq> [] \<and> last line = carriage then butlast line else line)"

definition max_token :: nat where "max_token = 65536"

text \<open>
  The buffer of the CSV writer holds 4096 bytes; what overflows is written to the file. A failed write
  is reported by the row that overflows.
\<close>

definition buffer_size :: nat where "buffer_size = 4096"

definition buffered_write ::
  "'w host_env \<Rightarrow> string \<Rightarrow> bytes \<Rightarrow> bytes \<times> 'w host \<Rightarrow> goerr option \<times> bytes \<times> 'w host" where
  "buffered_write he path b st =
     (case st of (buf, h) \<Rightarrow>
      if length (buf @ b) \<le> buffer_size then (None, buf @ b, h)
      else
        (let n = (length (buf @ b) - 1) div buffer_size * buffer_size
         in case write_end he path (take n (buf @ b)) h of
              (Some e, h) \<Rightarrow> (Some e, [], h)
            | (None, h) \<Rightarrow> (None, drop n (buf @ b), h)))"

text \<open>\<open>Flush\<close> is deferred: its error is dropped.\<close>

definition flush :: "'w host_env \<Rightarrow> string \<Rightarrow> bytes \<times> 'w host \<Rightarrow> 'w host" where
  "flush he path st = (case st of (buf, h) \<Rightarrow> if buf = [] then h else snd (write_end he path buf h))"

definition event_record :: "Event \<Rightarrow> string list" where
  "event_record ev = [ev_Timestamp ev, ev_Actor ev, ev_Action ev, ev_Resource ev, ev_Status ev, ev_Error ev]"

definition parse_event :: "string \<Rightarrow> Event result" where
  "parse_event line =
     (case json_parse line of
        Inl e \<Rightarrow> Inl e
      | Inr v \<Rightarrow> (case decode_struct ''audit.Event'' event_fields v of Inl e \<Rightarrow> Inl e | Inr m \<Rightarrow> Inr (event_of m)))"

fun export_lines ::
  "'w host_env \<Rightarrow> string \<Rightarrow> string list \<Rightarrow> bytes \<times> 'w host \<Rightarrow> goerr option \<times> bytes \<times> 'w host" where
  "export_lines he out [] st = (None, st)"
| "export_lines he out (line # ls) st =
     (if max_token \<le> length line then (Some (WrapErr ''scan audit log: '' (Errorf ''bufio.Scanner: token too long'') []), st)
      else if drop_cr line = [] then export_lines he out ls st
      else
        (case parse_event (drop_cr line) of
           Inl e \<Rightarrow> (Some (WrapErr ''parse audit line: '' e []), st)
         | Inr ev \<Rightarrow>
             (case buffered_write he out (csv_row (event_record ev)) st of
                (Some e, st) \<Rightarrow> (Some (WrapErr ''write csv row: '' e []), st)
              | (None, st) \<Rightarrow> export_lines he out ls st)))"

definition audit_header :: "string list" where
  "audit_header = [''ts'', ''actor'', ''action'', ''resource'', ''status'', ''error'']"

text \<open>The input is read after the output was created, and as a whole.\<close>

definition ExportJSONLToCSV :: "'w host_env \<Rightarrow> string \<Rightarrow> string \<Rightarrow> 'w host \<Rightarrow> goerr option \<times> 'w host" where
  "ExportJSONLToCSV he inputPath outputPath h =
     (case open_read he inputPath h of
        (Some e, h) \<Rightarrow> (Some (WrapErr ''open input audit log: '' e []), h)
      | (None, h) \<Rightarrow>
          (case create_file he outputPath h of
             (Some e, h) \<Rightarrow> (Some (WrapErr ''create output csv: '' e []), h)
           | (None, h) \<Rightarrow>
               (case buffered_write he outputPath (csv_row audit_header) ([], h) of
                  (Some e, st) \<Rightarrow> (Some (WrapErr ''write csv header: '' e []), flush he outputPath st)
                | (None, buf, h) \<Rightarrow>
                    (case read_file he inputPath h of
                       (Inl e, h) \<Rightarrow> (Some (WrapErr ''scan audit log: '' e []), flush he outputPath (buf, h))
                     | (Inr b, h) \<Rightarrow>
                         (case export_lines he outputPath (split_lines [] b) (buf, h) of
                            (err, st) \<Rightarrow> (err, flush he outputPath st))))))"

section \<open>A line of the log\<close>

definition event_text :: "Event \<Rightarrow> string" where
  "event_text ev = render (\<lambda>_. []) '':'' 0 (event_json ev)"

definition event_ok :: "Event \<Rightarrow> bool" where
  "event_ok ev \<longleftrightarrow> list_all utf8_valid (event_record ev) \<and> length (event_text ev) < max_token"

lemma event_readable:
  assumes "event_ok ev"
  shows "readable max_depth (event_json ev)"
proof -
  have "utf8_valid k" if "k \<in> {''ts'', ''actor'', ''action'', ''resource'', ''status'', ''error''}" for k
    using that by (intro ascii_valid) (auto simp: ascii_def)
  with assms show ?thesis by (simp add: event_ok_def event_record_def event_json_def max_depth_def)
qed

lemma event_marshal: "json_Marshal (event_json ev) = Inr (event_text ev)"
  by (simp add: json_Marshal_def event_text_def event_json_def)

lemma event_of_decoded:
  "\<exists>m. decode_struct ''audit.Event'' event_fields (event_json ev) = Inr m \<and> event_of m = ev"
  by (simp add: decode_struct_def event_json_def event_fields_def find_field_def event_of_def get_string_def)

lemma parse_event_text: "event_ok ev \<Longrightarrow> parse_event (event_text ev) = Inr ev"
  using json_parse_render [of "\<lambda>_. []" "'':''" "[]" "event_json ev"] event_readable [of ev] event_of_decoded [of ev]
  by (auto simp: parse_event_def event_text_def spaces_def)

text \<open>A line has no control characters in it, and ends with a brace.\<close>

lemma u_escape_bytes: "r < 65536 \<Longrightarrow> c \<in> set (u_escape r) \<Longrightarrow> 32 \<le> byte c"
  by (auto simp: u_escape_def byte_string_def hex_digit_def less_mult_imp_div_less)

lemma escape_ascii_bytes: "byte c < 128 \<Longrightarrow> x \<in> set (escape_ascii c) \<Longrightarrow> 32 \<le> byte x"
  using u_escape_bytes [of "byte c" x] by (auto simp: escape_ascii_def Let_def byte_string_def split: if_splits)

lemma escape_bytes: "x \<in> set (json_escape s) \<Longrightarrow> 32 \<le> byte x"
proof (induction s rule: json_escape.induct)
  case (1 s)
  show ?case
  proof (cases s)
    case Nil
    with "1.prems" show ?thesis by (simp add: json_escape.simps)
  next
    case (Cons c r)
    show ?thesis
    proof (cases "byte c < 128 \<or> utf8_size s = 0")
      case True
      with "1.prems" 1(1,2) [OF Cons] Cons show ?thesis
        by (subst (asm) json_escape.simps) (auto dest: escape_ascii_bytes u_escape_bytes [rotated] split: if_splits)
    next
      case False
      then have "128 \<le> byte y" if "y \<in> set (take (utf8_size s) s)" for y
        using that utf8_size_bytes [of c r y] by (simp add: Cons)
      with False "1.prems" 1(3) [OF Cons _ _ refl] Cons show ?thesis
        by (subst (asm) json_escape.simps) (fastforce simp: Let_def dest: u_escape_bytes [rotated] split: if_splits)
    qed
  qed
qed

lemma json_string_bytes: "x \<in> set (json_string s) \<Longrightarrow> 32 \<le> byte x"
  using escape_bytes by (auto simp: json_string_def byte_string_def)

lemma event_text_bytes: "x \<in> set (event_text ev) \<Longrightarrow> 32 \<le> byte x"
  using json_string_bytes by (auto simp: event_text_def event_json_def split: if_splits)

lemma event_text_shape: "newline \<notin> set (event_text ev)" "drop_cr (event_text ev) = event_text ev" "event_text ev \<noteq> []"
proof -
  show "newline \<notin> set (event_text ev)" using event_text_bytes [of newline ev] by (auto simp: newline_def)
  show ne: "event_text ev \<noteq> []" by (simp add: event_text_def event_json_def)
  have "last (event_text ev) \<noteq> carriage"
    using event_text_bytes [of "last (event_text ev)" ev] ne by (auto simp: carriage_def)
  then show "drop_cr (event_text ev) = event_text ev" by (simp add: drop_cr_def)
qed

lemma split_lines_piece: "newline \<notin> set l \<Longrightarrow> split_lines acc (l @ newline # s) = (rev acc @ l) # split_lines [] s"
  by (induction l arbitrary: acc) auto

definition log_text :: "Event list \<Rightarrow> string" where
  "log_text evs = concat (map (\<lambda>ev. event_text ev @ [newline]) evs)"

lemma split_log: "split_lines [] (log_text evs) = map event_text evs"
  by (induction evs) (simp_all add: log_text_def split_lines_piece event_text_shape)

section \<open>What is logged is exported\<close>

text \<open>A series of calls of the logger, and the events they stand for.\<close>

record audit_call =
  ac_actor :: string
  ac_action :: string
  ac_resource :: string
  ac_status :: string
  ac_err :: "goerr option"

fun write_calls :: "'w host_env \<Rightarrow> Logger \<Rightarrow> audit_call list \<Rightarrow> 'w host \<Rightarrow> 'w host" where
  "write_calls he l [] h = h"
| "write_calls he l (c # cs) h =
     write_calls he l cs
       (snd (logger_Write he (Some l) (ac_actor c) (ac_action c) (ac_resource c) (ac_status c) (ac_err c) h))"

fun logged :: "'w host_env \<Rightarrow> audit_call list \<Rightarrow> 'w \<Rightarrow> Event list" where
  "logged he [] w = []"
| "logged he (c # cs) w =
     (case he_now he w of (now, w) \<Rightarrow>
        \<lparr>ev_Timestamp = format_time now, ev_Actor = ac_actor c, ev_Action = ac_action c, ev_Resource = ac_resource c,
         ev_Status = ac_status c, ev_Error = (case ac_err c of None \<Rightarrow> [] | Some e \<Rightarrow> err_text e)\<rparr> # logged he cs w)"

definition contents :: "'w host \<Rightarrow> string \<Rightarrow> bytes" where
  "contents h path = (case h_files h path of None \<Rightarrow> [] | Some b \<Rightarrow> b)"

lemma contents_simps [simp]:
  "contents (h\<lparr>h_files := (h_files h)(p \<mapsto> b)\<rparr>) q = (if q = p then b else contents h q)"
  "contents (h\<lparr>h_world := w\<rparr>) q = contents h q"
  by (simp_all add: contents_def)

lemma write_end_free: "fault_free he \<Longrightarrow>
  write_end he path b h = (None, h\<lparr>h_files := (h_files h)(path \<mapsto> contents h path @ b)\<rparr>)"
  by (simp add: write_end_def host_fault_free contents_def)

lemma write_calls_log:
  assumes ff: "fault_free he" and path: "lg_path l \<noteq> []"
  shows "contents (write_calls he l cs h) (lg_path l) = contents h (lg_path l) @ log_text (logged he cs (h_world h))
    \<and> (h_files h (lg_path l) \<noteq> None \<or> cs \<noteq> [] \<longrightarrow> h_files (write_calls he l cs h) (lg_path l) \<noteq> None)"
proof (induction cs arbitrary: h)
  case (Cons c cs)
  obtain now w where now: "he_now he (h_world h) = (now, w)" by fastforce
  let ?ev = "\<lparr>ev_Timestamp = format_time now, ev_Actor = ac_actor c, ev_Action = ac_action c, ev_Resource = ac_resource c,
     ev_Status = ac_status c, ev_Error = (case ac_err c of None \<Rightarrow> [] | Some e \<Rightarrow> err_text e)\<rparr>"
  define h' where "h' = snd (logger_Write he (Some l) (ac_actor c) (ac_action c) (ac_resource c) (ac_status c) (ac_err c) h)"
  have "h' = h\<lparr>h_world := w, h_files := (h_files h)(lg_path l \<mapsto> contents h (lg_path l) @ event_text ?ev @ [newline])\<rparr>"
    using ff path by (simp add: h'_def logger_Write_def Enabled_def host_now_def now event_marshal mkdir_all_def open_append_def
        host_fault_free write_end_free Let_def contents_def)
  then have "contents h' (lg_path l) = contents h (lg_path l) @ event_text ?ev @ [newline]" "h_world h' = w"
    "h_files h' (lg_path l) \<noteq> None" by (simp_all add: contents_def)
  with Cons.IH [of h'] show ?case by (simp add: h'_def [symmetric] now log_text_def)
qed (simp add: log_text_def)

text \<open>The output so far: what is in the file and what is still in the buffer.\<close>

definition pending :: "string \<Rightarrow> bytes \<times> 'w host \<Rightarrow> bytes" where
  "pending out st = contents (snd st) out @ fst st"

lemma buffered_write_free:
  assumes "fault_free he"
  shows "\<exists>st'. buffered_write he out b st = (None, st') \<and> pending out st' = pending out st @ b"
  using assms by (cases st) (auto simp: buffered_write_def write_end_free pending_def Let_def simp del: take_append drop_append)

lemma export_lines_free:
  assumes ff: "fault_free he" and "list_all event_ok evs"
  shows "\<exists>st'. export_lines he out (map event_text evs) st = (None, st')
    \<and> pending out st' = pending out st @ concat (map (\<lambda>ev. csv_row (event_record ev)) evs)"
  using assms(2)
proof (induction evs arbitrary: st)
  case (Cons ev evs)
  obtain st1 where st1: "buffered_write he out (csv_row (event_record ev)) st = (None, st1)"
    "pending out st1 = pending out st @ csv_row (event_record ev)" using buffered_write_free [OF ff] by blast
  have "length (event_text ev) < max_token" using Cons.prems by (simp add: event_ok_def)
  with Cons.IH [of st1] Cons.prems st1 show ?case by (simp add: event_text_shape parse_event_text)
qed simp

lemma flush_free: "fault_free he \<Longrightarrow> h_files (snd st) out \<noteq> None \<Longrightarrow> h_files (flush he out st) out = Some (pending out st)"
  by (cases st) (auto simp: flush_def write_end_free pending_def contents_def)

lemma buffered_write_file:
  assumes "h_files (snd st) out \<noteq> None"
  shows "h_files (snd (snd (buffered_write he out b st))) out \<noteq> None"
  using assms by (cases st) (auto simp: buffered_write_def write_end_def host_fault_def Let_def split: prod.split option.split)

lemma export_lines_file:
  assumes "h_files (snd st) out \<noteq> None"
  shows "h_files (snd (snd (export_lines he out ls st))) out \<noteq> None"
  using assms
proof (induction ls arbitrary: st)
  case (Cons l ls)
  show ?case
  proof (cases "parse_event (drop_cr l)")
    case (Inr ev)
    obtain err st1 where st1: "buffered_write he out (csv_row (event_record ev)) st = (err, st1)" using prod.exhaust by blast
    then have "h_files (snd st1) out \<noteq> None" using buffered_write_file [OF Cons.prems, of he "csv_row (event_record ev)"] by simp
    with Cons st1 Inr show ?thesis by (simp split: option.split)
  qed (use Cons in simp)
qed simp

lemma csv_field_length: "length (csv_field f) \<le> 2 * length f + 2"
proof -
  have "length (double_quotes f) \<le> 2 * length f" by (induction f) (auto simp: double_quotes_def)
  then show ?thesis by (simp add: csv_field_def)
qed

lemma csv_fields_length: "length (csv_fields fs) \<le> sum_list (map (\<lambda>f. 2 * length f + 3) fs)"
proof (induction fs rule: csv_fields.induct)
  case (2 f)
  then show ?case using csv_field_length [of f] by simp
next
  case (3 f g fs)
  then show ?case using csv_field_length [of f] by simp
qed simp

lemma header_fits: "length (csv_row audit_header) \<le> buffer_size"
  using csv_fields_length [of audit_header] by (simp add: csv_row_def buffer_size_def audit_header_def)

lemma export_of_log:
  assumes ff: "fault_free he" and files: "h_files h path = Some (log_text evs)" "out \<noteq> path" and ok: "list_all event_ok evs"
  shows "\<exists>h'. ExportJSONLToCSV he path out h = (None, h')
    \<and> h_files h' out = Some (concat (map csv_row (audit_header # map event_record evs)))"
proof -
  define h1 where "h1 = h\<lparr>h_files := (h_files h)(out \<mapsto> [])\<rparr>"
  have header: "buffered_write he out (csv_row audit_header) ([], h1) = (None, csv_row audit_header, h1)"
    using header_fits by (simp add: buffered_write_def)
  let ?st = "(csv_row audit_header, h1)"
  from export_lines_free [OF ff ok, of out ?st] obtain st' where
    st': "export_lines he out (map event_text evs) ?st = (None, st')"
      "pending out st' = pending out ?st @ concat (map (\<lambda>ev. csv_row (event_record ev)) evs)" by blast
  have "h_files (snd st') out \<noteq> None" using export_lines_file [of ?st out he "map event_text evs"] st'(1) by (simp add: h1_def)
  from flush_free [OF ff this] have "h_files (flush he out st') out = Some (concat (map csv_row (audit_header # map event_record evs)))"
    using st'(2) by (simp add: pending_def h1_def comp_def)
  moreover have "ExportJSONLToCSV he path out h = (None, flush he out st')"
    using ff files header st'(1)
    by (simp add: ExportJSONLToCSV_def open_read_def create_file_def read_file_def host_fault_free h1_def [symmetric] split_log)
       (simp add: h1_def split_log)
  ultimately show ?thesis by blast
qed

text \<open>
  C26: What is logged is exported. Any calls of the logger on an empty log, followed by the export, give
  a CSV file that reads back as the header and one row per call, in order, with the time of the call,
  the actor, action, resource, status and error text, whatever characters these hold: as long as the
  texts are UTF-8, no line reaches 64 KiB and no file operation fails.
\<close>

theorem audit_export_roundtrip:
  assumes "fault_free he" and "path \<noteq> []" and "out \<noteq> path" and "h_files h path = Some []"
    and "list_all event_ok (logged he calls (h_world h))"
  shows "\<exists>h'. ExportJSONLToCSV he path out (write_calls he (NewLogger path) calls h) = (None, h')
    \<and> Option.bind (h_files h' out) csv_read = Some (audit_header # map event_record (logged he calls (h_world h)))"
proof -
  let ?h = "write_calls he (NewLogger path) calls h" and ?evs = "logged he calls (h_world h)"
  have "contents ?h path = log_text ?evs" "h_files ?h path \<noteq> None"
    using write_calls_log [OF assms(1), of "NewLogger path" calls h] assms(2,4) by (simp_all add: NewLogger_def contents_def)
  then have "h_files ?h path = Some (log_text ?evs)" by (auto simp: contents_def)
  from export_of_log [OF assms(1) this assms(3,5)] obtain h' where
    "ExportJSONLToCSV he path out ?h = (None, h')" "h_files h' out = Some (concat (map csv_row (audit_header # map event_record ?evs)))" by blast
  moreover have "csv_read (concat (map csv_row (audit_header # map event_record ?evs))) = Some (audit_header # map event_record ?evs)"
    by (rule csv_read_rows) (simp add: audit_header_def event_record_def list_all_iff)
  ultimately show ?thesis by auto
qed

definition two_calls :: "audit_call list" where
  "two_calls = [\<lparr>ac_actor = ''admin'', ac_action = ''run'', ac_resource = ''a,b.yaml'', ac_status = ''success'', ac_err = None\<rparr>,
     \<lparr>ac_actor = ''viewer'', ac_action = ''run'', ac_resource = ''a,b.yaml'', ac_status = ''error'',
      ac_err = Some (Errorf (''rbac denied: role '' @ fmt_q ''viewer''))\<rparr>]"

lemma json_escape_length: "length (json_escape s) \<le> 6 * length s"
proof (induction s rule: json_escape.induct)
  case (1 s)
  show ?case
  proof (cases s)
    case (Cons c r)
    have ascii: "length (escape_ascii c) \<le> 6" by (auto simp: escape_ascii_def Let_def byte_string_def)
    show ?thesis
    proof (cases "byte c < 128 \<or> utf8_size s = 0")
      case True
      with 1(1,2) [OF Cons] Cons ascii show ?thesis by (subst json_escape.simps) auto
    next
      case False
      have "length (json_escape (drop (utf8_size s) s)) \<le> 6 * (length s - utf8_size s)"
        using 1(3) [OF Cons _ _ refl] False by simp
      moreover have "1 \<le> utf8_size s" "utf8_size s \<le> length s" using False utf8_size_le by simp_all
      ultimately show ?thesis using False Cons by (subst json_escape.simps) (auto simp: Let_def)
    qed
  qed (simp add: json_escape.simps)
qed

lemma json_string_length: "length (json_string s) \<le> 6 * length s + 2"
  using json_escape_length [of s] by (simp add: json_string_def byte_string_def)

lemma event_ok_short:
  assumes "list_all ascii (event_record ev)" and "list_all (\<lambda>f. length f \<le> 1000) (event_record ev)"
  shows "event_ok ev"
proof -
  have "length (event_text ev) < max_token"
    using assms(2) json_string_length [of "ev_Timestamp ev"] json_string_length [of "ev_Actor ev"] json_string_length [of "ev_Action ev"]
      json_string_length [of "ev_Resource ev"] json_string_length [of "ev_Status ev"] json_string_length [of "ev_Error ev"]
      json_string_length [of "''ts''"] json_string_length [of "''actor''"] json_string_length [of "''action''"]
      json_string_length [of "''resource''"] json_string_length [of "''status''"] json_string_length [of "''error''"]
    by (simp add: event_text_def event_json_def event_record_def max_token_def)
  with assms(1) show ?thesis by (auto simp: event_ok_def list_all_iff ascii_valid)
qed

lemma format_time_zero: "format_time 0 = ''0001-01-01T00:00:00Z''"
proof -
  have zeros: "replicate 3 CHR ''0'' = ''000''" by (simp add: numeral_eq_Suc)
  have "year_of_day 0 = 1" by (simp add: year_of_day_def days_before_year_def)
  moreover have "month_of_day 1 0 = 1"
    by (simp add: month_of_day_def upt_rec [of "Suc 0" 13] upt_rec [of "Suc (Suc 0)" 13] days_before_year_def days_before_month_def month_lengths_def)
  ultimately have ym: "year_month 0 = (1, 1)" by (simp add: year_month_def)
  then have "day_of_month 0 = 1" by (simp add: day_of_month_def days_before_year_def days_before_month_def)
  with ym show ?thesis
    by (simp add: format_time_def format_clock_def format_fraction_def fmt_pad_def decimal.simps digit_def char_of_def bit_0 zeros)
qed

lemma two_calls_ok: "list_all event_ok (logged still_host two_calls ())"
  by (auto simp: two_calls_def still_host_def format_time_zero event_record_def ascii_def fmt_q_def quote_char_def byte_string_def
      intro!: event_ok_short)

theorem audit_export_roundtrip_witness:
  "\<exists>h'. ExportJSONLToCSV still_host ''audit.log'' ''audit.csv''
      (write_calls still_host (NewLogger ''audit.log'') two_calls \<lparr>h_files = [''audit.log'' \<mapsto> []], h_world = ()\<rparr>) = (None, h')
    \<and> Option.bind (h_files h' ''audit.csv'') csv_read = Some (audit_header # map event_record (logged still_host two_calls ()))"
  using audit_export_roundtrip [of still_host "''audit.log''" "''audit.csv''" "\<lparr>h_files = [''audit.log'' \<mapsto> []], h_world = ()\<rparr>" two_calls]
    two_calls_ok by (simp add: fault_free_def still_host_def)

section \<open>Failures of the export\<close>

text \<open>Writing to \<open>out\<close> always fails, every other operation works.\<close>

definition write_fails :: "'w host_env \<Rightarrow> string \<Rightarrow> bool" where
  "write_fails he out \<longleftrightarrow> (\<forall>fop path w. \<exists>e. he_fault he fop path w = (if fop = FWrite \<and> path = out then Some e else None, w))"

lemma write_fails_fault:
  assumes "write_fails he out"
  shows "fop \<noteq> FWrite \<Longrightarrow> host_fault he fop path h = (None, h)" "\<exists>e. write_end he out b h = (Some e, h)"
proof -
  from assms have spec: "\<And>fop path w. \<exists>e. he_fault he fop path w = (if fop = FWrite \<and> path = out then Some e else None, w)"
    by (auto simp: write_fails_def)
  show "host_fault he fop path h = (None, h)" if "fop \<noteq> FWrite"
    using spec [of fop path "h_world h"] that by (auto simp: host_fault_def)
  show "\<exists>e. write_end he out b h = (Some e, h)"
    using spec [of FWrite out "h_world h"] by (auto simp: write_end_def host_fault_def)
qed

lemma export_lines_buffered:
  assumes "list_all event_ok evs" and "length buf + length (concat (map (\<lambda>ev. csv_row (event_record ev)) evs)) \<le> buffer_size"
  shows "export_lines he out (map event_text evs) (buf, h) = (None, buf @ concat (map (\<lambda>ev. csv_row (event_record ev)) evs), h)"
  using assms
proof (induction evs arbitrary: buf)
  case (Cons ev evs)
  have "length (event_text ev) < max_token" using Cons.prems(1) by (simp add: event_ok_def)
  moreover have "buffered_write he out (csv_row (event_record ev)) (buf, h) = (None, buf @ csv_row (event_record ev), h)"
    using Cons.prems(2) by (simp add: buffered_write_def)
  ultimately show ?case
    using Cons.IH [of "buf @ csv_row (event_record ev)"] Cons.prems by (simp add: event_text_shape parse_event_text)
qed simp

text \<open>
  The export reports success although nothing was written. As long as the whole table fits into
  the 4096 bytes of the buffer, the first write to the output is the deferred flush, and its error is
  dropped: on a disk that takes no data the export returns no error and leaves an empty file.
\<close>

theorem export_ignores_failed_flush:
  assumes "write_fails he out" and "h_files h path = Some (log_text evs)" and "out \<noteq> path" and "list_all event_ok evs"
    and "length (concat (map csv_row (audit_header # map event_record evs))) \<le> buffer_size"
  shows "\<exists>h'. ExportJSONLToCSV he path out h = (None, h') \<and> h_files h' out = Some []"
proof -
  define h1 where "h1 = h\<lparr>h_files := (h_files h)(out \<mapsto> [])\<rparr>"
  let ?hd = "csv_row audit_header" and ?rows = "concat (map (\<lambda>ev. csv_row (event_record ev)) evs)"
  note works = write_fails_fault(1) [OF assms(1)]
  have "buffered_write he out ?hd ([], h1) = (None, ?hd, h1)" using header_fits by (simp add: buffered_write_def)
  moreover have "export_lines he out (map event_text evs) (?hd, h1) = (None, ?hd @ ?rows, h1)"
    by (rule export_lines_buffered [OF assms(4)]) (use assms(5) in \<open>simp add: comp_def\<close>)
  moreover have "flush he out (?hd @ ?rows, h1) = h1"
    using write_fails_fault(2) [OF assms(1), of "?hd @ ?rows" h1] by (auto simp: flush_def)
  ultimately have "ExportJSONLToCSV he path out h = (None, h1)"
    using assms(2,3) by (simp add: ExportJSONLToCSV_def open_read_def create_file_def read_file_def works h1_def [symmetric])
       (simp add: h1_def split_log)
  then show ?thesis by (simp add: h1_def)
qed

definition full_disk :: "unit host_env" where
  "full_disk = \<lparr>he_now = (\<lambda>w. (0, w)),
     he_fault = (\<lambda>fop path w. (if fop = FWrite \<and> path = ''audit.csv'' then Some (Errorf ''no space left on device'') else None, w))\<rparr>"

theorem export_ignores_failed_flush_witness:
  "\<exists>h'. ExportJSONLToCSV full_disk ''audit.log'' ''audit.csv''
      \<lparr>h_files = [''audit.log'' \<mapsto> log_text (logged still_host two_calls ())], h_world = ()\<rparr> = (None, h')
    \<and> h_files h' ''audit.csv'' = Some []"
proof (rule export_ignores_failed_flush [OF _ _ _ two_calls_ok])
  show "write_fails full_disk ''audit.csv''" by (auto simp: write_fails_def full_disk_def)
  have row: "length (csv_row fs) \<le> 1 + sum_list (map (\<lambda>f. 2 * length f + 3) fs)" for fs
    using csv_fields_length [of fs] by (simp add: csv_row_def)
  have fits: "length (csv_row (event_record ev)) \<le> 600" if "ev \<in> set (logged still_host two_calls ())" for ev
    using that row [of "event_record ev"]
    by (auto simp: two_calls_def still_host_def format_time_zero event_record_def fmt_q_def quote_char_def byte_string_def)
  obtain a b where ab: "logged still_host two_calls () = [a, b]" by (simp add: two_calls_def still_host_def)
  then show "length (concat (map csv_row (audit_header # map event_record (logged still_host two_calls ())))) \<le> buffer_size"
    using fits [of a] fits [of b] row [of audit_header] by (simp add: buffer_size_def audit_header_def)
qed (simp_all)

text \<open>
  Exporting a log onto itself erases it: the output is created before the input is read.
\<close>

lemma export_onto_itself:
  assumes "fault_free he" and "h_files h path = Some b"
  shows "\<exists>h'. ExportJSONLToCSV he path path h = (None, h') \<and> h_files h' path = Some (csv_row audit_header)"
  using assms header_fits
  by (simp add: ExportJSONLToCSV_def open_read_def create_file_def read_file_def host_fault_free buffered_write_def flush_def
      write_end_free contents_def csv_row_def)

end
