(* ===== verification/GoBase64.thy ===== *)
theory GoBase64
  imports GoUtf8
begin

text \<open>
  Base64 as \<open>base64.StdEncoding\<close> has it: the form in which \<open>encoding/json\<close> writes a \<open>[]byte\<close>. The decoder
  skips newlines and wants the padding; bits behind the last byte are ignored.
\<close>

definition b64_char :: "nat \<Rightarrow> char" where
  "b64_char n =
     (if n < 26 then char_of (65 + n) else if n < 52 then char_of (71 + n) else if n < 62 then char_of (n - 4)
      else if n = 62 then CHR ''+'' else CHR ''/'')"

definition b64_val :: "char \<Rightarrow> nat option" where
  "b64_val c =
     (if byte_in 65 90 c then Some (byte c - 65) else if byte_in 97 122 c then Some (byte c - 71)
      else if byte_in 48 57 c then Some (byte c + 4)
      else if c = CHR ''+'' then Some 62 else if c = CHR ''/'' then Some 63 else None)"

fun b64_encode :: "bytes \<Rightarrow> string" where
  "b64_encode [] = []"
| "b64_encode [a] = [b64_char (byte a div 4), b64_char (byte a mod 4 * 16), CHR ''='', CHR ''='']"
| "b64_encode [a, b] =
     [b64_char (byte a div 4), b64_char (byte a mod 4 * 16 + byte b div 16), b64_char (byte b mod 16 * 4), CHR ''='']"
| "b64_encode (a # b # c # r) =
     b64_char (byte a div 4) # b64_char (byte a mod 4 * 16 + byte b div 16)
     # b64_char (byte b mod 16 * 4 + byte c div 64) # b64_char (byte c mod 64) # b64_encode r"

definition b64_pair :: "nat \<Rightarrow> nat \<Rightarrow> char" where
  "b64_pair x y = char_of (x * 4 + y div 16)"

definition b64_second :: "nat \<Rightarrow> nat \<Rightarrow> char" where
  "b64_second y z = char_of (y mod 16 * 16 + z div 4)"

definition b64_third :: "nat \<Rightarrow> nat \<Rightarrow> char" where
  "b64_third z v = char_of (z mod 4 * 64 + v)"

fun b64_quads :: "string \<Rightarrow> bytes option" where
  "b64_quads [] = Some []"
| "b64_quads (p # q # r # s # t) =
     (case (b64_val p, b64_val q) of
        (Some x, Some y) \<Rightarrow>
          if s = CHR ''='' then
            if t \<noteq> [] then None
            else if r = CHR ''='' then Some [b64_pair x y]
            else map_option (\<lambda>z. [b64_pair x y, b64_second y z]) (b64_val r)
          else
            (case (b64_val r, b64_val s, b64_quads t) of
               (Some z, Some v, Some bs) \<Rightarrow> Some (b64_pair x y # b64_second y z # b64_third z v # bs)
             | _ \<Rightarrow> None)
      | _ \<Rightarrow> None)"
| "b64_quads _ = None"

definition b64_decode :: "string \<Rightarrow> bytes option" where
  "b64_decode s = b64_quads (filter (\<lambda>c. byte c \<noteq> 10 \<and> byte c \<noteq> 13) s)"

section \<open>Reading back\<close>

lemma b64_char_byte:
  assumes "n < 64"
  shows "byte (b64_char n) = (if n < 26 then 65 + n else if n < 52 then 71 + n else if n < 62 then n - 4 else if n = 62 then 43 else 47)"
  using assms by (simp add: b64_char_def)

lemma b64_val_char [simp]: "n < 64 \<Longrightarrow> b64_val (b64_char n) = Some n"
proof -
  assume n: "n < 64"
  have plus: "c = CHR ''+'' \<longleftrightarrow> byte c = 43" "c = CHR ''/'' \<longleftrightarrow> byte c = 47" for c
    using of_char_eq_iff [where 'a = nat, of c "CHR ''+''"] of_char_eq_iff [where 'a = nat, of c "CHR ''/''"] by simp_all
  show ?thesis using b64_char_byte [OF n] n by (auto simp: b64_val_def byte_in_def plus split: if_splits)
qed

lemma b64_char_plain: "n < 64 \<Longrightarrow> b64_char n \<noteq> CHR ''=''" "n < 64 \<Longrightarrow> 43 \<le> byte (b64_char n) \<and> byte (b64_char n) < 128"
  using b64_char_byte [of n] by (auto split: if_splits)

lemma b64_range: "byte a div 4 < 64" "byte a mod 4 * 16 + byte b div 16 < 64" "byte b mod 16 * 4 + byte c div 64 < 64"
  "byte a mod 4 * 16 < 64" "byte b mod 16 * 4 < 64"
proof -
  have "byte a < 256" "byte b < 256" "byte c < 256" by simp_all
  then have "byte a div 4 < 64" "byte b div 16 < 16" "byte c div 64 < 4" by (simp_all add: less_mult_imp_div_less)
  moreover have "byte a mod 4 < 4" "byte b mod 16 < 16" by simp_all
  ultimately show "byte a div 4 < 64" "byte a mod 4 * 16 + byte b div 16 < 64" "byte b mod 16 * 4 + byte c div 64 < 64"
    "byte a mod 4 * 16 < 64" "byte b mod 16 * 4 < 64" by linarith+
qed

lemma b64_quads_encode: "b64_quads (b64_encode b) = Some b"
proof (induction b rule: b64_encode.induct)
  case (2 a)
  show ?case using b64_range by (simp add: b64_pair_def)
next
  case (3 a b)
  have "byte b < 256" by simp
  then have "byte b div 16 < 16" by (simp add: less_mult_imp_div_less)
  with b64_range b64_char_plain show ?case by (simp add: b64_pair_def b64_second_def)
next
  case (4 a b c r)
  have "byte b < 256" "byte c < 256" by simp_all
  then have "byte b div 16 < 16" "byte c div 64 < 4" by (simp_all add: less_mult_imp_div_less)
  with b64_range b64_char_plain 4 show ?case by (simp add: b64_pair_def b64_second_def b64_third_def)
qed simp

lemma b64_encode_bytes: "c \<in> set (b64_encode b) \<Longrightarrow> 43 \<le> byte c \<and> byte c < 128"
  by (induction b rule: b64_encode.induct) (use b64_char_plain(2) b64_range in auto)

lemma b64_roundtrip: "b64_decode (b64_encode b) = Some b"
proof -
  have "filter (\<lambda>c. byte c \<noteq> 10 \<and> byte c \<noteq> 13) (b64_encode b) = b64_encode b"
    by (rule filter_True) (use b64_encode_bytes in fastforce)
  then show ?thesis by (simp add: b64_decode_def b64_quads_encode)
qed

lemma b64_ascii: "ascii (b64_encode b)"
  using b64_encode_bytes by (auto simp: ascii_def)

end
