(* ===== verification/GoJsonDecode.thy ===== *)
theory GoJsonDecode
  imports GoJsonText GoTime GoBase64
begin

text \<open>
  \<open>json.Unmarshal\<close> into nested data, by decoders for the kinds of fields the program has. A decoder
  gets the value that is there and returns the new one; \<open>null\<close> leaves most kinds as they are. A value
  of the wrong type is skipped, the first such error is kept and decoding goes on. The context is the
  name of the struct and the path of the field, for the message. The text of the errors of a time
  stamp and of base64 is shortened, and the reader of time stamps sees their text after escapes.
\<close>

type_synonym ctx = "string \<times> string list"
type_synonym 'r decoder = "ctx \<Rightarrow> jval \<Rightarrow> 'r \<Rightarrow> 'r \<times> goerr option"

definition first_err :: "goerr option \<Rightarrow> goerr option \<Rightarrow> goerr option" where
  "first_err e e' = (case e of None \<Rightarrow> e' | Some x \<Rightarrow> Some x)"

definition type_error :: "ctx \<Rightarrow> string \<Rightarrow> string \<Rightarrow> goerr" where
  "type_error ctx what typ = Errorf (''json: cannot unmarshal '' @ what @ '' into Go ''
     @ (if snd ctx = [] then ''value of type '' @ typ
        else ''struct field '' @ fst ctx @ ''.'' @ join_with ''.'' (snd ctx) @ '' of type '' @ typ))"

definition dec_string :: "string decoder" where
  "dec_string ctx v x =
     (case v of JStr s \<Rightarrow> (s, None) | JNull \<Rightarrow> (x, None) | _ \<Rightarrow> (x, Some (type_error ctx (value_name v) ''string'')))"

definition dec_int :: "string \<Rightarrow> go_int decoder" where
  "dec_int typ ctx v x =
     (case v of
        JNum lit \<Rightarrow>
          (case atoi lit of Some i \<Rightarrow> (i, None) | None \<Rightarrow> (x, Some (type_error ctx (''number '' @ lit) typ)))
      | JNull \<Rightarrow> (x, None)
      | _ \<Rightarrow> (x, Some (type_error ctx (value_name v) typ)))"

definition dec_uint8 :: "char decoder" where
  "dec_uint8 ctx v x =
     (case v of
        JNum lit \<Rightarrow>
          (case atoi lit of
             Some i \<Rightarrow> if 0 \<le> i \<and> i < 256 then (char_of (nat i), None) else (x, Some (type_error ctx (''number '' @ lit) ''uint8''))
           | None \<Rightarrow> (x, Some (type_error ctx (''number '' @ lit) ''uint8'')))
      | JNull \<Rightarrow> (x, None)
      | _ \<Rightarrow> (x, Some (type_error ctx (value_name v) ''uint8'')))"

definition dec_time :: "time decoder" where
  "dec_time ctx v x =
     (case v of
        JStr s \<Rightarrow> (case parse_time s of Some t \<Rightarrow> (t, None) | None \<Rightarrow> (x, Some (Errorf (''parsing time '' @ fmt_q s))))
      | JNull \<Rightarrow> (x, None)
      | _ \<Rightarrow> (x, Some (Errorf ''Time.UnmarshalJSON: input is not a JSON string'')))"

text \<open>The elements that are there already are decoded into, new ones start from zero.\<close>

fun dec_slice :: "'a \<Rightarrow> 'a decoder \<Rightarrow> ctx \<Rightarrow> jval list \<Rightarrow> 'a list \<Rightarrow> 'a list \<times> goerr option" where
  "dec_slice zero dec ctx [] xs = ([], None)"
| "dec_slice zero dec ctx (v # vs) xs =
     (case dec ctx v (case xs of [] \<Rightarrow> zero | x # _ \<Rightarrow> x) of (y, e) \<Rightarrow>
      case dec_slice zero dec ctx vs (tl xs) of (ys, e') \<Rightarrow> (y # ys, first_err e e'))"

definition dec_bytes :: "bytes option decoder" where
  "dec_bytes ctx v x =
     (case v of
        JNull \<Rightarrow> (None, None)
      | JStr s \<Rightarrow> (case b64_decode s of Some b \<Rightarrow> (Some b, None) | None \<Rightarrow> (x, Some (Errorf ''illegal base64 data'')))
      | JArr vs \<Rightarrow>
          (case dec_slice (char_of (0 :: nat)) dec_uint8 ctx vs (case x of None \<Rightarrow> [] | Some b \<Rightarrow> b) of (b, e) \<Rightarrow> (Some b, e))
      | _ \<Rightarrow> (x, Some (type_error ctx (value_name v) ''[]uint8'')))"

fun dec_entries ::
  "ctx \<Rightarrow> (string \<times> jval) list \<Rightarrow> (string, string) mapping \<Rightarrow> (string, string) mapping \<times> goerr option" where
  "dec_entries ctx [] m = (m, None)"
| "dec_entries ctx ((k, v) # kvs) m =
     (case dec_string ctx v [] of (x, e) \<Rightarrow>
      case dec_entries ctx kvs (Mapping.update k x m) of (m, e') \<Rightarrow> (m, first_err e e'))"

definition dec_map :: "(string, string) mapping option decoder" where
  "dec_map ctx v x =
     (case v of
        JNull \<Rightarrow> (None, None)
      | JObj kvs \<Rightarrow>
          (case dec_entries ctx kvs (case x of None \<Rightarrow> Mapping.empty | Some m \<Rightarrow> m) of (m, e) \<Rightarrow> (Some m, e))
      | _ \<Rightarrow> (x, Some (type_error ctx (value_name v) ''map[string]string'')))"

section \<open>Structs\<close>

definition dec_field :: "('r \<Rightarrow> 'a) \<Rightarrow> (('a \<Rightarrow> 'a) \<Rightarrow> 'r \<Rightarrow> 'r) \<Rightarrow> 'a decoder \<Rightarrow> 'r decoder" where
  "dec_field get upd dec ctx v r = (case dec ctx v (get r) of (x, e) \<Rightarrow> (upd (\<lambda>_. x) r, e))"

definition find_decoder :: "(string \<times> 'r decoder) list \<Rightarrow> string \<Rightarrow> (string \<times> 'r decoder) option" where
  "find_decoder fields key =
     (case find (\<lambda>f. fst f = key) fields of
        Some f \<Rightarrow> Some f
      | None \<Rightarrow> find (\<lambda>f. equal_fold (fst f) key) fields)"

fun dec_fields :: "string \<Rightarrow> (string \<times> 'r decoder) list \<Rightarrow> ctx \<Rightarrow> (string \<times> jval) list \<Rightarrow> 'r \<Rightarrow> 'r \<times> goerr option" where
  "dec_fields nm fields ctx [] r = (r, None)"
| "dec_fields nm fields ctx ((k, v) # kvs) r =
     (case find_decoder fields k of
        None \<Rightarrow> dec_fields nm fields ctx kvs r
      | Some (n, dec) \<Rightarrow>
          (case dec (nm, snd ctx @ [n]) v r of (r, e) \<Rightarrow>
           case dec_fields nm fields ctx kvs r of (r, e') \<Rightarrow> (r, first_err e e')))"

definition dec_object :: "string \<Rightarrow> (string \<times> 'r decoder) list \<Rightarrow> 'r decoder" where
  "dec_object typ fields ctx v r =
     (case v of
        JNull \<Rightarrow> (r, None)
      | JObj kvs \<Rightarrow> dec_fields (struct_name typ) fields ctx kvs r
      | _ \<Rightarrow> (r, Some (type_error ctx (value_name v) typ)))"

section \<open>Encoding the same kinds\<close>

definition json_bytes :: "bytes option \<Rightarrow> jval" where
  "json_bytes p = (case p of None \<Rightarrow> JNull | Some b \<Rightarrow> JStr (b64_encode b))"

definition json_map :: "(string, string) mapping option \<Rightarrow> jval" where
  "json_map m =
     (case m of
        None \<Rightarrow> JNull
      | Some m \<Rightarrow> JObj (map (\<lambda>k. (k, JStr (case Mapping.lookup m k of None \<Rightarrow> [] | Some v \<Rightarrow> v))) (Mapping.ordered_keys m)))"

definition json_time :: "time \<Rightarrow> jval" where
  "json_time t = JStr (format_time t)"

text \<open>The years that \<open>MarshalJSON\<close> of a time accepts.\<close>

definition time_ok :: "time \<Rightarrow> bool" where
  "time_ok t \<longleftrightarrow> (case year_month t of (y, _) \<Rightarrow> 0 \<le> y \<and> y \<le> 9999)"

section \<open>Reading back\<close>

lemma first_err_None [simp]: "first_err None e = e"
  by (simp add: first_err_def)

lemma dec_bytes_json: "dec_bytes ctx (json_bytes p) x = (p, None)"
  by (simp add: dec_bytes_def json_bytes_def b64_roundtrip split: option.split)

lemma atoi_itoa: "int64 n \<Longrightarrow> atoi (itoa n) = Some n"
proof -
  assume n: "int64 n"
  obtain d t where dt: "decimal (nat \<bar>n\<bar>) = d # t" by (cases "decimal (nat \<bar>n\<bar>)") (auto simp: decimal.simps [of "nat \<bar>n\<bar>"] split: if_splits)
  have "is_digit d" "list_all is_digit (decimal (nat \<bar>n\<bar>))" using decimal_all_digits [of "nat \<bar>n\<bar>"] by (simp_all add: dt)
  then have "d \<noteq> CHR ''-''" "d \<noteq> CHR ''+''" by (auto simp: is_digit_def)
  with n dt decimal_all_digits [of "nat \<bar>n\<bar>"] undecimal_decimal [of "nat \<bar>n\<bar>"] show ?thesis
    by (auto simp: atoi_def itoa_def split_sign_def abs_if split: if_splits)
qed

lemma dec_int_json: "int64 n \<Longrightarrow> dec_int typ ctx (JInt n) x = (n, None)"
  by (simp add: dec_int_def JInt_def atoi_itoa)

lemma dec_string_json [simp]: "dec_string ctx (JStr s) x = (s, None)"
  by (simp add: dec_string_def)

text \<open>Times from the zero time to the end of the year 9999.\<close>

definition storable_time :: "time \<Rightarrow> bool" where
  "storable_time t \<longleftrightarrow> 0 \<le> t \<and> t < days_before_year 10000 * day"

lemma storable_time_ok: "storable_time t \<Longrightarrow> time_ok t"
  using year_month_bounds(1,2) [of t] by (fastforce simp: storable_time_def time_ok_def split: prod.split)

lemma dec_time_json: "storable_time t \<Longrightarrow> dec_time ctx (json_time t) x = (t, None)"
  by (simp add: dec_time_def json_time_def parse_format_time storable_time_def)

lemma dec_slice_map:
  assumes "\<And>y. y \<in> set ys \<Longrightarrow> dec ctx (enc y) zero = (y, None)"
  shows "dec_slice zero dec ctx (map enc ys) [] = (ys, None)"
  using assms by (induction ys) auto

lemma dec_entries_lookup:
  "dec_entries ctx (map (\<lambda>k. (k, JStr (f k))) ks) m = (m', e) \<Longrightarrow>
   e = None \<and> Mapping.lookup m' k = (if k \<in> set ks then Some (f k) else Mapping.lookup m k)"
  by (induction ks arbitrary: m m' e) (auto simp: lookup_update' split: prod.splits if_splits)

lemma dec_map_json:
  assumes "\<And>m'. m = Some m' \<Longrightarrow> finite (Mapping.keys m')"
  shows "dec_map ctx (json_map m) None = (m, None)"
proof (cases m)
  case (Some mp)
  let ?f = "\<lambda>k. case Mapping.lookup mp k of None \<Rightarrow> [] | Some v \<Rightarrow> v"
  obtain m' e where de: "dec_entries ctx (map (\<lambda>k. (k, JStr (?f k))) (Mapping.ordered_keys mp)) Mapping.empty = (m', e)" by fastforce
  have ks: "set (Mapping.ordered_keys mp) = Mapping.keys mp" using assms Some by (simp add: Mapping.ordered_keys_def)
  have "e = None" using dec_entries_lookup [OF de] by blast
  moreover have "m' = mp"
  proof (rule mapping_eqI)
    fix k
    show "Mapping.lookup m' k = Mapping.lookup mp k"
      using dec_entries_lookup [OF de, of k] ks by (auto simp: keys_dom_lookup split: option.splits if_splits)
  qed
  ultimately show ?thesis using de by (simp add: dec_map_def json_map_def Some)
qed (simp add: dec_map_def json_map_def)

end
