(* ===== verification/TraceIO.thy ===== *)
theory TraceIO
  imports Trace GoJsonDecode GoFiles
begin

text \<open>
  Trace files, \<open>src/internal/trace/io.go\<close>: a trace as indented JSON. Payloads are base64, metadata are
  objects with sorted keys, times are RFC 3339 and durations are numbers. The steps of a trace that
  has none are written as \<open>null\<close>, since the recorder leaves the slice nil.
\<close>

definition input_json :: "AgentInput \<Rightarrow> jval" where
  "input_json inp = JObj [(''TaskID'', JStr (ai_TaskID inp)), (''RequestID'', JStr (ai_RequestID inp)),
     (''Payload'', json_bytes (ai_Payload inp)), (''Metadata'', json_map (ai_Metadata inp)), (''Timestamp'', json_time (ai_Timestamp inp))]"

definition output_json :: "AgentOutput \<Rightarrow> jval" where
  "output_json out = JObj [(''RequestID'', JStr (ao_RequestID out)), (''Payload'', json_bytes (ao_Payload out)),
     (''Metadata'', json_map (ao_Metadata out)), (''Duration'', JInt (ao_Duration out))]"

definition step_json :: "Step \<Rightarrow> jval" where
  "step_json s = JObj [(''InvocationID'', JStr (s_InvocationID s)), (''AgentID'', JStr (s_AgentID s)),
     (''RequestID'', JStr (s_RequestID s)), (''Input'', input_json (s_Input s)), (''Output'', output_json (s_Output s)),
     (''Error'', JStr (s_Error s)), (''Duration'', JInt (s_Duration s)), (''Attempt'', JInt (s_Attempt s))]"

definition trace_json :: "ExecutionTrace \<Rightarrow> jval" where
  "trace_json tr = JObj [(''TaskID'', JStr (t_TaskID tr)),
     (''Steps'', if t_Steps tr = [] then JNull else JArr (map step_json (t_Steps tr))),
     (''StartTime'', json_time (t_StartTime tr)), (''EndTime'', json_time (t_EndTime tr)), (''TotalLatency'', JInt (t_TotalLatency tr))]"

definition trace_times :: "ExecutionTrace \<Rightarrow> time list" where
  "trace_times tr = map (\<lambda>s. ai_Timestamp (s_Input s)) (t_Steps tr) @ [t_StartTime tr, t_EndTime tr]"

definition SaveToFile :: "'w host_env \<Rightarrow> string \<Rightarrow> ExecutionTrace \<Rightarrow> 'w host \<Rightarrow> goerr option \<times> 'w host" where
  "SaveToFile he path tr h =
     (case (if list_all time_ok (trace_times tr) then json_MarshalIndent (trace_json tr)
            else Inl (Errorf ''json: error calling MarshalJSON for type time.Time: Time.MarshalJSON: year outside of range [0,9999]'')) of
        Inl e \<Rightarrow> (Some (WrapErr ''trace: marshal: '' e []), h)
      | Inr b \<Rightarrow>
          (case write_file he path b h of
             (Some e, h) \<Rightarrow> (Some (WrapErr (''trace: write '' @ fmt_q path @ '': '') e []), h)
           | (None, h) \<Rightarrow> (None, h)))"

definition dec_input :: "AgentInput decoder" where
  "dec_input = dec_object ''agentfunc.AgentInput''
     [(''TaskID'', dec_field ai_TaskID ai_TaskID_update dec_string), (''RequestID'', dec_field ai_RequestID ai_RequestID_update dec_string),
      (''Payload'', dec_field ai_Payload ai_Payload_update dec_bytes), (''Metadata'', dec_field ai_Metadata ai_Metadata_update dec_map),
      (''Timestamp'', dec_field ai_Timestamp ai_Timestamp_update dec_time)]"

definition dec_output :: "AgentOutput decoder" where
  "dec_output = dec_object ''agentfunc.AgentOutput''
     [(''RequestID'', dec_field ao_RequestID ao_RequestID_update dec_string), (''Payload'', dec_field ao_Payload ao_Payload_update dec_bytes),
      (''Metadata'', dec_field ao_Metadata ao_Metadata_update dec_map),
      (''Duration'', dec_field ao_Duration ao_Duration_update (dec_int ''time.Duration''))]"

definition dec_step :: "Step decoder" where
  "dec_step = dec_object ''trace.Step''
     [(''InvocationID'', dec_field s_InvocationID s_InvocationID_update dec_string), (''AgentID'', dec_field s_AgentID s_AgentID_update dec_string),
      (''RequestID'', dec_field s_RequestID s_RequestID_update dec_string), (''Input'', dec_field s_Input s_Input_update dec_input),
      (''Output'', dec_field s_Output s_Output_update dec_output), (''Error'', dec_field s_Error s_Error_update dec_string),
      (''Duration'', dec_field s_Duration s_Duration_update (dec_int ''time.Duration'')),
      (''Attempt'', dec_field s_Attempt s_Attempt_update (dec_int ''int''))]"

definition dec_steps :: "Step list decoder" where
  "dec_steps ctx v xs =
     (case v of
        JNull \<Rightarrow> ([], None)
      | JArr vs \<Rightarrow> dec_slice empty_step dec_step ctx vs xs
      | _ \<Rightarrow> (xs, Some (type_error ctx (value_name v) ''[]trace.Step'')))"

definition dec_trace :: "ExecutionTrace decoder" where
  "dec_trace = dec_object ''trace.ExecutionTrace''
     [(''TaskID'', dec_field t_TaskID t_TaskID_update dec_string), (''Steps'', dec_field t_Steps t_Steps_update dec_steps),
      (''StartTime'', dec_field t_StartTime t_StartTime_update dec_time), (''EndTime'', dec_field t_EndTime t_EndTime_update dec_time),
      (''TotalLatency'', dec_field t_TotalLatency t_TotalLatency_update (dec_int ''time.Duration''))]"

definition empty_trace :: ExecutionTrace where
  "empty_trace = \<lparr>t_TaskID = [], t_Steps = [], t_StartTime = time_zero, t_EndTime = time_zero, t_TotalLatency = 0\<rparr>"

definition parse_trace :: "bytes \<Rightarrow> ExecutionTrace result" where
  "parse_trace b =
     (case json_parse b of
        Inl e \<Rightarrow> Inl e
      | Inr v \<Rightarrow> (case dec_trace ([], []) v empty_trace of (tr, None) \<Rightarrow> Inr tr | (tr, Some e) \<Rightarrow> Inl e))"

definition LoadFromFile :: "'w host_env \<Rightarrow> string \<Rightarrow> 'w host \<Rightarrow> ExecutionTrace result \<times> 'w host" where
  "LoadFromFile he path h =
     (case read_file he path h of
        (Inl e, h) \<Rightarrow> (Inl (WrapErr (''trace: read '' @ fmt_q path @ '': '') e []), h)
      | (Inr b, h) \<Rightarrow>
          (case parse_trace b of
             Inl e \<Rightarrow> (Inl (WrapErr (''trace: unmarshal '' @ fmt_q path @ '': '') e []), h)
           | Inr tr \<Rightarrow> (Inr tr, h)))"

section \<open>A saved trace is loaded as it was\<close>

definition storable_map :: "(string, string) mapping option \<Rightarrow> bool" where
  "storable_map m \<longleftrightarrow>
     (case m of
        None \<Rightarrow> True
      | Some m \<Rightarrow> finite (Mapping.keys m)
          \<and> (\<forall>k v. Mapping.lookup m k = Some v \<longrightarrow> utf8_valid k \<and> utf8_valid v))"

definition storable_step :: "Step \<Rightarrow> bool" where
  "storable_step s \<longleftrightarrow>
     list_all utf8_valid [s_InvocationID s, s_AgentID s, s_RequestID s, s_Error s, ai_TaskID (s_Input s), ai_RequestID (s_Input s),
       ao_RequestID (s_Output s)]
     \<and> storable_map (ai_Metadata (s_Input s)) \<and> storable_map (ao_Metadata (s_Output s))
     \<and> storable_time (ai_Timestamp (s_Input s))
     \<and> int64 (s_Duration s) \<and> int64 (s_Attempt s) \<and> int64 (ao_Duration (s_Output s))"

definition storable :: "ExecutionTrace \<Rightarrow> bool" where
  "storable tr \<longleftrightarrow>
     utf8_valid (t_TaskID tr) \<and> list_all storable_step (t_Steps tr)
     \<and> storable_time (t_StartTime tr) \<and> storable_time (t_EndTime tr) \<and> int64 (t_TotalLatency tr)"

lemmas dec_simps = dec_object_def find_decoder_def dec_field_def dec_bytes_json dec_int_json dec_time_json

lemma storable_map_finite: "storable_map m \<Longrightarrow> m = Some m' \<Longrightarrow> finite (Mapping.keys m')"
  by (simp add: storable_map_def)

lemma dec_input_json:
  assumes "storable_map (ai_Metadata inp)" and "storable_time (ai_Timestamp inp)"
  shows "dec_input ctx (input_json inp) empty_input = (inp, None)"
  using assms dec_map_json [OF storable_map_finite [OF assms(1)]]
  by (simp add: dec_input_def input_json_def dec_simps empty_input_def)

lemma dec_output_json:
  assumes "storable_map (ao_Metadata out)" and "int64 (ao_Duration out)"
  shows "dec_output ctx (output_json out) empty_output = (out, None)"
  using assms dec_map_json [OF storable_map_finite [OF assms(1)]]
  by (simp add: dec_output_def output_json_def dec_simps empty_output_def)

lemma dec_step_json:
  assumes "storable_step s"
  shows "dec_step ctx (step_json s) empty_step = (s, None)"
  using assms dec_input_json [of "s_Input s"] dec_output_json [of "s_Output s"]
  by (simp add: dec_step_def step_json_def dec_simps empty_step_def storable_step_def)

lemma dec_trace_json:
  assumes "storable tr"
  shows "dec_trace ctx (trace_json tr) empty_trace = (tr, None)"
proof -
  have "dec_steps c (JArr (map step_json (t_Steps tr))) [] = (t_Steps tr, None)" for c
    using assms dec_slice_map [of "t_Steps tr" dec_step c step_json empty_step] dec_step_json
    by (auto simp: dec_steps_def storable_def list_all_iff)
  moreover have "dec_steps c JNull [] = ([], None)" for c by (simp add: dec_steps_def)
  ultimately show ?thesis
    using assms by (simp add: dec_trace_def trace_json_def dec_simps empty_trace_def storable_def)
qed

lemma readable_json_bytes: "readable n (json_bytes p)"
  by (simp add: json_bytes_def ascii_valid [OF b64_ascii] split: option.split)

lemma readable_json_time: "readable n (json_time t)"
  by (simp add: json_time_def ascii_valid [OF format_time_ascii])

lemma readable_json_map: "storable_map m \<Longrightarrow> 0 < n \<Longrightarrow> readable n (json_map m)"
  by (auto simp: json_map_def storable_map_def ordered_keys_def keys_dom_lookup split: option.split)

lemma names_valid:
  "s \<in> {''TaskID'', ''RequestID'', ''Payload'', ''Metadata'', ''Timestamp'', ''Duration'', ''InvocationID'', ''AgentID'', ''Input'',
     ''Output'', ''Error'', ''Attempt'', ''Steps'', ''StartTime'', ''EndTime'', ''TotalLatency''} \<Longrightarrow> utf8_valid s"
  by (rule ascii_valid) (auto simp: ascii_def)

lemma trace_readable:
  assumes "storable tr"
  shows "readable max_depth (trace_json tr)"
proof -
  have step: "readable 4 (step_json s)" if "storable_step s" for s
    using that by (simp add: step_json_def input_json_def output_json_def storable_step_def names_valid readable_json_bytes
        readable_json_time readable_json_map)
  have "readable 9998 (step_json s)" if "s \<in> set (t_Steps tr)" for s
    using assms that by (intro readable_mono [OF step]) (auto simp: storable_def list_all_iff)
  with assms show ?thesis
    by (simp add: trace_json_def max_depth_def storable_def names_valid readable_json_time)
qed

lemma parse_saved:
  assumes "storable tr"
  shows "\<exists>b. json_MarshalIndent (trace_json tr) = Inr b \<and> parse_trace b = Inr tr"
  using MarshalIndent_roundtrip [OF trace_readable [OF assms]] dec_trace_json [OF assms] by (auto simp: parse_trace_def)

lemma storable_times: "storable tr \<Longrightarrow> list_all time_ok (trace_times tr)"
  by (auto simp: storable_def trace_times_def list_all_iff storable_step_def intro: storable_time_ok)

text \<open>
  C27: A trace that is saved is loaded as it was: every step with its payloads (any bytes, nil or
  empty), metadata, time stamp, error and numbers. The texts have to be UTF-8, the times lie between
  the years 1 and 9999, and the file system works.
\<close>

theorem trace_save_load:
  assumes "storable tr" and "fault_free he"
  shows "\<exists>h'. SaveToFile he path tr h = (None, h') \<and> fst (LoadFromFile he path h') = Inr tr"
proof -
  from parse_saved [OF assms(1)] obtain b where b: "json_MarshalIndent (trace_json tr) = Inr b" "parse_trace b = Inr tr" by blast
  from write_then_read [OF assms(2)] obtain h' where
    "write_file he path b h = (None, h')" "read_file he path h' = (Inr b, h')" by blast
  with b storable_times [OF assms(1)] show ?thesis by (simp add: SaveToFile_def LoadFromFile_def)
qed

definition sample_trace :: ExecutionTrace where
  "sample_trace = \<lparr>t_TaskID = ''ns.task'', t_Steps =
     [empty_step\<lparr>s_InvocationID := ''0001_a'', s_AgentID := ''a'',
        s_Input := empty_input\<lparr>ai_Payload := Some (byte_string [0, 255, 10]), ai_Metadata := Some (Mapping.update ''k'' ''v'' Mapping.empty)\<rparr>,
        s_Output := empty_output\<lparr>ao_Payload := Some [], ao_Duration := 7\<rparr>, s_Error := fmt_q ''x'', s_Attempt := 1\<rparr>],
     t_StartTime = 5, t_EndTime = 12, t_TotalLatency = 7\<rparr>"

theorem trace_save_load_witness:
  "\<exists>h'. SaveToFile still_host ''trace.json'' sample_trace \<lparr>h_files = Map.empty, h_world = ()\<rparr> = (None, h')
    \<and> fst (LoadFromFile still_host ''trace.json'' h') = Inr sample_trace"
proof (rule trace_save_load)
  have "utf8_valid s" if "ascii s" for s using that by (rule ascii_valid)
  then show "storable sample_trace"
    by (auto simp: storable_def storable_step_def sample_trace_def empty_step_def empty_input_def empty_output_def storable_map_def
        storable_time_def int64_def days_before_year_def time_zero_def ascii_def fmt_q_def quote_char_def byte_string_def lookup_update'
        split: if_splits)
qed (simp add: fault_free_def still_host_def)

end
