(* ===== verification/AstraGraph.thy ===== *)
theory AstraGraph
  imports TraceIO GoPaths
begin

text \<open>
  The export of a trace as AstraGraph audit entries, \<open>src/internal/trace/astragraph_exporter.go\<close>: one entry
  per step, written to a file and posted to an endpoint where the environment names them. Payloads
  pass through \<open>map[string]any\<close>: objects come out with sorted keys and numbers as doubles. The HTTP client is
  a parameter.
\<close>

section \<open>Values of type any\<close>

text \<open>The members of a Go map: of equal keys the last one counts, the encoder sorts them.\<close>

definition sort_members :: "(string \<times> jval) list \<Rightarrow> (string \<times> jval) list" where
  "sort_members kvs =
     map (\<lambda>k. (k, case map_of (rev kvs) k of None \<Rightarrow> JNull | Some v \<Rightarrow> v)) (sort_strings (remdups (map fst kvs)))"

text \<open>A document decoded into \<open>any\<close>; \<open>None\<close> when a number is out of range.\<close>

fun any_of :: "jval \<Rightarrow> jval option" where
  "any_of (JNum lit) = map_option JFloat (parse_float lit)"
| "any_of (JArr vs) = map_option JArr (those (map any_of vs))"
| "any_of (JObj kvs) =
     map_option (\<lambda>vs. JObj (sort_members (zip (map fst kvs) vs))) (those (map (\<lambda>kv. any_of (snd kv)) kvs))"
| "any_of v = Some v"

text \<open>\<open>b, _ := json.Marshal(v)\<close>\<close>

definition marshal_or_nil :: "jval \<Rightarrow> bytes" where
  "marshal_or_nil v = (case json_Marshal v of Inl _ \<Rightarrow> [] | Inr b \<Rightarrow> b)"

definition normalizePayload :: "bytes option \<Rightarrow> bytes" where
  "normalizePayload payload =
     (let trimmed = trim_space (slice_bytes payload) in
      if trimmed = [] then ''{}''
      else
        (case Option.bind (case json_parse trimmed of Inl _ \<Rightarrow> None | Inr v \<Rightarrow> Some v) any_of of
           Some (JObj kvs) \<Rightarrow> marshal_or_nil (JObj kvs)
         | _ \<Rightarrow> marshal_or_nil (JObj [(''payload'', JStr trimmed)])))"

section \<open>Names of files\<close>

definition name_char :: "char \<Rightarrow> bool" where
  "name_char c \<longleftrightarrow> byte_in 97 122 c \<or> byte_in 48 57 c"

text \<open>The loop works on runes; a run of bytes that are no letters or digits gives one underscore either way.\<close>

fun name_loop :: "string \<Rightarrow> bool \<Rightarrow> string" where
  "name_loop [] lastUnderscore = []"
| "name_loop (c # cs) lastUnderscore =
     (if name_char c then c # name_loop cs False
      else if \<not> lastUnderscore then CHR ''_'' # name_loop cs True
      else name_loop cs lastUnderscore)"

definition trim_underscores :: "string \<Rightarrow> string" where
  "trim_underscores s = rev (dropWhile (\<lambda>c. c = CHR ''_'') (rev (dropWhile (\<lambda>c. c = CHR ''_'') s)))"

definition safeFilePart :: "string \<Rightarrow> string" where
  "safeFilePart inp =
     (if inp = [] then ''trace''
      else let out = trim_underscores (name_loop (to_lower inp) False) in if out = [] then ''trace'' else out)"

text \<open>\<open>strings.ReplaceAll\<close> for a pattern that is not empty.\<close>

function replace_all :: "string \<Rightarrow> string \<Rightarrow> string \<Rightarrow> string" where
  "replace_all old new s =
     (case s of
        [] \<Rightarrow> []
      | c # cs \<Rightarrow>
          if old \<noteq> [] \<and> has_prefix s old then new @ replace_all old new (drop (length old) s)
          else c # replace_all old new cs)"
  by pat_completeness auto
termination by (relation "measure (\<lambda>(old, new, s). length s)") auto

declare replace_all.simps [simp del]

section \<open>Entries\<close>

record AstraGraphAuditEntry =
  ag_WorkflowID :: string
  ag_AgentID :: string
  ag_ToolName :: string
  ag_Arguments :: bytes
  ag_Status :: string
  ag_DeviationScore :: f64
  ag_Timestamp :: string

definition tool_name :: "Step \<Rightarrow> string" where
  "tool_name step =
     (let toolName = (case ai_Metadata (s_Input step) of
                        None \<Rightarrow> [] | Some m \<Rightarrow> Mapping.lookup_default [] m ''tool_name'');
          toolName = (if toolName = [] then s_AgentID step else toolName)
      in if toolName = [] then ''unknown_tool'' else toolName)"

definition add_namespace :: "string \<Rightarrow> bytes \<Rightarrow> bytes" where
  "add_namespace namespace arguments =
     (case Option.bind (case json_parse arguments of Inl _ \<Rightarrow> None | Inr v \<Rightarrow> Some v) any_of of
        Some (JObj parsed) \<Rightarrow>
          (let parsed = (if ''namespace'' \<in> set (map fst parsed) then parsed
                         else sort_members (parsed @ [(''namespace'', JStr namespace)]))
           in case json_Marshal (JObj parsed) of Inl _ \<Rightarrow> arguments | Inr b \<Rightarrow> b)
      | _ \<Rightarrow> arguments)"

definition entry_of :: "'w host_env \<Rightarrow> ExecutionTrace \<Rightarrow> string \<Rightarrow> Step \<Rightarrow> 'w host \<Rightarrow> AstraGraphAuditEntry \<times> 'w host" where
  "entry_of he execTrace namespace step h =
     (let arguments = normalizePayload (ai_Payload (s_Input step));
          arguments = (if ai_Metadata (s_Input step) \<noteq> None \<and> namespace \<noteq> [] then add_namespace namespace arguments else arguments);
          (status, score) = (if trim_space (s_Error step) \<noteq> [] then (''blocked'', Fin False 1) else (''allowed'', Fin False 0));
          ts = format_time (ai_Timestamp (s_Input step));
          (ts, h) = (if ts = ''0001-01-01T00:00:00Z''
                     then (case host_now he h of (now, h) \<Rightarrow> (format_time now, h)) else (ts, h))
      in (\<lparr>ag_WorkflowID = t_TaskID execTrace, ag_AgentID = s_AgentID step, ag_ToolName = tool_name step,
           ag_Arguments = arguments, ag_Status = status, ag_DeviationScore = score, ag_Timestamp = ts\<rparr>, h))"

fun entries_loop ::
  "'w host_env \<Rightarrow> ExecutionTrace \<Rightarrow> string \<Rightarrow> Step list \<Rightarrow> 'w host \<Rightarrow> AstraGraphAuditEntry list \<times> 'w host" where
  "entries_loop he execTrace namespace [] h = ([], h)"
| "entries_loop he execTrace namespace (step # steps) h =
     (case entry_of he execTrace namespace step h of (entry, h) \<Rightarrow>
      case entries_loop he execTrace namespace steps h of (entries, h) \<Rightarrow> (entry # entries, h))"

definition buildAstraGraphEntries :: "'w host_env \<Rightarrow> ExecutionTrace \<Rightarrow> string \<Rightarrow> 'w host \<Rightarrow> AstraGraphAuditEntry list \<times> 'w host" where
  "buildAstraGraphEntries he execTrace namespace h = entries_loop he execTrace namespace (t_Steps execTrace) h"

text \<open>A \<open>RawMessage\<close> is checked and compacted by the encoder.\<close>

definition entry_json :: "AstraGraphAuditEntry \<Rightarrow> jval result" where
  "entry_json e =
     (case json_parse (ag_Arguments e) of
        Inl err \<Rightarrow> Inl (WrapErr ''json: error calling MarshalJSON for type json.RawMessage: '' err [])
      | Inr args \<Rightarrow>
          Inr (JObj [(''workflow_id'', JStr (ag_WorkflowID e)), (''agent_id'', JStr (ag_AgentID e)), (''tool_name'', JStr (ag_ToolName e)),
                     (''arguments'', args), (''status'', JStr (ag_Status e)), (''deviation_score'', JFloat (ag_DeviationScore e)),
                     (''timestamp'', JStr (ag_Timestamp e))]))"

fun entries_json :: "AstraGraphAuditEntry list \<Rightarrow> jval list result" where
  "entries_json [] = Inr []"
| "entries_json (e # es) =
     (case entry_json e of
        Inl err \<Rightarrow> Inl err
      | Inr v \<Rightarrow> (case entries_json es of Inl err \<Rightarrow> Inl err | Inr vs \<Rightarrow> Inr (v # vs)))"

definition marshal_entries :: "(jval \<Rightarrow> string result) \<Rightarrow> AstraGraphAuditEntry list \<Rightarrow> bytes result" where
  "marshal_entries marshal entries = (case entries_json entries of Inl err \<Rightarrow> Inl err | Inr vs \<Rightarrow> marshal (JArr vs))"

section \<open>The export\<close>

text \<open>
  The client: \<open>http.NewRequest\<close> may refuse the URL; \<open>Do\<close> with its timeout gives the status or an error.
\<close>

record 'w http_client =
  hc_NewRequest :: "string \<Rightarrow> goerr option"
  hc_Do :: "string \<Rightarrow> (string \<times> string) list \<Rightarrow> bytes \<Rightarrow> 'w \<Rightarrow> go_int result \<times> 'w"

definition resolve_path :: "string \<Rightarrow> string \<Rightarrow> string" where
  "resolve_path auditPath taskID =
     (let p = replace_all ''{task_id}'' (safeFilePart taskID) auditPath
      in if has_prefix p ''/'' then p else path_clean p)"

definition export_file ::
  "'w host_env \<Rightarrow> string \<Rightarrow> AstraGraphAuditEntry list \<Rightarrow> 'w host \<Rightarrow> goerr option \<times> 'w host" where
  "export_file he resolvedPath entries h =
     (case mkdir_all he (path_dir resolvedPath) h of
        (Some e, h) \<Rightarrow> (Some (WrapErr ''astragraph export mkdir: '' e []), h)
      | (None, h) \<Rightarrow>
          (case marshal_entries json_MarshalIndent entries of
             Inl e \<Rightarrow> (Some (WrapErr ''astragraph export marshal: '' e []), h)
           | Inr payload \<Rightarrow>
               (case write_file he resolvedPath payload h of
                  (Some e, h) \<Rightarrow> (Some (WrapErr ''astragraph export write: '' e []), h)
                | (None, h) \<Rightarrow> (None, h))))"

definition export_post ::
  "'w http_client \<Rightarrow> (string \<Rightarrow> string) \<Rightarrow> string \<Rightarrow> AstraGraphAuditEntry list \<Rightarrow> 'w host \<Rightarrow> goerr option \<times> 'w host" where
  "export_post hc getenv endpoint entries h =
     (case marshal_entries json_Marshal entries of
        Inl e \<Rightarrow> (Some (WrapErr ''astragraph export marshal post payload: '' e []), h)
      | Inr payload \<Rightarrow>
          (case hc_NewRequest hc endpoint of
             Some e \<Rightarrow> (Some (WrapErr ''astragraph export request: '' e []), h)
           | None \<Rightarrow>
               (let token = trim_space (getenv ''ASTRAGRAPH_TOKEN'');
                    headers = [(''Content-Type'', ''application/json'')]
                      @ (if token \<noteq> [] then [(''Authorization'', ''Bearer '' @ token)] else [])
                in case hc_Do hc endpoint headers payload (h_world h) of
                     (Inl e, w) \<Rightarrow> (Some (WrapErr ''astragraph export post: '' e []), h\<lparr>h_world := w\<rparr>)
                   | (Inr code, w) \<Rightarrow>
                       (if code < 200 \<or> 300 \<le> code then Some (Errorf (''astragraph export post failed: status='' @ itoa code)) else None,
                        h\<lparr>h_world := w\<rparr>))))"

definition ExportAstraGraphAudit ::
  "'w host_env \<Rightarrow> 'w http_client \<Rightarrow> (string \<Rightarrow> string) \<Rightarrow> ExecutionTrace \<Rightarrow> string \<Rightarrow> 'w host
   \<Rightarrow> (string \<times> goerr option) \<times> 'w host" where
  "ExportAstraGraphAudit he hc getenv execTrace namespace h =
     (case buildAstraGraphEntries he execTrace namespace h of (entries, h) \<Rightarrow>
      if entries = [] then (([], None), h)
      else
        (let auditPath = trim_space (getenv ''ASTRAGRAPH_AUDIT_PATH'');
             resolvedPath = (if auditPath \<noteq> [] then resolve_path auditPath (t_TaskID execTrace) else []);
             endpoint = trim_space (getenv ''ASTRAGRAPH_AUDIT_ENDPOINT'')
         in case (if auditPath \<noteq> [] then export_file he resolvedPath entries h else (None, h)) of
              (Some e, h) \<Rightarrow> (([], Some e), h)
            | (None, h) \<Rightarrow>
                if endpoint = [] then ((resolvedPath, None), h)
                else
                  (case export_post hc getenv endpoint entries h of
                     (Some e, h) \<Rightarrow> ((resolvedPath, Some e), h)
                   | (None, h) \<Rightarrow> ((resolvedPath, None), h))))"

section \<open>The task cannot choose the path\<close>

definition part_char :: "char \<Rightarrow> bool" where
  "part_char c \<longleftrightarrow> name_char c \<or> c = CHR ''_''"

lemma name_loop_chars: "list_all part_char (name_loop s b)"
  by (induction s b rule: name_loop.induct) (auto simp: part_char_def)

lemma trim_underscores_set: "set (trim_underscores s) \<subseteq> set s"
  by (auto simp: trim_underscores_def dest!: set_dropWhileD)

lemma safeFilePart_chars: "list_all part_char (safeFilePart s)"
proof -
  have "list_all part_char ''trace''" by (simp add: part_char_def name_char_def byte_in_def)
  moreover have "list_all part_char (trim_underscores (name_loop (to_lower s) False))"
    using name_loop_chars [of "to_lower s" False] trim_underscores_set [of "name_loop (to_lower s) False"]
    by (auto simp: list_all_iff)
  ultimately show ?thesis by (simp add: safeFilePart_def Let_def)
qed

text \<open>Separators and dots, the characters a path is made of.\<close>

definition path_syntax :: "string \<Rightarrow> string" where
  "path_syntax p = filter (\<lambda>c. c = CHR ''/'' \<or> c = CHR ''.'') p"

lemma path_syntax_append [simp]: "path_syntax (a @ b) = path_syntax a @ path_syntax b"
  by (simp add: path_syntax_def)

lemma part_no_syntax: "list_all part_char s \<Longrightarrow> path_syntax s = []"
  by (auto simp: path_syntax_def part_char_def name_char_def byte_in_def list_all_iff filter_empty_conv)

lemma replace_all_syntax:
  assumes "path_syntax new = []" and "path_syntax old = []"
  shows "path_syntax (replace_all old new s) = path_syntax s"
  using assms
proof (induction old new s rule: replace_all.induct)
  case (1 old new s)
  show ?case
  proof (cases s)
    case (Cons c cs)
    show ?thesis
    proof (cases "old \<noteq> [] \<and> has_prefix s old")
      case True
      then obtain t where t: "s = old @ t" by (auto simp: has_prefix_iff)
      have "path_syntax (replace_all old new (drop (length old) s)) = path_syntax (drop (length old) s)"
        by (rule "1.IH"(1) [OF Cons True "1.prems"])
      moreover have "replace_all old new s = new @ replace_all old new (drop (length old) s)"
        using True Cons by (subst replace_all.simps) simp
      ultimately show ?thesis using "1.prems" t by simp
    next
      case False
      have "path_syntax (replace_all old new cs) = path_syntax cs" by (rule "1.IH"(2) [OF Cons False "1.prems"])
      moreover have "replace_all old new s = c # replace_all old new cs" using False Cons by (subst replace_all.simps) auto
      ultimately show ?thesis by (simp add: Cons path_syntax_def)
    qed
  qed (simp add: replace_all.simps)
qed

text \<open>
  C32: The name of a task cannot redirect the export. Whatever the task is called, the file part made
  of it is not empty and has only lower case letters, digits and inner underscores, so putting it
  into the configured path adds no separator and no dot.
\<close>

theorem task_id_stays_in_path:
  "safeFilePart taskID \<noteq> [] \<and> list_all part_char (safeFilePart taskID)
   \<and> hd (safeFilePart taskID) \<noteq> CHR ''_'' \<and> last (safeFilePart taskID) \<noteq> CHR ''_''
   \<and> path_syntax (replace_all ''{task_id}'' (safeFilePart taskID) auditPath) = path_syntax auditPath"
proof (intro conjI)
  let ?u = "\<lambda>c. c = CHR ''_''"
  have trimmed: "hd (trim_underscores s) \<noteq> CHR ''_'' \<and> last (trim_underscores s) \<noteq> CHR ''_''" if "trim_underscores s \<noteq> []" for s
  proof -
    define r where "r = dropWhile ?u (rev (dropWhile ?u s))"
    have t: "trim_underscores s = rev r" by (simp add: trim_underscores_def r_def)
    with that have r: "r \<noteq> []" by simp
    then have hd_r: "hd r \<noteq> CHR ''_''" using hd_dropWhile [of ?u "rev (dropWhile ?u s)"] by (simp add: r_def)
    obtain ds where ds: "rev (dropWhile ?u s) = ds @ r"
      using takeWhile_dropWhile_id [of ?u "rev (dropWhile ?u s)"] unfolding r_def by metis
    have "last r = last (rev (dropWhile ?u s))" using ds r by simp
    also have "\<dots> = hd (dropWhile ?u s)" using ds r by (metis append_is_Nil_conv last_rev rev.simps(1))
    finally have "last r \<noteq> CHR ''_''" using hd_dropWhile [of ?u s] ds r by (metis append_is_Nil_conv rev.simps(1))
    with hd_r show ?thesis using r by (simp add: t hd_rev last_rev)
  qed
  show "safeFilePart taskID \<noteq> []" by (simp add: safeFilePart_def Let_def)
  show "list_all part_char (safeFilePart taskID)" by (rule safeFilePart_chars)
  show "hd (safeFilePart taskID) \<noteq> CHR ''_''" "last (safeFilePart taskID) \<noteq> CHR ''_''"
    using trimmed [of "name_loop (to_lower taskID) False"] by (auto simp: safeFilePart_def Let_def)
  show "path_syntax (replace_all ''{task_id}'' (safeFilePart taskID) auditPath) = path_syntax auditPath"
    by (rule replace_all_syntax) (simp_all add: part_no_syntax [OF safeFilePart_chars], simp add: path_syntax_def)
qed

section \<open>The entries of a trace\<close>

lemma entry_of_fields:
  "entry_of he tr ns step h = (e, h') \<Longrightarrow>
   ag_WorkflowID e = t_TaskID tr \<and> ag_AgentID e = s_AgentID step \<and> ag_ToolName e \<noteq> []
   \<and> ag_Status e = (if trim_space (s_Error step) = [] then ''allowed'' else ''blocked'')
   \<and> ag_DeviationScore e = (if trim_space (s_Error step) = [] then Fin False 0 else Fin False 1)
   \<and> h_files h' = h_files h"
  by (auto simp: entry_of_def tool_name_def host_now_def Let_def split: prod.splits if_splits)

text \<open>
  Every step of a trace becomes exactly one entry, in order, of the task and of the step's agent, with
  a tool name; an entry is blocked, with score 1, exactly when its step recorded an error that is
  not blank. Building the entries touches no file.
\<close>

theorem entries_follow_steps:
  assumes "buildAstraGraphEntries he tr ns h = (entries, h')"
  shows "map ag_AgentID entries = map s_AgentID (t_Steps tr)
    \<and> map ag_Status entries = map (\<lambda>s. if trim_space (s_Error s) = [] then ''allowed'' else ''blocked'') (t_Steps tr)
    \<and> map ag_DeviationScore entries = map (\<lambda>s. Fin False (if trim_space (s_Error s) = [] then 0 else 1)) (t_Steps tr)
    \<and> list_all (\<lambda>e. ag_WorkflowID e = t_TaskID tr \<and> ag_ToolName e \<noteq> []) entries
    \<and> h_files h' = h_files h"
proof -
  have "map ag_AgentID es = map s_AgentID steps
    \<and> map ag_Status es = map (\<lambda>s. if trim_space (s_Error s) = [] then ''allowed'' else ''blocked'') steps
    \<and> map ag_DeviationScore es = map (\<lambda>s. Fin False (if trim_space (s_Error s) = [] then 0 else 1)) steps
    \<and> list_all (\<lambda>e. ag_WorkflowID e = t_TaskID tr \<and> ag_ToolName e \<noteq> []) es \<and> h_files h2 = h_files h1"
    if "entries_loop he tr ns steps h1 = (es, h2)" for steps es h1 h2
    using that
  proof (induction steps arbitrary: h1 es)
    case (Cons step steps)
    obtain e h3 where e: "entry_of he tr ns step h1 = (e, h3)" by fastforce
    obtain es' h4 where es: "entries_loop he tr ns steps h3 = (es', h4)" by fastforce
    from Cons.prems e es have "es = e # es'" "h2 = h4" by auto
    with Cons.IH [of h3 es'] es entry_of_fields [OF e] show ?case by auto
  qed simp
  from this [of "t_Steps tr" h entries h'] assms show ?thesis by (simp add: buildAstraGraphEntries_def)
qed

definition failing_trace :: ExecutionTrace where
  "failing_trace = empty_trace\<lparr>t_TaskID := ''t'', t_Steps := [empty_step\<lparr>s_AgentID := ''a'', s_Error := ''boom''\<rparr>]\<rparr>"

theorem entries_follow_steps_witness:
  "\<exists>entries h'. buildAstraGraphEntries still_host failing_trace ''ns'' \<lparr>h_files = Map.empty, h_world = ()\<rparr> = (entries, h')
    \<and> map ag_Status entries = [''blocked'']"
proof -
  obtain entries h' where run: "buildAstraGraphEntries still_host failing_trace ''ns'' \<lparr>h_files = Map.empty, h_world = ()\<rparr> = (entries, h')"
    by fastforce
  have "trim_space ''boom'' = ''boom''" by (rule trim_space_graphic) (simp add: graphic_def)
  with entries_follow_steps [OF run] have "map ag_Status entries = [''blocked'']" by (simp add: failing_trace_def empty_step_def)
  with run show ?thesis by (intro exI conjI)
qed

end
