(* ===== verification/Sdk.thy ===== *)
theory Sdk
  imports EngineProps
begin

text \<open>
  \<open>src/pkg/sdk/sdk.go\<close>: the public runtime. It owns a registry and an engine that reads it, gives
  names to unnamed nodes, and turns results and trace into their public form.
\<close>

record sdk_Node =
  sn_ID :: string
  sn_AgentID :: string
  sn_Input :: AgentInput
  sn_DependsOn :: "string list"
  sn_RetryPolicy :: RetryPolicy
  sn_CircuitBreakerPolicy :: CircuitBreakerPolicy

record sdk_Result =
  sr_InvocationID :: string
  sr_AgentID :: string
  sr_Output :: AgentOutput
  sr_Error :: string

record sdk_TraceStep =
  st_InvocationID :: string
  st_AgentID :: string
  st_RequestID :: string
  st_Error :: string
  st_Attempt :: go_int

record sdk_Trace =
  tc_TaskID :: string
  tc_Steps :: "sdk_TraceStep list"
  tc_TotalLatency :: go_int

text \<open>The registry and the engine share one registry object, here the engine's.\<close>

record ('w, 'm) Runtime =
  rt_engine :: "('w, 'm) Engine"
  rt_breaker :: breaker

definition NewRuntime :: "RouterConfig \<Rightarrow> ('w, 'm) Runtime" where
  "NewRuntime cfg = (case NewEngine NewRegistry cfg of (eng, cb) \<Rightarrow> \<lparr>rt_engine = eng, rt_breaker = cb\<rparr>)"

definition RegisterAgent :: "string \<Rightarrow> 'w AgentFunc option \<Rightarrow> ('w, 'm) Runtime \<Rightarrow> goerr option \<times> ('w, 'm) Runtime" where
  "RegisterAgent agentID fn r =
     (case Register agentID fn (eng_registry (rt_engine r)) of
        (err, reg) \<Rightarrow> (err, r\<lparr>rt_engine := (rt_engine r)\<lparr>eng_registry := reg\<rparr>\<rparr>))"

definition sdk_node_id :: "nat \<Rightarrow> sdk_Node \<Rightarrow> string" where
  "sdk_node_id i n = (if sn_ID n = [] then fmt_04d (i + 1) @ ''_'' @ sn_AgentID n else sn_ID n)"

definition sdk_plan_node :: "nat \<Rightarrow> sdk_Node \<Rightarrow> PlanNode" where
  "sdk_plan_node i n =
     \<lparr>pn_Invocation = \<lparr>inv_ID = sdk_node_id i n, inv_AgentID = sn_AgentID n, inv_Input = sn_Input n\<rparr>,
      pn_DependsOn = sn_DependsOn n, pn_RetryPolicy = sn_RetryPolicy n, pn_CircuitBreakerPolicy = sn_CircuitBreakerPolicy n\<rparr>"

definition sdk_plan :: "string \<Rightarrow> sdk_Node list \<Rightarrow> ExecutionPlan" where
  "sdk_plan taskID nodes =
     \<lparr>ep_TaskID = taskID, ep_Nodes = map (\<lambda>(i, n). sdk_plan_node i n) (List.enumerate 0 nodes)\<rparr>"

definition sdk_result :: "AgentResult \<Rightarrow> sdk_Result" where
  "sdk_result rr =
     \<lparr>sr_InvocationID = inv_ID (ar_Invocation rr), sr_AgentID = inv_AgentID (ar_Invocation rr),
      sr_Output = ar_Output rr, sr_Error = error_string (ar_Err rr)\<rparr>"

text \<open>\<open>Duration.Milliseconds\<close> truncates towards zero.\<close>

definition milliseconds :: "duration \<Rightarrow> go_int" where
  "milliseconds d = (if d < 0 then - ((- d) div millisecond) else d div millisecond)"

definition sdk_step :: "Step \<Rightarrow> sdk_TraceStep" where
  "sdk_step s = \<lparr>st_InvocationID = s_InvocationID s, st_AgentID = s_AgentID s, st_RequestID = s_RequestID s,
     st_Error = s_Error s, st_Attempt = s_Attempt s\<rparr>"

definition toSDKTrace :: "ExecutionTrace \<Rightarrow> sdk_Trace" where
  "toSDKTrace tr = \<lparr>tc_TaskID = t_TaskID tr, tc_Steps = map sdk_step (t_Steps tr),
     tc_TotalLatency = milliseconds (t_TotalLatency tr)\<rparr>"

definition sdk_RunPlan ::
  "'w env \<Rightarrow> ('w, 'm) Runtime \<Rightarrow> string \<Rightarrow> sdk_Node list \<Rightarrow> nat option list list \<Rightarrow> ('w, 'm) shared
   \<Rightarrow> ((sdk_Result list \<times> sdk_Trace) result \<times> ('w, 'm) shared) option" where
  "sdk_RunPlan env r taskID nodes scheds s =
     (if nodes = [] then Some (Inl (Errorf ''sdk: no nodes provided''), s)
      else map_option (\<lambda>(results, tr, s'). (Inr (map sdk_result results, toSDKTrace tr), s'))
             (RunPlan env (rt_engine r) (sdk_plan taskID nodes) scheds s))"

section \<open>Names\<close>

lemma sdk_plan_ids: "plan_ids (sdk_plan taskID nodes) = map (\<lambda>(i, n). sdk_node_id i n) (List.enumerate 0 nodes)"
  by (simp add: plan_ids_def sdk_plan_def sdk_plan_node_def o_def case_prod_beta)

lemma sdk_node_id_nonempty: "sdk_node_id i n \<noteq> []"
  by (simp add: sdk_node_id_def)

lemma enumerate_mem: "(i, n) \<in> set (List.enumerate k xs) \<Longrightarrow> n \<in> set xs"
  by (auto simp: in_set_enumerate_eq)

lemma unnamed_distinct:
  assumes "\<forall>n \<in> set nodes. sn_ID n = []"
  shows "distinct (map (\<lambda>(i, n). sdk_node_id i n) (List.enumerate k nodes))"
proof -
  have "i = j" if "(i, n) \<in> set (List.enumerate k nodes)" "(j, m) \<in> set (List.enumerate k nodes)"
    "sdk_node_id i n = sdk_node_id j m" for i j n m
  proof -
    have "n \<in> set nodes" "m \<in> set nodes" using that(1,2) by (blast intro: enumerate_mem)+
    with assms that(3) have "fmt_04d (i + 1) @ ''_'' @ sn_AgentID n = fmt_04d (j + 1) @ ''_'' @ sn_AgentID m"
      by (simp add: sdk_node_id_def)
    from fmt_04d_tag_inj [OF this] show ?thesis by simp
  qed
  moreover have "n = m" if "(i, n) \<in> set (List.enumerate k nodes)" "(i, m) \<in> set (List.enumerate k nodes)" for i n m
    using that by (auto simp: in_set_enumerate_eq)
  ultimately have "inj_on (\<lambda>(i, n). sdk_node_id i n) (set (List.enumerate k nodes))"
    by (intro inj_onI) fastforce
  then show ?thesis by (simp add: distinct_map)
qed

text \<open>
  Naming by position never clashes. If the nodes handed to the SDK have no names and no
  dependencies, the plan is accepted whatever agents they use, even the same one several times, and
  a run reports exactly one result for every node, under the name made of its position and agent.
\<close>

theorem sdk_unnamed_nodes_run:
  assumes "nodes \<noteq> []" and "\<forall>n \<in> set nodes. sn_ID n = [] \<and> sn_DependsOn n = []"
    and "sdk_RunPlan env r taskID nodes scheds s = Some (outcome, s')"
  shows "\<exists>results tr. outcome = Inr (results, tr) \<and> length results = length nodes \<and> tc_TaskID tr = taskID
    \<and> mset (map sr_InvocationID results) = mset (map (\<lambda>(i, n). fmt_04d (i + 1) @ ''_'' @ sn_AgentID n) (List.enumerate 0 nodes))"
proof -
  let ?plan = "sdk_plan taskID nodes"
  from assms(1,3) obtain results tr where
    run: "RunPlan env (rt_engine r) ?plan scheds s = Some (results, tr, s')"
    and outcome: "outcome = Inr (map sdk_result results, toSDKTrace tr)"
    by (auto simp: sdk_RunPlan_def)
  have names: "map (\<lambda>(i, n). sdk_node_id i n) (List.enumerate 0 nodes)
      = map (\<lambda>(i, n). fmt_04d (i + 1) @ ''_'' @ sn_AgentID n) (List.enumerate 0 nodes)"
    using assms(2) by (intro map_cong) (auto simp: sdk_node_id_def in_set_enumerate_eq nth_mem)
  have "plan_edges ?plan = []"
    using assms(2) by (auto simp: plan_edges_def sdk_plan_def sdk_plan_node_def in_set_enumerate_eq nth_mem)
  moreover have "distinct (plan_ids ?plan)" "[] \<notin> set (plan_ids ?plan)" "ep_Nodes ?plan \<noteq> []"
    using unnamed_distinct [of nodes 0] assms(1,2) sdk_node_id_nonempty [symmetric]
    by (auto simp: sdk_plan_ids) (auto simp: sdk_plan_def dest: arg_cong [where f = length])
  ultimately have "plan_wellformed ?plan \<and> acyclic (set (plan_edges ?plan))" by (simp add: plan_wellformed_def acyclic_def)
  then obtain g where g: "buildGraph ?plan = Inr g" using buildGraph_Inr_iff by blast
  have ids: "map result_id results = sort_strings (plan_ids ?plan)" by (rule RunPlan_nodes [OF run g])
  from RunPlan_spec [OF run g] have task: "t_TaskID tr = taskID" by (auto simp: sdk_plan_def)
  have "map sr_InvocationID (map sdk_result results) = map result_id results" by (simp add: sdk_result_def result_id_def o_def)
  with ids have "mset (map sr_InvocationID (map sdk_result results)) = mset (plan_ids ?plan)" by simp
  moreover have "length results = length nodes"
    using arg_cong [OF ids, of length] by (simp add: sdk_plan_ids)
  ultimately show ?thesis
    using outcome task unfolding sdk_plan_ids names
    by (intro exI [of _ "map sdk_result results"] exI [of _ "toSDKTrace tr"]) (simp add: toSDKTrace_def)
qed

definition unnamed_node :: "string \<Rightarrow> sdk_Node" where
  "unnamed_node a = \<lparr>sn_ID = [], sn_AgentID = a, sn_Input = empty_input, sn_DependsOn = [],
     sn_RetryPolicy = default_retry, sn_CircuitBreakerPolicy = default_breaker\<rparr>"

theorem sdk_unnamed_nodes_run_witness:
  "\<exists>scheds results tr s'. sdk_RunPlan ex_env \<lparr>rt_engine = ex_engine, rt_breaker = NewCircuitBreaker\<rparr> ''t''
       [unnamed_node ''up'', unnamed_node ''up''] scheds ex_state = Some (Inr (results, tr), s')
     \<and> mset (map sr_InvocationID results) = mset [''0001_up'', ''0002_up'']"
proof -
  let ?nodes = "[unnamed_node ''up'', unnamed_node ''up'']" and ?r = "\<lparr>rt_engine = ex_engine, rt_breaker = NewCircuitBreaker\<rparr>"
  have "0 < rc_WorkerPoolSize (eng_cfg ex_engine)" by (simp add: ex_eng)
  from RunPlan_completable [OF this, of ex_env "sdk_plan ''t'' ?nodes" ex_state] obtain scheds results0 tr0 s' where
    "RunPlan ex_env ex_engine (sdk_plan ''t'' ?nodes) scheds ex_state = Some (results0, tr0, s')" by blast
  then obtain outcome where run: "sdk_RunPlan ex_env ?r ''t'' ?nodes scheds ex_state = Some (outcome, s')"
    by (simp add: sdk_RunPlan_def)
  have "\<forall>n \<in> set ?nodes. sn_ID n = [] \<and> sn_DependsOn n = []" by (simp add: unnamed_node_def)
  from sdk_unnamed_nodes_run [OF _ this run] obtain results tr where "outcome = Inr (results, tr)"
    and "mset (map sr_InvocationID results) = mset (map (\<lambda>(i, n). fmt_04d (i + 1) @ ''_'' @ sn_AgentID n) (List.enumerate 0 ?nodes))"
    by auto
  moreover have "map (\<lambda>(i, n). fmt_04d (i + 1) @ ''_'' @ sn_AgentID n) (List.enumerate 0 ?nodes) = [''0001_up'', ''0002_up'']"
    by (simp add: unnamed_node_def fmt_04d_def decimal.simps digit_def char_of_def bit_0)
      (simp add: numeral_3_eq_3)
  ultimately show ?thesis using run by (intro exI conjI) simp_all
qed

end
