(* ===== verification/Servers.thy ===== *)
theory Servers
  imports GoFiles App
begin

text \<open>
  Opening listeners: \<open>src/internal/security/tls.go\<close>, and the functions that start the servers of the router
  (\<open>app/server.go\<close>) and of the control plane (\<open>controlplane/service.go\<close>). Key pairs, PEM blocks, sockets and
  serving belong to Go's network libraries and are parameters. Serving lasts until the context is
  done; what it returns is the error of the whole call.
\<close>

section \<open>TLS\<close>

record 'c tls_config =
  tc_MinVersion :: nat
  tc_Certificates :: "'c list"
  tc_ClientCAs :: "bytes option"
  tc_ClientAuth :: bool

record ('w, 'c) server_lib =
  sl_LoadX509KeyPair :: "string \<Rightarrow> string \<Rightarrow> 'w host \<Rightarrow> 'c result \<times> 'w host"
  sl_AppendCertsFromPEM :: "bytes \<Rightarrow> bool"
  sl_Listen :: "string \<Rightarrow> 'w host \<Rightarrow> goerr option \<times> 'w host"
  sl_Serve :: "string \<Rightarrow> 'c tls_config option \<Rightarrow> 'w host \<Rightarrow> goerr option \<times> 'w host"
  sl_ErrServerClosed :: goerr

definition VersionTLS12 :: nat where "VersionTLS12 = 771"

definition BuildServerTLSConfig ::
  "'w host_env \<Rightarrow> ('w, 'c) server_lib \<Rightarrow> string \<Rightarrow> string \<Rightarrow> string \<Rightarrow> bool \<Rightarrow> 'w host \<Rightarrow> 'c tls_config result \<times> 'w host" where
  "BuildServerTLSConfig he sl certFile keyFile caFile requireClientCert h =
     (if certFile = [] \<or> keyFile = [] then (Inl (Errorf ''tls cert_file and key_file are required''), h)
      else
        (case sl_LoadX509KeyPair sl certFile keyFile h of
           (Inl e, h) \<Rightarrow> (Inl (WrapErr ''load key pair: '' e []), h)
         | (Inr cert, h) \<Rightarrow>
             (let cfg = \<lparr>tc_MinVersion = VersionTLS12, tc_Certificates = [cert], tc_ClientCAs = None, tc_ClientAuth = False\<rparr>
              in if \<not> requireClientCert then (Inr cfg, h)
                 else if caFile = [] then (Inl (Errorf ''ca_file is required when requireClientCert=true''), h)
                 else
                   (case read_file he caFile h of
                      (Inl e, h) \<Rightarrow> (Inl (WrapErr ''read ca file: '' e []), h)
                    | (Inr caPEM, h) \<Rightarrow>
                        if \<not> sl_AppendCertsFromPEM sl caPEM then (Inl (Errorf ''append ca certs failed''), h)
                        else (Inr (cfg\<lparr>tc_ClientCAs := Some caPEM, tc_ClientAuth := True\<rparr>), h)))))"

section \<open>The servers\<close>

text \<open>Listening and serving, with the message that wraps an error of the listener.\<close>

definition listen_serve ::
  "('w, 'c) server_lib \<Rightarrow> (goerr \<Rightarrow> goerr) \<Rightarrow> string \<Rightarrow> 'c tls_config option \<Rightarrow> 'w host \<Rightarrow> goerr option \<times> 'w host" where
  "listen_serve sl wrap addr cfg h =
     (case sl_Listen sl addr h of
        (Some e, h) \<Rightarrow> (Some (wrap e), h)
      | (None, h) \<Rightarrow> sl_Serve sl addr cfg h)"

definition or_default :: "string \<Rightarrow> string \<Rightarrow> string" where
  "or_default addr dflt = (if addr = [] then dflt else addr)"

definition serve_tls ::
  "'w host_env \<Rightarrow> ('w, 'c) server_lib \<Rightarrow> (goerr \<Rightarrow> goerr) \<Rightarrow> string \<Rightarrow> string \<Rightarrow> string \<Rightarrow> string \<Rightarrow> bool \<Rightarrow> 'w host \<Rightarrow> goerr option \<times> 'w host" where
  "serve_tls he sl wrap addr certFile keyFile caFile requireClientCert h =
     (case BuildServerTLSConfig he sl certFile keyFile caFile requireClientCert h of
        (Inl e, h) \<Rightarrow> (Some e, h)
      | (Inr cfg, h) \<Rightarrow> listen_serve sl wrap addr (Some cfg) h)"

definition StartRouterServer :: "('w, 'c) server_lib \<Rightarrow> string \<Rightarrow> 'w host \<Rightarrow> goerr option \<times> 'w host" where
  "StartRouterServer sl addr h = listen_serve sl (\<lambda>e. e) (or_default addr '':8080'') None h"

definition StartRouterServerTLS ::
  "'w host_env \<Rightarrow> ('w, 'c) server_lib \<Rightarrow> string \<Rightarrow> string \<Rightarrow> string \<Rightarrow> string \<Rightarrow> bool \<Rightarrow> 'w host \<Rightarrow> goerr option \<times> 'w host" where
  "StartRouterServerTLS he sl addr certFile keyFile caFile requireClientCert h =
     serve_tls he sl (\<lambda>e. WrapErr ''router tls listen: '' e []) (or_default addr '':8080'') certFile keyFile caFile requireClientCert h"

definition StartRouterServerFromEnv ::
  "'w host_env \<Rightarrow> ('w, 'c) server_lib \<Rightarrow> (string \<Rightarrow> string) \<Rightarrow> 'w host \<Rightarrow> goerr option \<times> 'w host" where
  "StartRouterServerFromEnv he sl getenv h =
     (let addr = or_default (getenv ''ROUTER_ADDR'') '':8080''
      in if envBool getenv ''ROUTER_TLS_ENABLED''
         then StartRouterServerTLS he sl addr (getenv ''ROUTER_TLS_CERT_FILE'') (getenv ''ROUTER_TLS_KEY_FILE'')
                (getenv ''ROUTER_TLS_CA_FILE'') (envBool getenv ''ROUTER_TLS_REQUIRE_CLIENT_CERT'') h
         else StartRouterServer sl addr h)"

text \<open>The control plane. Its TLS listener is made of a plain one.\<close>

definition StartServer :: "('w, 'c) server_lib \<Rightarrow> string \<Rightarrow> 'w host \<Rightarrow> goerr option \<times> 'w host" where
  "StartServer sl addr h = listen_serve sl (\<lambda>e. e) (or_default addr '':8081'') None h"

definition StartServerTLS ::
  "'w host_env \<Rightarrow> ('w, 'c) server_lib \<Rightarrow> string \<Rightarrow> string \<Rightarrow> string \<Rightarrow> string \<Rightarrow> bool \<Rightarrow> 'w host \<Rightarrow> goerr option \<times> 'w host" where
  "StartServerTLS he sl addr certFile keyFile caFile requireClientCert h =
     serve_tls he sl (\<lambda>e. WrapErr ''listen controlplane: '' e []) (or_default addr '':8081'') certFile keyFile caFile requireClientCert h"

text \<open>\<open>main\<close> of \<open>src/cmd/controlplane\<close>: the standard output, the standard error and the exit status.\<close>

definition version_text :: "string \<times> string \<times> string \<Rightarrow> string" where
  "version_text v = (case v of (ver, commit, built) \<Rightarrow> ''version='' @ ver @ '' commit='' @ commit @ '' build_date='' @ built)"

record outcome =
  oc_stdout :: string
  oc_stderr :: string
  oc_status :: nat

definition server_outcome :: "('w, 'c) server_lib \<Rightarrow> string \<Rightarrow> goerr option \<Rightarrow> outcome" where
  "server_outcome sl msg err =
     (case err of
        None \<Rightarrow> \<lparr>oc_stdout = [], oc_stderr = [], oc_status = 0\<rparr>
      | Some e \<Rightarrow>
          if errors_is e (sl_ErrServerClosed sl) then \<lparr>oc_stdout = [], oc_stderr = [], oc_status = 0\<rparr>
          else \<lparr>oc_stdout = [], oc_stderr = msg @ err_text e @ [char_of (10 :: nat)], oc_status = 1\<rparr>)"

definition controlplane_main ::
  "'w host_env \<Rightarrow> ('w, 'c) server_lib \<Rightarrow> (string \<Rightarrow> string) \<Rightarrow> string \<times> string \<times> string \<Rightarrow> string list \<Rightarrow> 'w host \<Rightarrow> outcome \<times> 'w host" where
  "controlplane_main he sl getenv v args h =
     (if args \<noteq> [] \<and> (hd args = ''-v'' \<or> hd args = ''--version'' \<or> hd args = ''version'')
      then (\<lparr>oc_stdout = version_text v @ [char_of (10 :: nat)], oc_stderr = [], oc_status = 0\<rparr>, h)
      else
        (let addr = or_default (getenv ''CONTROLPLANE_ADDR'') '':8081''
         in case (if getenv ''CONTROLPLANE_TLS_ENABLED'' = ''true''
                  then StartServerTLS he sl addr (getenv ''CONTROLPLANE_TLS_CERT_FILE'') (getenv ''CONTROLPLANE_TLS_KEY_FILE'')
                         (getenv ''CONTROLPLANE_TLS_CA_FILE'') (getenv ''CONTROLPLANE_TLS_REQUIRE_CLIENT_CERT'' = ''true'') h
                  else StartServer sl addr h) of
              (err, h) \<Rightarrow> (server_outcome sl ''controlplane failed: '' err, h)))"

section \<open>TLS is enforced\<close>

text \<open>A configuration as the settings ask for it: TLS 1.2 or later, and verified clients where required.\<close>

definition strict :: "bool \<Rightarrow> 'c tls_config option \<Rightarrow> bool" where
  "strict required c \<longleftrightarrow>
     (case c of
        None \<Rightarrow> False
      | Some cfg \<Rightarrow> tc_MinVersion cfg = VersionTLS12 \<and> (required \<longrightarrow> tc_ClientAuth cfg \<and> tc_ClientCAs cfg \<noteq> None))"

text \<open>The same libraries, but with another way to serve when the configuration is not strict.\<close>

definition otherwise ::
  "bool \<Rightarrow> (string \<Rightarrow> 'c tls_config option \<Rightarrow> 'w host \<Rightarrow> goerr option \<times> 'w host) \<Rightarrow> ('w, 'c) server_lib \<Rightarrow> ('w, 'c) server_lib" where
  "otherwise required serve sl = sl\<lparr>sl_Serve := \<lambda>addr c h. if strict required c then sl_Serve sl addr c h else serve addr c h\<rparr>"

lemma otherwise_fields [simp]:
  "sl_LoadX509KeyPair (otherwise required serve sl) = sl_LoadX509KeyPair sl"
  "sl_AppendCertsFromPEM (otherwise required serve sl) = sl_AppendCertsFromPEM sl"
  "sl_Listen (otherwise required serve sl) = sl_Listen sl"
  by (simp_all add: otherwise_def)

lemma BuildServerTLSConfig_strict:
  "BuildServerTLSConfig he sl certFile keyFile caFile required h = (Inr cfg, h') \<Longrightarrow> strict required (Some cfg)"
  by (auto simp: BuildServerTLSConfig_def strict_def Let_def split: if_splits sum.splits prod.splits)

lemma serve_tls_otherwise:
  "serve_tls he (otherwise required serve sl) wrap addr certFile keyFile caFile required h
   = serve_tls he sl wrap addr certFile keyFile caFile required h"
proof -
  have "BuildServerTLSConfig he (otherwise required serve sl) certFile keyFile caFile required h
      = BuildServerTLSConfig he sl certFile keyFile caFile required h"
    by (simp only: BuildServerTLSConfig_def otherwise_fields)
  moreover have "listen_serve (otherwise required serve sl) wrap addr (Some cfg) h1 = listen_serve sl wrap addr (Some cfg) h1"
    if "strict required (Some cfg)" for cfg h1
    using that by (auto simp: listen_serve_def otherwise_def split: prod.splits option.splits)
  ultimately show ?thesis
    by (auto simp: serve_tls_def split: prod.splits sum.splits dest: BuildServerTLSConfig_strict)
qed


definition echo_servers :: "(unit, unit) server_lib" where
  "echo_servers = \<lparr>sl_LoadX509KeyPair = (\<lambda>c k h. (Inr (), h)), sl_AppendCertsFromPEM = (\<lambda>b. True), sl_Listen = (\<lambda>a h. (None, h)),
     sl_Serve = (\<lambda>a c h. (Some (Errorf (if c = None then ''plain'' else ''tls'')), h)), sl_ErrServerClosed = Errorf ''http: Server closed''\<rparr>"

definition tls_vars :: "string \<Rightarrow> string" where
  "tls_vars = (\<lambda>_. [])(''ROUTER_TLS_ENABLED'' := ''1'', ''ROUTER_TLS_CERT_FILE'' := ''c.pem'', ''ROUTER_TLS_KEY_FILE'' := ''k.pem'',
     ''CONTROLPLANE_TLS_ENABLED'' := ''1'')"


text \<open>The control plane takes only the word \<open>true\<close>: with \<open>1\<close>, which the router takes, it serves without TLS.\<close>

lemma controlplane_tls_one_is_plain:
  "oc_stderr (fst (controlplane_main still_host echo_servers tls_vars v [] \<lparr>h_files = Map.empty, h_world = ()\<rparr>))
   = ''controlplane failed: plain'' @ [char_of (10 :: nat)]"
  by (simp add: controlplane_main_def tls_vars_def StartServer_def listen_serve_def echo_servers_def server_outcome_def)

end
