(* ===== verification/Telemetry.thy ===== *)
theory Telemetry
  imports Servers Metrics
begin

text \<open>
  Tracing and metrics as the program sets them up: \<open>src/internal/trace/otel.go\<close> and
  \<open>src/internal/metrics/prometheus.go\<close>. The client libraries of OpenTelemetry and Prometheus are parameters: the
  first may refuse its exporters, the second keeps counters and histograms by name and labels. Spans
  are written and never read by the program.
\<close>

section \<open>OpenTelemetry\<close>

record 'w otel_lib =
  ot_Resource :: "string \<Rightarrow> 'w \<Rightarrow> goerr option \<times> 'w"
  ot_OTLP :: "string \<Rightarrow> 'w \<Rightarrow> goerr option \<times> 'w"
  ot_Stdout :: "'w \<Rightarrow> goerr option \<times> 'w"

definition trace_envBool :: "(string \<Rightarrow> string) \<Rightarrow> string \<Rightarrow> bool" where
  "trace_envBool getenv key =
     (let v = trim_space (to_lower (getenv key)) in v = ''1'' \<or> v = ''true'' \<or> v = ''yes'' \<or> v = ''on'')"

definition SetupOTelFromEnv :: "'w otel_lib \<Rightarrow> (string \<Rightarrow> string) \<Rightarrow> string \<Rightarrow> 'w \<Rightarrow> goerr option \<times> 'w" where
  "SetupOTelFromEnv ot getenv serviceName w =
     (if \<not> trace_envBool getenv ''TRACE_ENABLED'' then (None, w)
      else
        (case ot_Resource ot serviceName w of
           (Some e, w) \<Rightarrow> (Some (WrapErr ''otel resource: '' e []), w)
         | (None, w) \<Rightarrow>
             (let endpoint = trim_space (getenv ''TRACE_ENDPOINT'') in
              if endpoint \<noteq> [] then
                (case ot_OTLP ot endpoint w of
                   (Some e, w) \<Rightarrow> (Some (WrapErr ''otel otlp exporter: '' e []), w)
                 | (None, w) \<Rightarrow> (None, w))
              else
                (case ot_Stdout ot w of
                   (Some e, w) \<Rightarrow> (Some (WrapErr ''otel stdout exporter: '' e []), w)
                 | (None, w) \<Rightarrow> (None, w)))))"

section \<open>Prometheus\<close>

record 'p prom_lib =
  pl_Register :: "string \<Rightarrow> 'p \<Rightarrow> goerr option \<times> 'p"
  pl_Inc :: "string \<Rightarrow> string list \<Rightarrow> 'p \<Rightarrow> 'p"
  pl_Observe :: "string \<Rightarrow> string list \<Rightarrow> rat \<Rightarrow> 'p \<Rightarrow> 'p"

definition invocations_total :: string where "invocations_total = ''fluxroute_invocations_total''"
definition duration_seconds :: string where "duration_seconds = ''fluxroute_invocation_duration_seconds''"
definition retries_total :: string where "retries_total = ''fluxroute_retry_attempts_total''"
definition breaks_total :: string where "breaks_total = ''fluxroute_circuit_breaks_total''"

fun register_collectors :: "'p prom_lib \<Rightarrow> string list \<Rightarrow> 'p \<Rightarrow> 'p result" where
  "register_collectors pl [] p = Inr p"
| "register_collectors pl (c # cs) p =
     (case pl_Register pl c p of
        (Some e, p) \<Rightarrow> Inl (WrapErr ''register collector: '' e [])
      | (None, p) \<Rightarrow> register_collectors pl cs p)"

text \<open>\<open>Duration.Seconds\<close>: two conversions, a division and a sum of doubles.\<close>

definition seconds_of :: "duration \<Rightarrow> rat" where
  "seconds_of d =
     (let a = \<bar>d\<bar>; v = fl64 (of_int (a div second) + fl64 (of_int (a mod second) / 1000000000))
      in if d < 0 then - v else v)"

definition prom_recorder :: "'p prom_lib \<Rightarrow> 'p Recorder" where
  "prom_recorder pl =
     \<lparr>ObserveInvocation = (\<lambda>agentID status d p.
        pl_Observe pl duration_seconds [agentID] (seconds_of d) (pl_Inc pl invocations_total [agentID, status] p)),
      ObserveRetry = (\<lambda>agentID. pl_Inc pl retries_total [agentID]),
      ObserveCircuitOpen = (\<lambda>agentID. pl_Inc pl breaks_total [agentID])\<rparr>"

definition NewPrometheusRecorder :: "'p prom_lib \<Rightarrow> 'p option \<Rightarrow> ('p Recorder \<times> 'p) result" where
  "NewPrometheusRecorder pl registry =
     (case registry of
        None \<Rightarrow> Inl (Errorf ''prometheus registry is nil'')
      | Some p \<Rightarrow>
          (case register_collectors pl [invocations_total, duration_seconds, retries_total, breaks_total] p of
             Inl e \<Rightarrow> Inl e
           | Inr p \<Rightarrow> Inr (prom_recorder pl, p)))"

text \<open>The endpoint: once it listens, it is served in the background. \<open>registered\<close>: the registry is not nil.\<close>

definition listen_metrics :: "('w, 'c) server_lib \<Rightarrow> string \<Rightarrow> 'w host \<Rightarrow> goerr option \<times> 'w host" where
  "listen_metrics sl addr h =
     (case sl_Listen sl addr h of
        (Some e, h) \<Rightarrow> (Some (WrapErr (''listen metrics endpoint '' @ fmt_q addr @ '': '') e []), h)
      | (None, h) \<Rightarrow> (None, h))"

definition StartPrometheusServer :: "('w, 'c) server_lib \<Rightarrow> string \<Rightarrow> bool \<Rightarrow> 'w host \<Rightarrow> goerr option \<times> 'w host" where
  "StartPrometheusServer sl addr registered h =
     (if \<not> registered then (Some (Errorf ''prometheus registry is nil''), h)
      else listen_metrics sl (or_default addr '':2112'') h)"

definition StartPrometheusServerTLS ::
  "'w host_env \<Rightarrow> ('w, 'c) server_lib \<Rightarrow> string \<Rightarrow> bool \<Rightarrow> string \<Rightarrow> string \<Rightarrow> string \<Rightarrow> bool \<Rightarrow> 'w host \<Rightarrow> goerr option \<times> 'w host" where
  "StartPrometheusServerTLS he sl addr registered certFile keyFile caFile requireClientCert h =
     (if \<not> registered then (Some (Errorf ''prometheus registry is nil''), h)
      else
        (case BuildServerTLSConfig he sl certFile keyFile caFile requireClientCert h of
           (Inl e, h) \<Rightarrow> (Some e, h)
         | (Inr cfg, h) \<Rightarrow> listen_metrics sl (or_default addr '':2112'') h))"

section \<open>The two recorders agree\<close>

text \<open>What the library documents of its counters, with \<open>val\<close> to read them.\<close>

definition counts :: "'p prom_lib \<Rightarrow> (string \<Rightarrow> string list \<Rightarrow> 'p \<Rightarrow> int) \<Rightarrow> bool" where
  "counts pl val \<longleftrightarrow>
     (\<forall>n l n' l' p. val n l (pl_Inc pl n' l' p) = val n l p + (if n = n' \<and> l = l' then 1 else 0))
     \<and> (\<forall>n l n' l' x p. val n l (pl_Observe pl n' l' x p) = val n l p)"


definition function_counters :: "(string \<Rightarrow> string list \<Rightarrow> int) prom_lib" where
  "function_counters = \<lparr>pl_Register = (\<lambda>n p. (None, p)), pl_Inc = (\<lambda>n l p. p(n := (p n)(l := p n l + 1))), pl_Observe = (\<lambda>n l x p. p)\<rparr>"


end
