(* ===== verification/AppRun.thy ===== *)
theory AppRun
  imports Replay TraceDebug Coordinator AuditLog AstraGraph Sdk Telemetry
begin

text \<open>
  The entry points of \<open>src/internal/app/run.go\<close> and \<open>tools.go\<close>: running, validating, replaying and comparing,
  from the files on disk to the report, with access control, the lease of the run, metrics, the
  trace file, the AstraGraph export and the audit log. What is outside the program (environment
  variables, clock, timers, file faults, the YAML decoder, Redis, OpenTelemetry, Prometheus, HTTP) is the
  record \<open>app_env\<close>. The context of a run is \<open>context.Background()\<close>, which is never done.
\<close>

section \<open>The process\<close>

record 'w app =
  ap_host :: "'w host"
  ap_locks :: lock_files

record ('w, 'p, 'c) app_env =
  ax_host :: "'w host_env"
  ax_getenv :: "string \<Rightarrow> string"
  ax_yaml :: "bytes \<Rightarrow> Manifest result"
  ax_poll :: "duration \<Rightarrow> 'w \<Rightarrow> goerr option \<times> 'w"
  ax_nap :: "duration \<Rightarrow> duration \<Rightarrow> 'w \<Rightarrow> goerr option \<times> 'w"
  ax_sleep :: "duration \<Rightarrow> 'w \<Rightarrow> 'w"
  ax_lock_fault :: "fs_op \<Rightarrow> string \<Rightarrow> 'w \<Rightarrow> goerr option \<times> 'w"
  ax_redis :: "'w redis"
  ax_otel :: "'w otel_lib"
  ax_prometheus :: "'p prom_lib"
  ax_NewRegistry :: 'p
  ax_servers :: "('w, 'c) server_lib"
  ax_http :: "'w http_client"

definition in_host :: "('w \<Rightarrow> 'a \<times> 'w) \<Rightarrow> 'w host \<Rightarrow> 'a \<times> 'w host" where
  "in_host f h = (case f (h_world h) of (a, w) \<Rightarrow> (a, h\<lparr>h_world := w\<rparr>))"

definition in_app :: "('w host \<Rightarrow> 'a \<times> 'w host) \<Rightarrow> 'w app \<Rightarrow> 'a \<times> 'w app" where
  "in_app f a = (case f (ap_host a) of (x, h) \<Rightarrow> (x, a\<lparr>ap_host := h\<rparr>))"

text \<open>What the engine, the built-in agents and the coordinators see of it.\<close>

definition engine_env :: "('w, 'p, 'c) app_env \<Rightarrow> 'w host demo_world env" where
  "engine_env ax =
     \<lparr>e_now = (\<lambda>w. case host_now (ax_host ax) (dw_env w) of (t, h) \<Rightarrow> (t, w\<lparr>dw_env := h\<rparr>)),
      e_wait = (\<lambda>d w. (None, w\<lparr>dw_env := (dw_env w)\<lparr>h_world := ax_sleep ax d (h_world (dw_env w))\<rparr>\<rparr>))\<rparr>"

definition app_agent :: "('w, 'p, 'c) app_env \<Rightarrow> string \<Rightarrow> 'w host demo_world AgentFunc" where
  "app_agent ax = deterministicAgent (\<lambda>d. in_host (ax_poll ax d)) (\<lambda>d n. in_host (ax_nap ax d n))"

definition lock_env :: "('w, 'p, 'c) app_env \<Rightarrow> 'w fs_env" where
  "lock_env ax = \<lparr>e_now = he_now (ax_host ax), e_wait = (\<lambda>d w. (None, ax_sleep ax d w)), fs_fault = ax_lock_fault ax\<rparr>"

section \<open>The lease of a run\<close>

definition lease_ttl :: "(string \<Rightarrow> string) \<Rightarrow> duration" where
  "lease_ttl getenv =
     (let v = trim_space (getenv ''COORDINATION_TTL'') in
      if v = [] then 2 * minute
      else case parse_duration v of Inr d \<Rightarrow> if 0 < d then d else 2 * minute | Inl _ \<Rightarrow> 2 * minute)"

definition lease_key :: "string \<Rightarrow> string \<Rightarrow> string" where
  "lease_key namespace taskID = namespace @ ''-'' @ replace_all ''.'' ''_'' taskID"

definition coordination_mode :: "(string \<Rightarrow> string) \<Rightarrow> string" where
  "coordination_mode getenv =
     (let mode = trim_space (to_lower (getenv ''COORDINATION_MODE'')) in if mode = [] then ''file'' else mode)"

definition with_world :: "'w app \<Rightarrow> 'w \<Rightarrow> 'w app" where
  "with_world a w = a\<lparr>ap_host := (ap_host a)\<lparr>h_world := w\<rparr>\<rparr>"

text \<open>
  \<open>None\<close>: the lease is still held elsewhere after \<open>n\<close> rounds of waiting. An error of the constructor
  of the Redis coordinator is returned as it is, one of \<open>Acquire\<close> is wrapped.
\<close>

definition wrap_acquire :: "Lease result option \<Rightarrow> Lease result option" where
  "wrap_acquire r =
     (case r of Some (Inl e) \<Rightarrow> Some (Inl (WrapErr ''coordination acquire failed: '' e [])) | _ \<Rightarrow> r)"

definition acquire_lease ::
  "('w, 'p, 'c) app_env \<Rightarrow> nat \<Rightarrow> string \<Rightarrow> duration \<Rightarrow> 'w app \<Rightarrow> Lease result option \<times> 'w app" where
  "acquire_lease ax n key ttl a =
     (let getenv = ax_getenv ax; w = h_world (ap_host a); mode = coordination_mode getenv in
      if mode = ''memory'' then
        (case run_prog (memory_Acquire (lock_env ax) n key ttl) \<lparr>co_store = NewMemoryCoordinator, co_world = w\<rparr> of
           (r, s) \<Rightarrow> (wrap_acquire r, with_world a (co_world s)))
      else if mode = ''redis'' then
        (case NewRedisCoordinator (ax_redis ax) (trim_space (getenv ''COORDINATION_REDIS_URL''))
                (trim_space (getenv ''COORDINATION_REDIS_PREFIX'')) w of
           (Inl e, w) \<Rightarrow> (Some (Inl e), with_world a w)
         | (Inr keyPrefix, w) \<Rightarrow>
             (case redis_Acquire (ax_redis ax) (lock_env ax) n keyPrefix key ttl w of (r, w) \<Rightarrow> (wrap_acquire r, with_world a w)))
      else
        (case run_prog (file_Acquire (lock_env ax) n (NewFileCoordinator getenv (getenv ''COORDINATION_DIR'')) key ttl)
                \<lparr>co_store = ap_locks a, co_world = w\<rparr> of
           (r, s) \<Rightarrow> (wrap_acquire r, (with_world a (co_world s))\<lparr>ap_locks := co_store s\<rparr>)))"

definition acquireLeaseIfEnabled ::
  "('w, 'p, 'c) app_env \<Rightarrow> nat \<Rightarrow> string \<Rightarrow> string \<Rightarrow> 'w app \<Rightarrow> Lease option result option \<times> 'w app" where
  "acquireLeaseIfEnabled ax n namespace taskID a =
     (if \<not> envBool (ax_getenv ax) ''COORDINATION_ENABLED'' then (Some (Inr None), a)
      else
        (case acquire_lease ax n (lease_key namespace taskID) (lease_ttl (ax_getenv ax)) a of
           (None, a') \<Rightarrow> (None, a')
         | (Some (Inl e), a') \<Rightarrow> (Some (Inl e), a')
         | (Some (Inr lease), a') \<Rightarrow> (Some (Inr (Some lease)), a')))"

text \<open>The deferred \<open>Release\<close>, whose error is dropped. The store of the memory mode belongs to the run alone.\<close>

definition release_lease :: "('w, 'p, 'c) app_env \<Rightarrow> Lease option \<Rightarrow> 'w app \<Rightarrow> 'w app" where
  "release_lease ax lease a =
     (case lease of
        None \<Rightarrow> a
      | Some (memoryLease key) \<Rightarrow> a
      | Some (fileLease path) \<Rightarrow>
          (case run_prog (file_Release (lock_env ax) path) \<lparr>co_store = ap_locks a, co_world = h_world (ap_host a)\<rparr> of
             (_, s) \<Rightarrow> (with_world a (co_world s))\<lparr>ap_locks := co_store s\<rparr>)
      | Some (redisLease key token) \<Rightarrow>
          (case redis_Release (ax_redis ax) key token (h_world (ap_host a)) of (_, w) \<Rightarrow> with_world a w))"

section \<open>Metrics\<close>

datatype 'p metric_state = InMemory InMemoryRecorder | Prometheus 'p

fun on_inmem :: "(InMemoryRecorder \<Rightarrow> InMemoryRecorder) \<Rightarrow> 'p metric_state \<Rightarrow> 'p metric_state" where
  "on_inmem f (InMemory r) = InMemory (f r)"
| "on_inmem f m = m"

fun on_prom :: "('p \<Rightarrow> 'p) \<Rightarrow> 'p metric_state \<Rightarrow> 'p metric_state" where
  "on_prom f (Prometheus p) = Prometheus (f p)"
| "on_prom f m = m"

definition metricRecorder :: "'p metric_state Recorder" where
  "metricRecorder =
     \<lparr>ObserveInvocation = (\<lambda>a st d. on_inmem (inmem_invocation a st d)), ObserveRetry = (\<lambda>a. on_inmem (inmem_retry a)),
      ObserveCircuitOpen = (\<lambda>a. on_inmem (inmem_circuit_open a))\<rparr>"

definition promRecorder :: "'p Recorder \<Rightarrow> 'p metric_state Recorder" where
  "promRecorder r =
     \<lparr>ObserveInvocation = (\<lambda>a st d. on_prom (ObserveInvocation r a st d)), ObserveRetry = (\<lambda>a. on_prom (ObserveRetry r a)),
      ObserveCircuitOpen = (\<lambda>a. on_prom (ObserveCircuitOpen r a))\<rparr>"

text \<open>The active recorder and its state: the one in memory alone, or both.\<close>

definition metrics_endpoint :: "('w, 'p, 'c) app_env \<Rightarrow> 'w host \<Rightarrow> goerr option \<times> 'w host" where
  "metrics_endpoint ax h =
     (let getenv = ax_getenv ax; addr = metricsAddr getenv
      in if envBool getenv ''METRICS_TLS_ENABLED''
         then StartPrometheusServerTLS (ax_host ax) (ax_servers ax) addr True (getenv ''METRICS_TLS_CERT_FILE'')
                (getenv ''METRICS_TLS_KEY_FILE'') (getenv ''METRICS_TLS_CA_FILE'') (envBool getenv ''METRICS_TLS_REQUIRE_CLIENT_CERT'') h
         else StartPrometheusServer (ax_servers ax) addr True h)"

definition setup_metrics ::
  "('w, 'p, 'c) app_env \<Rightarrow> 'w host \<Rightarrow> ('p metric_state list Recorder \<times> 'p metric_state list) result \<times> 'w host" where
  "setup_metrics ax h =
     (let inmem = InMemory NewInMemoryRecorder in
      if \<not> envBool (ax_getenv ax) ''METRICS_ENABLED''
      then (Inr (multi_recorder [metricRecorder], [inmem]), h)
      else
        (case NewPrometheusRecorder (ax_prometheus ax) (Some (ax_NewRegistry ax)) of
           Inl e \<Rightarrow> (Inl (WrapErr ''setup prometheus recorder: '' e []), h)
         | Inr (r, p) \<Rightarrow>
             (case metrics_endpoint ax h of
                (Some e, h) \<Rightarrow> (Inl (WrapErr ''start metrics endpoint: '' e []), h)
              | (None, h) \<Rightarrow>
                  (Inr (multi_recorder (NewMultiRecorder [Some metricRecorder, Some (promRecorder r)]), [inmem, Prometheus p]), h))))"

fun metrics_snapshot :: "'p metric_state list \<Rightarrow> Snapshot" where
  "metrics_snapshot (InMemory r # ms) = inmem_snapshot r"
| "metrics_snapshot (m # ms) = metrics_snapshot ms"
| "metrics_snapshot [] = inmem_snapshot NewInMemoryRecorder"

section \<open>Running a manifest\<close>

record RunReport =
  rr_Results :: "AgentResult list"
  rr_Trace :: ExecutionTrace
  rr_Metrics :: Snapshot
  rr_Namespace :: string

definition run_engine ::
  "('w, 'p, 'c) app_env \<Rightarrow> nat option list list \<Rightarrow> 'w host demo_world AgentFunc registry \<Rightarrow> RouterConfig \<Rightarrow> ExecutionPlan
   \<Rightarrow> 'p metric_state list Recorder \<Rightarrow> 'p metric_state list \<Rightarrow> 'w host
   \<Rightarrow> (AgentResult list \<times> ExecutionTrace \<times> Snapshot \<times> 'w host) option" where
  "run_engine ax scheds registry cfg plan rec ms h =
     (case NewEngine registry cfg of (e, cb) \<Rightarrow>
      map_option (\<lambda>(results, tr, s). (results, tr, metrics_snapshot (sh_metrics s), dw_env (sh_world s)))
        (RunPlan (engine_env ax) (SetMetricsRecorder (Some rec) e) plan scheds
           \<lparr>sh_breaker = cb, sh_metrics = ms, sh_recorder = NewRecorder [] time_zero,
            sh_world = \<lparr>dw_attempts = (\<lambda>_. Map.empty), dw_env = h\<rparr>\<rparr>))"

text \<open>After the run: the trace file and the AstraGraph export, which only counts when it is strict.\<close>

definition persist_trace :: "('w, 'p, 'c) app_env \<Rightarrow> ExecutionTrace \<Rightarrow> string \<Rightarrow> 'w host \<Rightarrow> goerr option \<times> 'w host" where
  "persist_trace ax tr namespace h =
     (case (if ax_getenv ax ''TRACE_OUTPUT'' = [] then (None, h) else SaveToFile (ax_host ax) (ax_getenv ax ''TRACE_OUTPUT'') tr h) of
        (Some e, h) \<Rightarrow> (Some (WrapErr ''persist trace: '' e []), h)
      | (None, h) \<Rightarrow>
          (case ExportAstraGraphAudit (ax_host ax) (ax_http ax) (ax_getenv ax) tr namespace h of
             ((_, Some e), h) \<Rightarrow>
               (if envBool (ax_getenv ax) ''ASTRAGRAPH_EXPORT_STRICT''
                then Some (WrapErr ''export astragraph audit: '' e []) else None, h)
           | ((_, None), h) \<Rightarrow> (None, h)))"

definition run_leased ::
  "('w, 'p, 'c) app_env \<Rightarrow> nat option list list \<Rightarrow> string \<Rightarrow> 'w host demo_world AgentFunc registry \<Rightarrow> RouterConfig \<Rightarrow> ExecutionPlan
   \<Rightarrow> 'w host \<Rightarrow> (RunReport result \<times> 'w host) option" where
  "run_leased ax scheds namespace registry cfg plan h =
     (case in_host (SetupOTelFromEnv (ax_otel ax) (ax_getenv ax) ''fluxroute'') h of
        (Some e, h) \<Rightarrow> Some (Inl (WrapErr ''setup tracing: '' e []), h)
      | (None, h) \<Rightarrow>
          (case setup_metrics ax h of
             (Inl e, h) \<Rightarrow> Some (Inl e, h)
           | (Inr (rec, ms), h) \<Rightarrow>
               (case run_engine ax scheds registry cfg plan rec ms h of
                  None \<Rightarrow> None
                | Some (results, tr, snap, h) \<Rightarrow>
                    (case persist_trace ax tr namespace h of
                       (Some e, h) \<Rightarrow> Some (Inl e, h)
                     | (None, h) \<Rightarrow>
                         Some (Inr \<lparr>rr_Results = results, rr_Trace = tr, rr_Metrics = snap, rr_Namespace = namespace\<rparr>, h)))))"

text \<open>What happens before the lease: everything that is decided by the manifest and the environment.\<close>

definition prepare_run ::
  "('w, 'p, 'c) app_env \<Rightarrow> string \<Rightarrow> 'w host
   \<Rightarrow> (string \<times> 'w host demo_world AgentFunc registry \<times> RouterConfig \<times> ExecutionPlan) result \<times> 'w host" where
  "prepare_run ax manifestPath h =
     (case read_file (ax_host ax) manifestPath h of (file, h) \<Rightarrow>
      case LoadManifest (\<lambda>_. file) (ax_yaml ax) manifestPath of
        Inl e \<Rightarrow> (Inl (WrapErr ''load manifest: '' e []), h)
      | Inr manifest \<Rightarrow>
          (case RBACPolicyFromManifest manifest of
             Inl e \<Rightarrow> (Inl (WrapErr ''build rbac policy: '' e []), h)
           | Inr policy \<Rightarrow>
               (case authorize (ax_getenv ax) policy ActionRun of
                  Some e \<Rightarrow> (Inl e, h)
                | None \<Rightarrow>
                    (case NamespaceFromManifest manifest of
                       Inl e \<Rightarrow> (Inl (WrapErr ''namespace: '' e []), h)
                     | Inr namespace \<Rightarrow>
                         (case buildRegistry (app_agent ax) manifest of
                            Inl e \<Rightarrow> (Inl e, h)
                          | Inr registry \<Rightarrow>
                              (case RouterConfigFromManifest manifest (FromEnv (ax_getenv ax)) of
                                 Inl e \<Rightarrow> (Inl (WrapErr ''build runtime config: '' e []), h)
                               | Inr cfg \<Rightarrow>
                                   (case buildExecutionPlan (host_now (ax_host ax)) manifest namespace (rc_CircuitBreaker cfg) h of
                                      (Inl e, h) \<Rightarrow> (Inl e, h)
                                    | (Inr plan, h) \<Rightarrow> (Inr (namespace, registry, cfg, plan), h))))))))"

text \<open>The deferred audit record.\<close>

definition audited :: "('w, 'p, 'c) app_env \<Rightarrow> Action \<Rightarrow> string \<Rightarrow> goerr option \<Rightarrow> 'w app \<Rightarrow> 'w app" where
  "audited ax action resource err a =
     a\<lparr>ap_host := snd (logger_Write (ax_host ax) (Some (NewLogger (trim_space (ax_getenv ax ''AUDIT_LOG_PATH''))))
        (currentRole (ax_getenv ax)) action resource (if err = None then ''success'' else ''error'') err (ap_host a))\<rparr>"

definition result_error :: "'a result \<Rightarrow> goerr option" where
  "result_error r = (case r of Inl e \<Rightarrow> Some e | Inr _ \<Rightarrow> None)"

definition run_manifest_body ::
  "('w, 'p, 'c) app_env \<Rightarrow> nat \<Rightarrow> nat option list list \<Rightarrow> string \<Rightarrow> 'w app \<Rightarrow> (RunReport result \<times> 'w app) option" where
  "run_manifest_body ax n scheds manifestPath a =
     (case in_app (prepare_run ax manifestPath) a of
        (Inl e, a) \<Rightarrow> Some (Inl e, a)
      | (Inr (namespace, registry, cfg, plan), a) \<Rightarrow>
          (case acquireLeaseIfEnabled ax n namespace (ep_TaskID plan) a of
             (None, a) \<Rightarrow> None
           | (Some (Inl e), a) \<Rightarrow> Some (Inl e, a)
           | (Some (Inr lease), a) \<Rightarrow>
               (case run_leased ax scheds namespace registry cfg plan (ap_host a) of
                  None \<Rightarrow> None
                | Some (r, h) \<Rightarrow> Some (r, release_lease ax lease (a\<lparr>ap_host := h\<rparr>)))))"

definition RunManifestReport ::
  "('w, 'p, 'c) app_env \<Rightarrow> nat \<Rightarrow> nat option list list \<Rightarrow> string \<Rightarrow> 'w app \<Rightarrow> (RunReport result \<times> 'w app) option" where
  "RunManifestReport ax n scheds manifestPath a =
     map_option (\<lambda>(r, a). (r, audited ax ActionRun manifestPath (result_error r) a)) (run_manifest_body ax n scheds manifestPath a)"

section \<open>Validating, replaying, comparing\<close>

definition validate_body :: "('w, 'p, 'c) app_env \<Rightarrow> string \<Rightarrow> 'w host \<Rightarrow> goerr option \<times> 'w host" where
  "validate_body ax manifestPath h =
     (case read_file (ax_host ax) manifestPath h of (file, h) \<Rightarrow>
      case LoadManifest (\<lambda>_. file) (ax_yaml ax) manifestPath of
        Inl e \<Rightarrow> (Some (WrapErr ''validate manifest: '' e []), h)
      | Inr manifest \<Rightarrow>
          (case RBACPolicyFromManifest manifest of
             Inl e \<Rightarrow> (Some (WrapErr ''validate manifest policy: '' e []), h)
           | Inr policy \<Rightarrow> (authorize (ax_getenv ax) policy ActionValidate, h)))"

definition app_ValidateManifest :: "('w, 'p, 'c) app_env \<Rightarrow> string \<Rightarrow> 'w app \<Rightarrow> goerr option \<times> 'w app" where
  "app_ValidateManifest ax manifestPath a =
     (case in_app (validate_body ax manifestPath) a of (err, a) \<Rightarrow> (err, audited ax ActionValidate manifestPath err a))"

text \<open>The result is the text for the writer.\<close>

definition replay_body :: "('w, 'p, 'c) app_env \<Rightarrow> string \<Rightarrow> 'w host \<Rightarrow> string result \<times> 'w host" where
  "replay_body ax tracePath h =
     (case authorize (ax_getenv ax) DefaultPolicy ActionReplay of
        Some e \<Rightarrow> (Inl e, h)
      | None \<Rightarrow>
          (case LoadFromFile (ax_host ax) tracePath h of
             (Inl e, h) \<Rightarrow> (Inl (WrapErr ''load trace: '' e []), h)
           | (Inr tr, h) \<Rightarrow>
               (let registry = newGenericRegistry (app_agent ax) (uniqueAgentIDs tr)
                in case ReplayAndCompare tr (30 * second) (\<lambda>a. registry_get a registry) \<lparr>dw_attempts = (\<lambda>_. Map.empty), dw_env = h\<rparr> of
                     (Some e, w) \<Rightarrow> (Inl (WrapErr ''replay compare failed: '' e []), dw_env w)
                   | (None, w) \<Rightarrow>
                       (Inr (''replay matched recorded outputs for '' @ decimal (length (t_Steps tr)) @ '' step(s)'' @ [newline]), dw_env w))))"

definition ReplayTrace :: "('w, 'p, 'c) app_env \<Rightarrow> string \<Rightarrow> 'w app \<Rightarrow> string result \<times> 'w app" where
  "ReplayTrace ax tracePath a =
     (case in_app (replay_body ax tracePath) a of (r, a) \<Rightarrow> (r, audited ax ActionReplay tracePath (result_error r) a))"

text \<open>The text for the writer and the error.\<close>

definition DebugTrace :: "('w, 'p, 'c) app_env \<Rightarrow> string \<Rightarrow> string \<Rightarrow> 'w app \<Rightarrow> (string \<times> goerr option) \<times> 'w app" where
  "DebugTrace ax expectedPath actualPath a =
     (case in_app (LoadFromFile (ax_host ax) expectedPath) a of
        (Inl e, a) \<Rightarrow> (([], Some e), a)
      | (Inr expected, a) \<Rightarrow>
          (case in_app (LoadFromFile (ax_host ax) actualPath) a of
             (Inl e, a) \<Rightarrow> (([], Some e), a)
           | (Inr actual, a) \<Rightarrow>
               (let divs = Compare expected actual
                in ((FormatDivergence divs @ [newline],
                     if divs \<noteq> [] then Some (Errorf (''trace divergence found: '' @ decimal (length divs) @ '' issue(s)'')) else None), a))))"

end
