(* ===== verification/AppReport.thy ===== *)
theory AppReport
  imports AppRun
begin

text \<open>
  What a run prints: \<open>RunManifest\<close> and \<open>emitStructuredLogs\<close> of \<open>src/internal/app/run.go\<close>, with the text of a
  \<open>time.Duration\<close>. The text for the writer is collected; an error of the writer is ignored by the code.
\<close>

section \<open>Durations\<close>

text \<open>\<open>fmtFrac\<close> and \<open>fmtInt\<close> of package \<open>time\<close>: \<open>v\<close> divided by \<open>10^prec\<close>, without the zeros at the end.\<close>

definition fraction_text :: "nat \<Rightarrow> nat \<Rightarrow> string" where
  "fraction_text v prec =
     (let ds = strip_zeros (fmt_pad prec (v mod 10 ^ prec))
      in decimal (v div 10 ^ prec) @ (if ds = [] then [] else ''.'' @ ds))"

definition magnitude_text :: "nat \<Rightarrow> string" where
  "magnitude_text u =
     (if u = 0 then ''0s''
      else if u < 1000 then fraction_text u 0 @ ''ns''
      else if u < 1000000 then fraction_text u 3 @ micro_sign @ ''s''
      else if u < 1000000000 then fraction_text u 6 @ ''ms''
      else
        (let m = u div 60000000000;
             sec = fraction_text (u mod 60000000000) 9 @ ''s''
         in if m = 0 then sec
            else if m div 60 = 0 then decimal (m mod 60) @ ''m'' @ sec
            else decimal (m div 60) @ ''h'' @ decimal (m mod 60) @ ''m'' @ sec))"

definition duration_text :: "duration \<Rightarrow> string" where
  "duration_text d = (if d < 0 then ''-'' else []) @ magnitude_text (nat \<bar>d\<bar>)"

section \<open>The structured log\<close>

text \<open>A \<open>map[string]any\<close> is written with its keys in order.\<close>

definition log_entry :: "string \<Rightarrow> AgentResult \<Rightarrow> string \<Rightarrow> jval" where
  "log_entry namespace r ts =
     (let errText = error_string (ar_Err r);
          status = (if ar_Err r = None then ''success'' else ''error'')
      in JObj ([(''agent_id'', JStr (inv_AgentID (ar_Invocation r))), (''attempt'', JInt 1),
                (''duration_ms'', JInt (milliseconds (ao_Duration (ar_Output r))))]
               @ (if errText = [] then [] else [(''error'', JStr errText)])
               @ [(''level'', JStr ''info''), (''namespace'', JStr namespace),
                  (''request_id'', JStr (ai_RequestID (inv_Input (ar_Invocation r)))), (''status'', JStr status),
                  (''task_id'', JStr (ai_TaskID (inv_Input (ar_Invocation r)))), (''ts'', JStr ts)]))"

fun emit_loop :: "'w host_env \<Rightarrow> string \<Rightarrow> AgentResult list \<Rightarrow> 'w host \<Rightarrow> string \<times> 'w host" where
  "emit_loop he namespace [] h = ([], h)"
| "emit_loop he namespace (r # rs) h =
     (case host_now he h of (now, h) \<Rightarrow>
      let line = (case json_Marshal (log_entry namespace r (format_time now)) of Inl _ \<Rightarrow> [] | Inr b \<Rightarrow> b @ [newline])
      in case emit_loop he namespace rs h of (out, h) \<Rightarrow> (line @ out, h))"

definition emitStructuredLogs :: "'w host_env \<Rightarrow> RunReport \<Rightarrow> 'w host \<Rightarrow> string \<times> 'w host" where
  "emitStructuredLogs he report h = emit_loop he (rr_Namespace report) (rr_Results report) h"

section \<open>The summary\<close>

definition result_line :: "AgentResult \<Rightarrow> string" where
  "result_line r =
     ''- '' @ inv_ID (ar_Invocation r) @ '' ('' @ inv_AgentID (ar_Invocation r) @ ''): ''
     @ (case ar_Err r of
          Some e \<Rightarrow> ''error='' @ err_text e
        | None \<Rightarrow> ''ok duration='' @ duration_text (ao_Duration (ar_Output r))) @ [newline]"

definition failed_results :: "AgentResult list \<Rightarrow> nat" where
  "failed_results rs = length (filter (\<lambda>r. ar_Err r \<noteq> None) rs)"

definition metrics_text :: "Snapshot \<Rightarrow> string" where
  "metrics_text m =
     ''metrics total_invocations='' @ itoa (sn_TotalInvocations m) @ '' errors='' @ itoa (sn_ErrorInvocations m)
     @ '' retries='' @ itoa (sn_RetryAttempts m) @ [newline]
     @ (if 0 < sn_CircuitOpens m then ''metrics circuit_opens='' @ itoa (sn_CircuitOpens m) @ [newline] else [])"

definition pipeline_failed :: "nat \<Rightarrow> goerr" where
  "pipeline_failed n = Errorf (''pipeline completed with '' @ decimal n @ '' failed invocation(s)'')"

definition RunManifest ::
  "('w, 'p, 'c) app_env \<Rightarrow> nat \<Rightarrow> nat option list list \<Rightarrow> string \<Rightarrow> 'w app \<Rightarrow> ((string \<times> goerr option) \<times> 'w app) option" where
  "RunManifest ax n scheds manifestPath a =
     (case RunManifestReport ax n scheds manifestPath a of
        None \<Rightarrow> None
      | Some (Inl e, a) \<Rightarrow> Some (([], Some e), a)
      | Some (Inr report, a) \<Rightarrow>
          (case in_app (emitStructuredLogs (ax_host ax) report) a of (logs, a) \<Rightarrow>
           let failed = failed_results (rr_Results report);
               out = ''router executed '' @ decimal (length (rr_Results report)) @ '' invocation(s) from '' @ manifestPath
                     @ '' (namespace='' @ rr_Namespace report @ '')'' @ [newline]
                     @ concat (map result_line (rr_Results report)) @ logs @ metrics_text (rr_Metrics report)
           in Some ((out, if 0 < failed then Some (pipeline_failed failed) else None), a)))"

end
