(* ===== verification/Scaffold.thy ===== *)
theory Scaffold
  imports GoFiles GoPaths GoUtf8 GoCsv Manifest
begin

text \<open>
  The project generator: \<open>src/internal/scaffold/scaffold.go\<close>, with the text of the files it writes. The
  manifest it writes is accepted by the validation, for every pipeline name that is a namespace.
\<close>

section \<open>Text\<close>

definition lines_text :: "string list \<Rightarrow> string" where
  "lines_text ls = concat (map (\<lambda>l. l @ [newline]) ls)"

definition tab :: string where "tab = byte_string [9]"

text \<open>\<open>strings.Split\<close> at a separator of one byte.\<close>

fun split_at :: "char \<Rightarrow> string \<Rightarrow> string \<Rightarrow> string list" where
  "split_at c acc [] = [rev acc]"
| "split_at c acc (x # s) = (if x = c then rev acc # split_at c [] s else split_at c (x # acc) s)"

text \<open>\<open>strings.ToUpper\<close> of one byte; a byte that is not a character by itself becomes the replacement character.\<close>

definition upper_byte :: "char \<Rightarrow> string" where
  "upper_byte c =
     (if 128 \<le> (of_char c :: nat) then replacement
      else if 97 \<le> (of_char c :: nat) \<and> (of_char c :: nat) \<le> 122 then [char_of ((of_char c :: nat) - 32)]
      else [c])"

definition toFuncName :: "string \<Rightarrow> string" where
  "toFuncName agentID =
     (let out = concat (map (\<lambda>p. case p of [] \<Rightarrow> [] | c # cs \<Rightarrow> upper_byte c @ cs) (split_at CHR ''_'' [] agentID))
      in if out = [] then ''GeneratedAgent'' else out)"

section \<open>The files\<close>

definition agent_lines :: "string \<Rightarrow> string list" where
  "agent_lines agentID =
     [''  - id: '' @ agentID, ''    retry:'', ''      max_attempts: 1'', ''      backoff: linear'', ''    circuit_breaker:'',
      ''      failure_threshold: 3'', ''      reset_timeout: 30s'', ''      probe_timeout: 5s'']"

definition manifest_text :: "string \<Rightarrow> string" where
  "manifest_text pipelineName =
     (let agentA = pipelineName @ ''_step_a''; agentB = pipelineName @ ''_step_b''
      in lines_text
        ([''router:'', ''  worker_pool_size: 4'', ''  channel_buffer: 16'', ''  default_timeout: 10s'', ''  namespace: '' @ pipelineName,
          ''  rbac:'', ''    run_roles: [operator, admin]'', ''    validate_roles: [viewer, operator, admin]'',
          ''    replay_roles: [operator, admin]'', [], ''agents:'']
         @ agent_lines agentA @ agent_lines agentB
         @ [[], ''pipeline:'', ''  - step: '' @ agentA, ''  - step: '' @ agentB, ''    depends_on: '' @ agentA]))"

definition agentStub :: "string \<Rightarrow> string" where
  "agentStub agentID = lines_text
     [''package agents'', [], ''import ('', tab @ fmt_q ''context'', [], tab @ fmt_q ''github.com/your-org/fluxroute/pkg/agentfunc'', '')'', [],
      ''func '' @ toFuncName agentID @ ''(ctx context.Context, input agentfunc.AgentInput) (agentfunc.AgentOutput, error) {'',
      tab @ ''select {'', tab @ ''case <-ctx.Done():'', tab @ tab @ ''return agentfunc.AgentOutput{}, ctx.Err()'', tab @ ''default:'', tab @ ''}'',
      tab @ ''return agentfunc.AgentOutput{RequestID: input.RequestID, Payload: input.Payload}, nil'', ''}'']"

definition readme_text :: "string \<Rightarrow> string" where
  "readme_text pipelineName = lines_text
     [''# '' @ pipelineName @ '' pipeline scaffold'', [], ''Run with:'', [], byte_string [96, 96, 96] @ ''bash'',
      ''fluxroute-cli run manifests/pipeline.yaml'', byte_string [96, 96, 96]]"

section \<open>Generate\<close>

definition wrap_fault :: "string \<Rightarrow> goerr option \<times> 'h \<Rightarrow> goerr option \<times> 'h" where
  "wrap_fault msg r = (case r of (Some e, h) \<Rightarrow> (Some (WrapErr msg e []), h) | (None, h) \<Rightarrow> (None, h))"

text \<open>The steps one after the other, up to the first that fails.\<close>

fun run_steps :: "('h \<Rightarrow> goerr option \<times> 'h) list \<Rightarrow> 'h \<Rightarrow> goerr option \<times> 'h" where
  "run_steps [] h = (None, h)"
| "run_steps (f # fs) h = (case f h of (Some e, h) \<Rightarrow> (Some e, h) | (None, h) \<Rightarrow> run_steps fs h)"

definition scaffold_files :: "string \<Rightarrow> string \<Rightarrow> (string \<times> string \<times> bytes) list" where
  "scaffold_files targetDir pipelineName =
     (let agentA = pipelineName @ ''_step_a''; agentB = pipelineName @ ''_step_b''
      in [(''write manifest: '', path_join [targetDir, ''manifests'', ''pipeline.yaml''], manifest_text pipelineName),
          (''write agent A stub: '', path_join [targetDir, ''agents'', agentA @ ''.go''], agentStub agentA),
          (''write agent B stub: '', path_join [targetDir, ''agents'', agentB @ ''.go''], agentStub agentB),
          (''write scaffold README: '', path_join [targetDir, ''README.md''], readme_text pipelineName)])"

definition pipeline_name :: "string \<Rightarrow> string" where
  "pipeline_name raw = (if trim_space raw = [] then ''sample'' else raw)"

definition Generate :: "'w host_env \<Rightarrow> string \<Rightarrow> string \<Rightarrow> 'w host \<Rightarrow> goerr option \<times> 'w host" where
  "Generate he targetDir pipelineName h =
     (if trim_space targetDir = [] then (Some (Errorf ''target directory is empty''), h)
      else run_steps
        ([\<lambda>h. wrap_fault ''mkdir agents: '' (mkdir_all he (path_join [targetDir, ''agents'']) h),
          \<lambda>h. wrap_fault ''mkdir manifests: '' (mkdir_all he (path_join [targetDir, ''manifests'']) h)]
         @ map (\<lambda>(msg, path, b) h. wrap_fault msg (write_file he path b h)) (scaffold_files targetDir (pipeline_name pipelineName))) h)"

section \<open>The generated manifest\<close>

text \<open>What the manifest text says.\<close>

definition scaffold_agent :: "string \<Rightarrow> AgentBinding" where
  "scaffold_agent agentID = \<lparr>ab_ID = agentID, ab_Retry = \<lparr>rtc_MaxAttempts = 1, rtc_Backoff = ''linear''\<rparr>,
     ab_CircuitBreaker = \<lparr>cbc_FailureThreshold = 3, cbc_ResetTimeout = ''30s'', cbc_ProbeTimeout = ''5s''\<rparr>\<rparr>"

definition scaffold_manifest :: "string \<Rightarrow> Manifest" where
  "scaffold_manifest pipelineName =
     (let agentA = pipelineName @ ''_step_a''; agentB = pipelineName @ ''_step_b''
      in \<lparr>mf_Router = \<lparr>rs_WorkerPoolSize = 4, rs_ChannelBuffer = 16, rs_DefaultTimeout = ''10s'', rs_Namespace = pipelineName,
            rs_RBAC = \<lparr>rb_RunRoles = [''operator'', ''admin''], rb_ValidateRoles = [''viewer'', ''operator'', ''admin''],
              rb_ReplayRoles = [''operator'', ''admin''], rb_AdminRoles = []\<rparr>\<rparr>,
          mf_Agents = [scaffold_agent agentA, scaffold_agent agentB],
          mf_Pipeline = [\<lparr>ps_Step = agentA, ps_DependsOn = []\<rparr>, \<lparr>ps_Step = agentB, ps_DependsOn = agentA\<rparr>]\<rparr>)"

lemma timeouts: "\<exists>d. parse_duration ''30s'' = Inr d" "\<exists>d. parse_duration ''5s'' = Inr d"
  by (simp_all add: parse_duration_def split_sign_def duration_loop.simps duration_part_def unit_char_def is_digit_def
      digit_val_def unit_map_def micro_sign_def greek_mu_def byte_string_def Let_def)

lemma scaffold_manifest_valid:
  assumes "namespacePattern name"
  shows "ValidateManifest (scaffold_manifest name) = None"
proof -
  have "ParseRole ''operator'' = Inr ''operator''" "ParseRole ''admin'' = Inr ''admin''" "ParseRole ''viewer'' = Inr ''viewer''"
    using ParseRole_fixed [of RoleOperator] ParseRole_fixed [of RoleAdmin] ParseRole_fixed [of RoleViewer]
    by (simp_all add: known_role_def role_names)
  moreover have "acyclic {(name @ ''_step_a'', name @ ''_step_b'')}" by (rule acyclicI) (auto simp: trancl_insert)
  ultimately show ?thesis
    unfolding ValidateManifest_None
    by (simp add: scaffold_manifest_def scaffold_agent_def manifest_ok_def rbac_roles_def agent_ok_def timeout_ok_def
        pipeline_ok_def pipeline_edges_def Let_def timeouts assms Normalize_fixed)
qed

section \<open>The four files are four\<close>

definition base_name :: "string \<Rightarrow> string" where
  "base_name p = rev (takeWhile (\<lambda>c. c \<noteq> CHR ''/'') (rev p))"

lemma split_slash_last:
  "CHR ''/'' \<notin> set x \<Longrightarrow> split_slash acc (a @ CHR ''/'' # x) = butlast (split_slash acc (a @ ''/'')) @ [x]"
proof (induction a arbitrary: acc)
  case Nil
  have "split_slash ac x = [rev ac @ x]" if "CHR ''/'' \<notin> set x" for ac
    using that by (induction x arbitrary: ac) auto
  with Nil show ?case by simp
next
  case (Cons c a)
  have "split_slash ac s \<noteq> []" for ac s by (induction s arbitrary: ac) auto
  with Cons show ?case by auto
qed

lemma join_slash_snoc: "join_slash (ps @ [x]) = (if ps = [] then x else join_slash ps @ ''/'' @ x)"
  by (induction ps rule: join_slash.induct) auto

lemma base_name_clean:
  assumes "CHR ''/'' \<notin> set x" and "x \<noteq> []" and "x \<noteq> ''.''" and "x \<noteq> ''..''"
  shows "base_name (path_clean (a @ CHR ''/'' # x)) = x"
proof -
  have "\<forall>c \<in> set (rev x). c \<noteq> CHR ''/''" using assms(1) by auto
  then have "takeWhile (\<lambda>c. c \<noteq> CHR ''/'') (rev x) = rev x" "takeWhile (\<lambda>c. c \<noteq> CHR ''/'') (rev x @ CHR ''/'' # rev p) = rev x" for p
    by (simp add: takeWhile_eq_all_conv, subst takeWhile_append2) simp_all
  then have base: "base_name (p @ CHR ''/'' # x) = x" "base_name x = x" for p
    by (simp_all only: base_name_def rev_append rev.simps append_assoc append.simps rev_rev_ident)
  define r where "r = has_prefix (a @ CHR ''/'' # x) ''/''"
  define out where "out = foldl (clean_step r) [] (butlast (split_slash [] (a @ ''/'')))"
  have f: "foldl (clean_step r) [] (split_slash [] (a @ CHR ''/'' # x)) = x # out"
    using assms unfolding split_slash_last [OF assms(1)] out_def by (simp add: clean_step_def)
  have "path_clean (a @ CHR ''/'' # x) = (if r then CHR ''/'' # join_slash (rev out @ [x]) else join_slash (rev out @ [x]))"
    unfolding path_clean_def Let_def r_def [symmetric] f using assms(2) by (simp add: join_slash_snoc)
  then show ?thesis
    using base(1) [of "[]"] base(1) [of "CHR ''/'' # join_slash (rev out)"] base(1) [of "join_slash (rev out)"] base(2)
    by (auto simp: join_slash_snoc)
qed

lemma base_name_join:
  assumes "CHR ''/'' \<notin> set x" and "x \<noteq> []" and "x \<noteq> ''.''" and "x \<noteq> ''..''" and "dir \<noteq> []"
  shows "base_name (path_join [dir, x]) = x" and "base_name (path_join [dir, sub, x]) = x"
proof -
  show "base_name (path_join [dir, x]) = x" using assms base_name_clean [OF assms(1-4), of dir] by (simp add: path_join_def)
  show "base_name (path_join [dir, sub, x]) = x"
    using assms base_name_clean [OF assms(1-4), of "dir @ ''/'' @ sub"] by (simp add: path_join_def)
qed

lemma scaffold_paths_differ:
  assumes "CHR ''/'' \<notin> set name" and "dir \<noteq> []"
  shows "map (base_name \<circ> fst \<circ> snd) (scaffold_files dir name) =
    [''pipeline.yaml'', name @ ''_step_a.go'', name @ ''_step_b.go'', ''README.md'']"
    and "distinct (map (fst \<circ> snd) (scaffold_files dir name))"
proof -
  show bases: "map (base_name \<circ> fst \<circ> snd) (scaffold_files dir name) =
    [''pipeline.yaml'', name @ ''_step_a.go'', name @ ''_step_b.go'', ''README.md'']"
    using assms base_name_join(2) [of "name @ ''_step_a.go''" dir "''agents''"] base_name_join(2) [of "name @ ''_step_b.go''" dir "''agents''"]
      base_name_join(2) [of "''pipeline.yaml''" dir "''manifests''"] base_name_join(1) [of "''README.md''" dir]
    by (auto simp: scaffold_files_def Let_def append_eq_Cons_conv)
  have ends: "p \<noteq> q" if "last p \<noteq> last q" for p q :: string using that by auto
  have "name @ ''_step_a.go'' \<noteq> ''pipeline.yaml''" "name @ ''_step_b.go'' \<noteq> ''pipeline.yaml''"
    "name @ ''_step_a.go'' \<noteq> ''README.md''" "name @ ''_step_b.go'' \<noteq> ''README.md''"
    by (rule ends, simp)+
  then have "distinct [''pipeline.yaml'', name @ ''_step_a.go'', name @ ''_step_b.go'', ''README.md'']" by auto
  then have "distinct (map base_name (map (fst \<circ> snd) (scaffold_files dir name)))"
    using bases by (simp add: comp_assoc)
  then show "distinct (map (fst \<circ> snd) (scaffold_files dir name))" by (simp only: distinct_map)
qed

lemma write_file_free: "fault_free he \<Longrightarrow> write_file he p b h = (None, h\<lparr>h_files := (h_files h)(p \<mapsto> b)\<rparr>)"
  by (simp add: write_file_def create_file_def write_end_def host_fault_free)

lemma write_steps_free:
  assumes "fault_free he"
  shows "run_steps (map (\<lambda>(msg, path, b) h. wrap_fault msg (write_file he path b h)) fs) h
    = (None, h\<lparr>h_files := h_files h ++ map_of (rev (map snd fs))\<rparr>)"
  by (induction fs arbitrary: h) (auto simp: wrap_fault_def write_file_free [OF assms] split: prod.splits)

lemma Generate_free:
  assumes "fault_free he" and "trim_space dir \<noteq> []"
  shows "Generate he dir name h = (None, h\<lparr>h_files := h_files h ++ map_of (rev (map snd (scaffold_files dir (pipeline_name name))))\<rparr>)"
proof -
  have "wrap_fault msg (mkdir_all he d h) = (None, h)" for msg d by (simp add: wrap_fault_def mkdir_all_def host_fault_free assms(1))
  with assms show ?thesis by (simp add: Generate_def write_steps_free)
qed


definition read_scaffold :: "bytes \<Rightarrow> Manifest result" where
  "read_scaffold b = (if b = manifest_text ''myflow'' then Inr (scaffold_manifest ''myflow'') else Inl (Errorf ''yaml''))"


text \<open>
  The name of the generated function is not an identifier when the pipeline name has a hyphen, which
  a namespace may have and the example of the command line has.
\<close>

lemma hyphen_breaks_stub: "toFuncName (''customer-support'' @ ''_step_a'') = ''Customer-supportStepA''"
  by code_simp

end
