(* ===== verification/AppServer.thy ===== *)
theory AppServer
  imports AppReport ControlPlane Scaffold
begin

text \<open>
  The HTTP interface of the router (\<open>RouterHandler\<close> of \<open>src/internal/app/server.go\<close>) and \<open>ScaffoldProject\<close> of
  \<open>tools.go\<close>. A request and a response are those of the control plane. A handler gives \<open>None\<close> when the run
  it starts does not come to its end under the given schedules.
\<close>

type_synonym 'w app_handler = "request \<Rightarrow> 'w app \<Rightarrow> (response \<times> 'w app) option"

definition ScaffoldProject :: "('w, 'p, 'c) app_env \<Rightarrow> string \<Rightarrow> string \<Rightarrow> 'w app \<Rightarrow> (string \<times> goerr option) \<times> 'w app" where
  "ScaffoldProject ax targetDir pipelineName a =
     (case in_app (Generate (ax_host ax) targetDir pipelineName) a of
        (Some e, a) \<Rightarrow> (([], Some e), a)
      | (None, a) \<Rightarrow> ((''scaffold generated at '' @ targetDir @ [newline], None), a))"

definition default_manifest :: string where
  "default_manifest = ''configs/router.example.yaml''"

definition manifest_request_type :: string where
  "manifest_request_type = ''struct { ManifestPath string '' @ fmt_q (''json:'' @ fmt_q ''manifest_path'') @ '' }''"

definition trace_request_type :: string where
  "trace_request_type = ''struct { TracePath string '' @ fmt_q (''json:'' @ fmt_q ''trace_path'') @ '' }''"

text \<open>A POST with one field in its body.\<close>

definition post_field ::
  "string \<Rightarrow> string \<Rightarrow> (string \<Rightarrow> 'w app \<Rightarrow> (response \<times> 'w app) option) \<Rightarrow> 'w app_handler" where
  "post_field typ fld k r a =
     (if rq_Method r \<noteq> ''POST'' then Some (method_not_allowed, a)
      else
        (case (case rq_Body r of Inl e \<Rightarrow> Inl e | Inr v \<Rightarrow> decode_struct typ [(fld, KString)] v) of
           Inl err \<Rightarrow> Some (http_Error (err_text err) 400, a)
         | Inr req \<Rightarrow> k (get_string req fld) a))"

definition handle_run :: "('w, 'p, 'c) app_env \<Rightarrow> nat \<Rightarrow> nat option list list \<Rightarrow> 'w app_handler" where
  "handle_run ax n scheds =
     post_field manifest_request_type ''manifest_path'' (\<lambda>path a.
       case RunManifestReport ax n scheds (if path = [] then default_manifest else path) a of
         None \<Rightarrow> None
       | Some (Inl e, a) \<Rightarrow> Some (http_Error (err_text e) 400, a)
       | Some (Inr _, a) \<Rightarrow> Some (status_only 202, a))"

definition handle_validate :: "('w, 'p, 'c) app_env \<Rightarrow> 'w app_handler" where
  "handle_validate ax =
     post_field manifest_request_type ''manifest_path'' (\<lambda>path a.
       case app_ValidateManifest ax (if path = [] then default_manifest else path) a of
         (Some e, a) \<Rightarrow> Some (http_Error (err_text e) 400, a)
       | (None, a) \<Rightarrow> Some (status_only 200, a))"

definition handle_replay :: "('w, 'p, 'c) app_env \<Rightarrow> 'w app_handler" where
  "handle_replay ax =
     post_field trace_request_type ''trace_path'' (\<lambda>path a.
       if path = [] then Some (http_Error ''trace_path is required'' 400, a)
       else
         (case ReplayTrace ax path a of
            (Inl e, a) \<Rightarrow> Some (http_Error (err_text e) 400, a)
          | (Inr out, a) \<Rightarrow> Some (plain_text out, a)))"

definition router_register :: "string \<Rightarrow> 'w app_handler \<Rightarrow> (string \<times> 'w app_handler) list" where
  "router_register path h = [(path, h), (''/v1'' @ path, h)]"

definition router_mux :: "('w, 'p, 'c) app_env \<Rightarrow> nat \<Rightarrow> nat option list list \<Rightarrow> (string \<times> 'w app_handler) list" where
  "router_mux ax n scheds =
     router_register ''/healthz'' (\<lambda>r a. Some (plain_text ''ok'', a)) @ router_register ''/readyz'' (\<lambda>r a. Some (plain_text ''ready'', a))
     @ router_register ''/run'' (handle_run ax n scheds) @ router_register ''/validate'' (handle_validate ax)
     @ router_register ''/replay'' (handle_replay ax)"

definition RouterHandler :: "('w, 'p, 'c) app_env \<Rightarrow> nat \<Rightarrow> nat option list list \<Rightarrow> 'w app_handler" where
  "RouterHandler ax n scheds r a =
     (case map_of (router_mux ax n scheds) (rq_Path r) of
        Some h \<Rightarrow> h r a
      | None \<Rightarrow> Some (http_Error ''404 page not found'' 404, a))"

end
