(* ===== verification/Cli.thy ===== *)
theory Cli
  imports AppServer
begin

text \<open>
  The programs: \<open>runCLI\<close> of \<open>src/cmd/cli/main.go\<close> and \<open>main\<close> of \<open>src/cmd/router/main.go\<close>, as functions of the
  arguments that give the standard output, the standard error and the exit status.
\<close>

section \<open>Output\<close>

definition line :: "string \<Rightarrow> string" where
  "line s = s @ [newline]"

text \<open>\<open>json.NewEncoder(out).Encode\<close>, whose error is dropped.\<close>

definition encode_line :: "jval \<Rightarrow> string" where
  "encode_line v = (case json_Marshal v of Inl _ \<Rightarrow> [] | Inr b \<Rightarrow> line b)"

definition cliResult :: "string \<Rightarrow> string \<Rightarrow> string \<Rightarrow> jval \<Rightarrow> string \<Rightarrow> jval" where
  "cliResult command status message data err =
     JObj ([(''command'', JStr command), (''status'', JStr status)]
           @ (if message = [] then [] else [(''message'', JStr message)]) @ [(''data'', data)]
           @ (if err = [] then [] else [(''error'', JStr err)]))"

definition exited :: "string \<Rightarrow> string \<Rightarrow> nat \<Rightarrow> outcome" where
  "exited out err code = \<lparr>oc_stdout = out, oc_stderr = err, oc_status = code\<rparr>"

text \<open>\<open>ok\<close> and \<open>fail\<close>: what they print; their results are 0 and 1.\<close>

definition cli_ok :: "string \<Rightarrow> bool \<Rightarrow> string \<Rightarrow> jval \<Rightarrow> string" where
  "cli_ok command jsonOut message data =
     (if \<not> jsonOut then (if message \<noteq> [] then line message else [])
      else encode_line (cliResult command ''ok'' message data []))"

definition cli_fail :: "bool \<Rightarrow> string \<Rightarrow> string \<Rightarrow> goerr \<Rightarrow> string" where
  "cli_fail jsonOut command path err =
     (if jsonOut then encode_line (cliResult command ''error'' [] (JObj [(''path'', JStr path)]) (err_text err))
      else line (''cli '' @ command @ '' failed'' @ (if path = [] then [] else '' for '' @ path) @ '': '' @ err_text err)
           @ line (''use '' @ byte_string [96] @ ''fluxroute-cli --help'' @ byte_string [96] @ '' for command examples''))"

definition usage :: string where
  "usage = concat (map line
     [''FluxRoute CLI'', [], ''Usage:'', ''  fluxroute-cli [--json] <command> [args]'', [], ''Commands:'',
      ''  run [manifest_path]                    Execute a manifest'',
      ''  validate [manifest_path]               Validate manifest only'',
      ''  replay [trace_path]                    Replay a trace and verify outputs'',
      ''  audit-export [jsonl_path] [csv_path]   Export audit JSONL to CSV'',
      ''  scaffold [target_dir] [pipeline_name]  Generate a starter pipeline'',
      ''  debug <expected_trace> <actual_trace>  Show replay divergence'',
      ''  version                                Print CLI version'', [], ''Examples:'',
      ''  fluxroute-cli run configs/router.example.yaml'', ''  fluxroute-cli --json validate configs/router.example.yaml'',
      ''  fluxroute-cli replay trace.json'', ''  fluxroute-cli audit-export audit.log audit.csv'',
      ''  fluxroute-cli scaffold ./generated customer-support'', ''  fluxroute-cli debug expected.json actual.json''])"

definition pick :: "string list \<Rightarrow> string \<Rightarrow> nat \<Rightarrow> string" where
  "pick args fallback idx = (if idx < length args \<and> trim_space (args ! idx) \<noteq> [] then args ! idx else fallback)"

section \<open>The report as JSON\<close>

definition stats_json :: "AgentStats \<Rightarrow> jval" where
  "stats_json st = JObj [(''Successes'', JInt (st_Successes st)), (''Errors'', JInt (st_Errors st)), (''Retries'', JInt (st_Retries st)),
     (''CircuitOpens'', JInt (st_CircuitOpens st)), (''TotalDuration'', JInt (st_TotalDuration st))]"

definition snapshot_json :: "Snapshot \<Rightarrow> jval" where
  "snapshot_json m = JObj [(''TotalInvocations'', JInt (sn_TotalInvocations m)), (''ErrorInvocations'', JInt (sn_ErrorInvocations m)),
     (''RetryAttempts'', JInt (sn_RetryAttempts m)), (''CircuitOpens'', JInt (sn_CircuitOpens m)),
     (''ByAgent'', JObj (map (\<lambda>a. (a, stats_json (Mapping.lookup_default zero_stats (sn_ByAgent m) a))) (Mapping.ordered_keys (sn_ByAgent m))))]"

definition run_json :: "string \<Rightarrow> RunReport \<Rightarrow> jval" where
  "run_json path report = JObj [(''failed'', JInt (int (failed_results (rr_Results report)))),
     (''invocations'', JInt (int (length (rr_Results report)))), (''manifest_path'', JStr path),
     (''metrics'', snapshot_json (rr_Metrics report)), (''namespace'', JStr (rr_Namespace report))]"

section \<open>The commands\<close>

type_synonym 'w cli_step = "'w app \<Rightarrow> (outcome \<times> 'w app) option"

definition cli_run :: "('w, 'p, 'c) app_env \<Rightarrow> nat \<Rightarrow> nat option list list \<Rightarrow> bool \<Rightarrow> string list \<Rightarrow> 'w cli_step" where
  "cli_run ax n scheds jsonOut rest a =
     (let path = pick rest ''configs/router.example.yaml'' 0 in
      if jsonOut then
        (case RunManifestReport ax n scheds path a of
           None \<Rightarrow> None
         | Some (Inl e, a) \<Rightarrow> Some (exited [] (cli_fail jsonOut ''run'' path e) 1, a)
         | Some (Inr report, a) \<Rightarrow> Some (exited (cli_ok ''run'' jsonOut ''run completed'' (run_json path report)) [] 0, a))
      else
        (case RunManifest ax n scheds path a of
           None \<Rightarrow> None
         | Some ((out, Some e), a) \<Rightarrow> Some (exited out (cli_fail jsonOut ''run'' path e) 1, a)
         | Some ((out, None), a) \<Rightarrow> Some (exited out [] 0, a)))"

definition cli_validate :: "('w, 'p, 'c) app_env \<Rightarrow> bool \<Rightarrow> string list \<Rightarrow> 'w cli_step" where
  "cli_validate ax jsonOut rest a =
     (let path = pick rest ''configs/router.example.yaml'' 0 in
      case app_ValidateManifest ax path a of
        (Some e, a) \<Rightarrow> Some (exited [] (cli_fail jsonOut ''validate'' path e) 1, a)
      | (None, a) \<Rightarrow>
          Some (exited (if jsonOut then cli_ok ''validate'' jsonOut ''manifest is valid''
                                     (JObj [(''manifest_path'', JStr path), (''valid'', JBool True)])
                        else line (''manifest is valid: '' @ path)) [] 0, a))"

definition cli_replay :: "('w, 'p, 'c) app_env \<Rightarrow> bool \<Rightarrow> string list \<Rightarrow> 'w cli_step" where
  "cli_replay ax jsonOut rest a =
     (let path = pick rest ''trace.json'' 0 in
      case ReplayTrace ax path a of
        (Inl e, a) \<Rightarrow> Some (exited [] (cli_fail jsonOut ''replay'' path e) 1, a)
      | (Inr out, a) \<Rightarrow>
          Some (exited (if jsonOut then cli_ok ''replay'' jsonOut (trim_space out) (JObj [(''trace_path'', JStr path)]) else out) [] 0, a))"

definition cli_audit_export :: "('w, 'p, 'c) app_env \<Rightarrow> bool \<Rightarrow> string list \<Rightarrow> 'w cli_step" where
  "cli_audit_export ax jsonOut rest a =
     (let inputPath = pick rest ''audit.log'' 0; outputPath = pick rest ''audit.csv'' 1 in
      case in_app (ExportJSONLToCSV (ax_host ax) inputPath outputPath) a of
        (Some e, a) \<Rightarrow> Some (exited [] (cli_fail jsonOut ''audit-export'' inputPath e) 1, a)
      | (None, a) \<Rightarrow>
          Some (exited (if jsonOut then cli_ok ''audit-export'' jsonOut ''audit export complete''
                                     (JObj [(''input_path'', JStr inputPath), (''output_path'', JStr outputPath)])
                        else line (''audit export complete: '' @ inputPath @ '' -> '' @ outputPath)) [] 0, a))"

definition cli_scaffold :: "('w, 'p, 'c) app_env \<Rightarrow> bool \<Rightarrow> string list \<Rightarrow> 'w cli_step" where
  "cli_scaffold ax jsonOut rest a =
     (let targetDir = pick rest ''./scaffold-output'' 0; pipelineName = pick rest ''sample'' 1 in
      case ScaffoldProject ax targetDir pipelineName a of
        ((out, Some e), a) \<Rightarrow> Some (exited out (cli_fail jsonOut ''scaffold'' targetDir e) 1, a)
      | ((out, None), a) \<Rightarrow>
          Some (exited (out @ (if jsonOut then cli_ok ''scaffold'' jsonOut ''scaffold generated''
                                     (JObj [(''pipeline_name'', JStr pipelineName), (''target_dir'', JStr targetDir)]) else [])) [] 0, a))"

definition cli_debug :: "('w, 'p, 'c) app_env \<Rightarrow> bool \<Rightarrow> string list \<Rightarrow> 'w cli_step" where
  "cli_debug ax jsonOut rest a =
     (case rest of
        expected # actual # _ \<Rightarrow>
          (case DebugTrace ax expected actual a of
             ((out, Some e), a) \<Rightarrow> Some (exited (if jsonOut then [] else out) (cli_fail jsonOut ''debug'' expected e) 1, a)
           | ((out, None), a) \<Rightarrow>
               Some (exited (if jsonOut then cli_ok ''debug'' jsonOut (trim_space out)
                                          (JObj [(''actual_trace'', JStr actual), (''expected_trace'', JStr expected)]) else out) [] 0, a))
      | _ \<Rightarrow> Some (exited [] (cli_fail jsonOut ''debug'' [] (Errorf ''usage: fluxroute-cli debug <expected_trace> <actual_trace>'')) 1, a))"

section \<open>The command line\<close>

text \<open>The flags before the command: the outcome of one that ends the program, or what is left.\<close>

fun cli_flags :: "string \<Rightarrow> bool \<Rightarrow> string list \<Rightarrow> outcome + bool \<times> string list" where
  "cli_flags ver jsonOut [] = Inr (jsonOut, [])"
| "cli_flags ver jsonOut (arg # args) =
     (if \<not> has_prefix arg ''-'' then Inr (jsonOut, arg # args)
      else if arg = ''--json'' \<or> arg = ''-j'' then cli_flags ver True args
      else if arg = ''--help'' \<or> arg = ''-h'' then Inl (exited usage [] 0)
      else if arg = ''--version'' \<or> arg = ''-v'' then Inl (exited (line ver) [] 0)
      else Inl (exited [] (cli_fail jsonOut arg [] (Errorf (''unknown flag: '' @ arg))) 1))"

definition cli_command ::
  "('w, 'p, 'c) app_env \<Rightarrow> nat \<Rightarrow> nat option list list \<Rightarrow> string \<Rightarrow> bool \<Rightarrow> string \<Rightarrow> string list \<Rightarrow> 'w cli_step" where
  "cli_command ax n scheds ver jsonOut command rest a =
     (if command = ''version'' then Some (exited (line ver) [] 0, a)
      else if command = ''run'' then cli_run ax n scheds jsonOut rest a
      else if command = ''validate'' then cli_validate ax jsonOut rest a
      else if command = ''replay'' then cli_replay ax jsonOut rest a
      else if command = ''audit-export'' then cli_audit_export ax jsonOut rest a
      else if command = ''scaffold'' then cli_scaffold ax jsonOut rest a
      else if command = ''debug'' then cli_debug ax jsonOut rest a
      else Some (exited [] (cli_fail jsonOut command [] (Errorf (''unknown command: '' @ command))) 1, a))"

definition runCLI ::
  "('w, 'p, 'c) app_env \<Rightarrow> nat \<Rightarrow> nat option list list \<Rightarrow> string \<times> string \<times> string \<Rightarrow> string list \<Rightarrow> 'w cli_step" where
  "runCLI ax n scheds v args a =
     (case cli_flags (version_text v) False args of
        Inl oc \<Rightarrow> Some (oc, a)
      | Inr (jsonOut, []) \<Rightarrow> Some (exited [] usage 1, a)
      | Inr (jsonOut, command # rest) \<Rightarrow> cli_command ax n scheds (version_text v) jsonOut command rest a)"

text \<open>\<open>main\<close> of the router.\<close>

definition router_main ::
  "('w, 'p, 'c) app_env \<Rightarrow> nat \<Rightarrow> nat option list list \<Rightarrow> string \<times> string \<times> string \<Rightarrow> string list \<Rightarrow> 'w cli_step" where
  "router_main ax n scheds v args a =
     (if args \<noteq> [] \<and> (hd args = ''-v'' \<or> hd args = ''--version'' \<or> hd args = ''version'')
      then Some (exited (line (version_text v)) [] 0, a)
      else if args \<noteq> [] \<and> hd args = ''serve''
      then (case in_app (StartRouterServerFromEnv (ax_host ax) (ax_servers ax) (ax_getenv ax)) a of
              (err, a) \<Rightarrow> Some (server_outcome (ax_servers ax) ''router server failed: '' err, a))
      else
        (let manifestPath = (if args \<noteq> [] then hd args else ''configs/router.example.yaml'');
             manifestPath = (if ax_getenv ax ''MANIFEST_PATH'' \<noteq> [] then ax_getenv ax ''MANIFEST_PATH'' else manifestPath)
         in case RunManifest ax n scheds manifestPath a of
              None \<Rightarrow> None
            | Some ((out, Some e), a) \<Rightarrow> Some (exited out (line (''router failed: '' @ err_text e)) 1, a)
            | Some ((out, None), a) \<Rightarrow> Some (exited out [] 0, a)))"

end
