(* ===== verification/EngineWorld.thy ===== *)
theory EngineWorld
  imports EngineProps
begin

text \<open>
  What a run of the engine leaves untouched. A property of the world that the clock, the waits and
  the registered agents keep is kept by \<open>RunPlan\<close> under every schedule (locale \<open>world_kept\<close>).
\<close>

section \<open>Programs and pools that keep a property\<close>

text \<open>Every action keeps \<open>I\<close>, and every result that is returned has the property \<open>Q\<close>.\<close>

inductive keeps :: "('s \<Rightarrow> bool) \<Rightarrow> ('r \<Rightarrow> bool) \<Rightarrow> ('s, 'r) prog \<Rightarrow> bool" for I Q where
  keeps_Return: "Q r \<Longrightarrow> keeps I Q (Return r)"
| keeps_Atomic: "(\<And>s. I s \<Longrightarrow> I (fst (f s)) \<and> keeps I Q (snd (f s))) \<Longrightarrow> keeps I Q (Atomic f)"

inductive_cases keeps_AtomicE: "keeps I Q (Atomic f)"
inductive_simps keeps_Return_iff [simp]: "keeps I Q (Return r)"

lemma keeps_act: "(\<And>s. I s \<Longrightarrow> I (snd (g s)) \<and> keeps I Q (k (fst (g s)))) \<Longrightarrow> keeps I Q (act g k)"
  unfolding act_def by (rule keeps_Atomic) (simp add: case_prod_beta)

fun launch_keeps :: "('s \<Rightarrow> bool) \<Rightarrow> ('r \<Rightarrow> bool) \<Rightarrow> ('s, 'r) launch \<Rightarrow> bool" where
  "launch_keeps I Q (Direct f r) \<longleftrightarrow> (\<forall>s. I s \<longrightarrow> I (f s)) \<and> Q r"
| "launch_keeps I Q (Spawn p) \<longleftrightarrow> keeps I Q p"

fun thread_keeps :: "('s \<Rightarrow> bool) \<Rightarrow> ('r \<Rightarrow> bool) \<Rightarrow> ('s, 'r) thread \<Rightarrow> bool" where
  "thread_keeps I Q (Waiting p) \<longleftrightarrow> keeps I Q p"
| "thread_keeps I Q (Running p) \<longleftrightarrow> keeps I Q p"
| "thread_keeps I Q Finished \<longleftrightarrow> True"

definition pool_keeps :: "('s \<Rightarrow> bool) \<Rightarrow> ('r \<Rightarrow> bool) \<Rightarrow> ('s, 'r) pool \<Rightarrow> bool" where
  "pool_keeps I Q P \<longleftrightarrow> I (p_shared P) \<and> list_all Q (p_channel P)
     \<and> list_all (launch_keeps I Q) (p_launch P) \<and> list_all (thread_keeps I Q) (p_threads P)"

lemma list_all_update: "list_all R xs \<Longrightarrow> R x \<Longrightarrow> list_all R (xs[i := x])"
  using set_update_subset_insert [of xs i x] by (auto simp: list_all_iff)

lemma thread_step_keeps:
  assumes P: "pool_keeps I Q P" and t: "thread_keeps I Q t"
  shows "pool_keeps I Q (thread_step W i t P)"
proof (cases t)
  case (Waiting p)
  then show ?thesis using P t by (simp add: pool_keeps_def list_all_update)
next
  case (Running p)
  show ?thesis
  proof (cases p)
    case (Return r)
    then show ?thesis using P t Running by (simp add: pool_keeps_def list_all_update)
  next
    case (Atomic f)
    have "I (fst (f (p_shared P))) \<and> keeps I Q (snd (f (p_shared P)))"
      using t P unfolding Running Atomic thread_keeps.simps pool_keeps_def by (elim keeps_AtomicE) blast
    then show ?thesis using P Running Atomic
      by (cases "f (p_shared P)") (simp add: pool_keeps_def list_all_update)
  qed
next
  case Finished
  then show ?thesis using P by simp
qed

lemma sched_step_keeps:
  assumes "pool_keeps I Q P"
  shows "pool_keeps I Q (sched_step W c P)"
proof (cases c)
  case None
  then show ?thesis
    using assms by (cases "(p_launch P, P)" rule: main_step.cases) (auto simp: pool_keeps_def)
next
  case (Some i)
  moreover have "thread_keeps I Q (p_threads P ! i)" if "i < length (p_threads P)"
    using assms that by (simp add: pool_keeps_def list_all_length)
  ultimately show ?thesis using assms by (simp add: thread_step_keeps)
qed

lemma run_sched_keeps: "pool_keeps I Q P \<Longrightarrow> pool_keeps I Q (run_sched W sched P)"
  unfolding run_sched_def by (induction sched arbitrary: P) (simp_all add: sched_step_keeps)

lemma executeLevel_keeps:
  assumes run: "executeLevel env e level g m sched s = Some (rs, s')" and "I s"
    and "\<And>n. n \<in> set level \<Longrightarrow> launch_keeps I Q (node_launch env e g m n)"
  shows "I s' \<and> list_all Q rs"
proof -
  have "pool_keeps I Q (level_pool env e level g m sched s)"
    unfolding level_pool_def
    by (rule run_sched_keeps) (simp add: pool_keeps_def start_pool_def assms list_all_iff)
  with run show ?thesis by (auto simp: executeLevel_def pool_keeps_def Let_def list_all_iff split: if_splits)
qed

section \<open>The engine\<close>

locale world_kept =
  fixes env :: "'w env" and e :: "('w, 'm) Engine" and J :: "'w \<Rightarrow> bool"
  assumes now_keeps: "J w \<Longrightarrow> J (snd (e_now env w))"
    and wait_keeps: "J w \<Longrightarrow> J (snd (e_wait env d w))"
    and agent_keeps: "registry_get a (eng_registry e) = Some fn \<Longrightarrow> J w \<Longrightarrow> J (snd (fn d inp w))"
begin

abbreviation kept :: "('w, 'm) shared \<Rightarrow> bool" where
  "kept s \<equiv> J (sh_world s)"

abbreviation any_result :: "AgentResult \<Rightarrow> bool" where
  "any_result r \<equiv> True"

lemma acts_keep:
  "(\<And>t. keeps kept any_result (c1 t)) \<Longrightarrow> keeps kept any_result (clock_act env c1)"
  "(\<And>r. keeps kept any_result (c2 r)) \<Longrightarrow> keeps kept any_result (wait_act env d c2)"
  "(\<And>r. keeps kept any_result (c3 r)) \<Longrightarrow> keeps kept any_result (allow_act a cb t c3)"
  "keeps kept any_result p \<Longrightarrow> keeps kept any_result (breaker_act f p)"
  "keeps kept any_result p \<Longrightarrow> keeps kept any_result (metrics_act h p)"
  "keeps kept any_result p \<Longrightarrow> keeps kept any_result (step_act st p)"
  unfolding clock_act_def wait_act_def allow_act_def breaker_act_def metrics_act_def step_act_def
  by (rule keeps_act; use now_keeps wait_keeps in \<open>auto split: prod.splits\<close>; metis snd_conv)+

lemma call_keeps:
  assumes "registry_get a (eng_registry e) = Some fn" and "\<And>r. keeps kept any_result (c r)"
  shows "keeps kept any_result (call_act fn d inp c)"
  unfolding call_act_def
proof (rule keeps_act)
  fix s :: "('w, 'm) shared"
  assume "kept s"
  then have "J (snd (fn d inp (sh_world s)))" by (rule agent_keeps [OF assms(1)])
  then have "J (snd (safeCall fn d inp (sh_world s)))"
    by (auto simp: safeCall_def split: prod.splits call_outcome.splits)
  then show "kept (snd (case safeCall fn d inp (sh_world s) of (r, w) \<Rightarrow> (r, s\<lparr>sh_world := w\<rparr>)))
    \<and> keeps kept any_result (c (fst (case safeCall fn d inp (sh_world s) of (r, w) \<Rightarrow> (r, s\<lparr>sh_world := w\<rparr>))))"
    using assms(2) by (cases "safeCall fn d inp (sh_world s)") auto
qed

lemma attempt_loop_keeps:
  assumes "registry_get a (eng_registry e) = Some fn"
  shows "keeps kept any_result (attempt_loop env e fn policy cb invoc attempt lastErr)"
proof (induction "nat (rp_MaxAttempts policy + 1 - attempt)" arbitrary: attempt lastErr rule: less_induct)
  case less
  show ?case
    unfolding attempt_loop.simps [of env e fn policy cb invoc attempt]
    by (auto simp: Let_def split: prod.splits intro!: acts_keep call_keeps [OF assms] keeps_Return less)
qed

lemma node_launch_keeps: "launch_keeps kept any_result (node_launch env e g m n)"
  by (auto simp: node_launch_def executeNode_def Let_def split: option.splits
      intro!: acts_keep keeps_Return attempt_loop_keeps)

lemma run_levels_keeps:
  "run_levels env e g levels scheds m s = Some (m', s') \<Longrightarrow> kept s \<Longrightarrow> kept s'"
proof (induction levels arbitrary: scheds m s)
  case (Cons level levels)
  then show ?case by (cases scheds) (auto split: option.splits prod.splits dest!: executeLevel_keeps [where I = kept, OF _ _ node_launch_keeps])
qed simp

theorem RunPlan_keeps:
  assumes "RunPlan env e plan scheds s = Some (results, tr, s')" and "kept s"
  shows "kept s'"
proof -
  have fin: "kept (snd (finish_run env s))" if "kept s" for s :: "('w, 'm) shared"
    using now_keeps [OF that] by (auto simp: finish_run_def split: prod.splits)
  obtain t w where now: "e_now env (sh_world s) = (t, w)" by fastforce
  then have "J w" using now_keeps [OF assms(2)] by simp
  then have start: "kept (s\<lparr>sh_world := w, sh_recorder := r\<rparr>)" for r by simp
  show ?thesis
  proof (cases "buildGraph plan")
    case (Inl err)
    with assms(1) have "\<exists>r. finish_run env (s\<lparr>sh_world := w, sh_recorder := r\<rparr>) = (tr, s')"
      by (auto simp: RunPlan_def now Let_def)
    then show ?thesis using fin [OF start] by (metis snd_conv)
  next
    case (Inr g)
    with assms(1) obtain m1 s1 where
      "run_levels env e g (pg_levels g) scheds Map.empty (s\<lparr>sh_world := w, sh_recorder := NewRecorder (ep_TaskID plan) t\<rparr>)
         = Some (m1, s1)" and s': "(tr, s') = finish_run env s1"
      by (auto simp: RunPlan_def now Let_def split: option.splits)
    then have "kept s1" using run_levels_keeps [OF _ start] by blast
    then show ?thesis using fin [of s1] s' by (metis snd_conv)
  qed
qed

end

section \<open>Agents that do not fail\<close>

text \<open>No circuit is open and no probe is out.\<close>

definition calm :: "breaker \<Rightarrow> bool" where
  "calm cb \<longleftrightarrow> (\<forall>a. \<not> halfOpenProbeActive (breaker_state cb a) \<and> time_is_zero (openUntil (breaker_state cb a)))"

lemma calm_new: "calm NewCircuitBreaker"
  by (simp add: calm_def NewCircuitBreaker_def breaker_state_def map_get_def zero_state_def time_is_zero_def time_zero_def)

lemma calm_allow: "calm cb \<Longrightarrow> Allow a policy now cb = ((True, False), cb)"
  by (simp add: Allow_def calm_def Let_def)

lemma calm_success: "calm cb \<Longrightarrow> calm (RecordSuccess a cb)"
  by (auto simp: calm_def RecordSuccess_def breaker_state_def map_get_def Let_def time_is_zero_def time_zero_def)

definition healthy :: "('w \<Rightarrow> bool) \<Rightarrow> ('w, 'm) shared \<Rightarrow> bool" where
  "healthy J s \<longleftrightarrow> J (sh_world s) \<and> calm (sh_breaker s)"

definition succeeded :: "AgentResult \<Rightarrow> bool" where
  "succeeded r \<longleftrightarrow> ar_Err r = None"

locale healthy_agents = world_kept +
  assumes agent_succeeds: "registry_get a (eng_registry e) = Some fn \<Longrightarrow> J w \<Longrightarrow> \<exists>out. fst (fn d inp w) = Returned out None"
begin

lemma calm_acts_keep:
  "(\<And>t. keeps (healthy J) succeeded (c1 t)) \<Longrightarrow> keeps (healthy J) succeeded (clock_act env c1)"
  "keeps (healthy J) succeeded p \<Longrightarrow> keeps (healthy J) succeeded (metrics_act h p)"
  "keeps (healthy J) succeeded p \<Longrightarrow> keeps (healthy J) succeeded (step_act st p)"
  "keeps (healthy J) succeeded p \<Longrightarrow> keeps (healthy J) succeeded (breaker_act (RecordSuccess a) p)"
  "keeps (healthy J) succeeded (c3 (True, False)) \<Longrightarrow> keeps (healthy J) succeeded (allow_act a cb t c3)"
  unfolding clock_act_def metrics_act_def step_act_def breaker_act_def allow_act_def
  by (rule keeps_act; use now_keeps calm_success in \<open>auto simp: healthy_def calm_allow split: prod.splits\<close>; metis snd_conv)+

lemma calm_call_keeps:
  assumes "registry_get a (eng_registry e) = Some fn" and "\<And>out. keeps (healthy J) succeeded (c (out, None))"
  shows "keeps (healthy J) succeeded (call_act fn d inp c)"
  unfolding call_act_def
proof (rule keeps_act)
  fix s
  assume s: "healthy J s"
  then have J: "J (sh_world s)" by (simp add: healthy_def)
  obtain out where "fst (fn d inp (sh_world s)) = Returned out None" using agent_succeeds [OF assms(1) J] by blast
  then have "safeCall fn d inp (sh_world s) = ((out, None), snd (fn d inp (sh_world s)))"
    by (cases "fn d inp (sh_world s)") (simp add: safeCall_def)
  then show "healthy J (snd (case safeCall fn d inp (sh_world s) of (r, w) \<Rightarrow> (r, s\<lparr>sh_world := w\<rparr>)))
    \<and> keeps (healthy J) succeeded (c (fst (case safeCall fn d inp (sh_world s) of (r, w) \<Rightarrow> (r, s\<lparr>sh_world := w\<rparr>))))"
    using assms(2) s agent_keeps [OF assms(1) J] by (simp add: healthy_def)
qed

lemma executeNode_succeeds:
  assumes "registry_get (inv_AgentID (pn_Invocation node)) (eng_registry e) = Some fn"
  shows "keeps (healthy J) succeeded (executeNode env e node)"
  unfolding executeNode_def Let_def assms option.case attempt_loop.simps [of env e fn _ _ _ 1]
  using node_policy_positive [of "eng_cfg e" node]
  by (auto simp: normalizeInvocationError_def Let_def succeeded_def ok_result_def
      intro!: calm_acts_keep calm_call_keeps [OF assms])

lemma node_launch_succeeds:
  assumes "dependencyError (g_node g n) g m = None"
    and "registry_get (inv_AgentID (pn_Invocation (g_node g n))) (eng_registry e) \<noteq> None"
  shows "launch_keeps (healthy J) succeeded (node_launch env e g m n)"
  using assms executeNode_succeeds by (auto simp: node_launch_def Let_def)

lemma dependencies_met:
  assumes "\<forall>d \<in> set (pn_DependsOn node). pg_nodesByID g d \<noteq> None \<and> (\<exists>r. m d = Some r \<and> succeeded r)"
  shows "dependencyError node g m = None"
proof -
  have "dependency_error_loop ds g m = None"
    if "\<forall>d \<in> set ds. pg_nodesByID g d \<noteq> None \<and> (\<exists>r. m d = Some r \<and> succeeded r)" for ds
    using that by (induction ds) (auto simp: succeeded_def)
  with assms show ?thesis by (simp add: dependencyError_def)
qed

lemma run_levels_succeed:
  assumes "run_levels env e g levels scheds m s = Some (m', s')" and "healthy J s"
    and "topo_levels E fin levels" and "distinct (concat levels)" and "\<forall>l \<in> set levels. sorted l"
    and "\<forall>i \<in> fin. \<exists>r. m i = Some r \<and> succeeded r"
    and "\<forall>i \<in> set (concat levels). node_id (g_node g i) = i
      \<and> registry_get (inv_AgentID (pn_Invocation (g_node g i))) (eng_registry e) \<noteq> None
      \<and> (\<forall>d \<in> set (pn_DependsOn (g_node g i)). (d, i) \<in> E \<and> pg_nodesByID g d \<noteq> None)"
    and "\<forall>i \<in> set (concat levels). own_steps i s = []" and "same_trace task start s"
  shows "\<forall>i \<in> fin \<union> set (concat levels). \<exists>r. m' i = Some r \<and> succeeded r"
  using assms
proof (induction levels arbitrary: scheds m s fin)
  case (Cons level levels)
  from Cons.prems(1) obtain sched scheds' rs s1 where
    lev: "executeLevel env e level g m sched s = Some (rs, s1)"
    and rec: "run_levels env e g levels scheds' (store_results rs m) s1 = Some (m', s')"
    by (cases scheds) (auto split: option.splits)
  have lv: "distinct level" "sorted level" "\<forall>i \<in> set level. node_id (g_node g i) = i" "\<forall>i \<in> set level. own_steps i s = []"
    using Cons.prems by auto
  note level = executeLevel_results [OF lev lv Cons.prems(9)]
  have "launch_keeps (healthy J) succeeded (node_launch env e g m i)" if "i \<in> set level" for i
    using Cons.prems(3,6,7) that by (intro node_launch_succeeds dependencies_met) fastforce+
  from executeLevel_keeps [OF lev Cons.prems(2) this]
  have s1: "healthy J s1" and rs: "\<forall>r \<in> set rs. succeeded r" by (simp_all add: list_all_iff)
  have "distinct (map result_id rs)" using lv(1) level(1) by simp
  note get = store_results_get [OF this, of m]
  have here: "\<exists>r. store_results rs m i = Some r \<and> succeeded r" if "i \<in> fin \<union> set level" for i
  proof (cases "find (\<lambda>r. result_id r = i) rs")
    case None
    then have "i \<notin> set level" unfolding level(1) [symmetric] by (auto simp: find_None_iff)
    with that Cons.prems(6) None show ?thesis by (simp add: get)
  next
    case (Some r)
    then have "succeeded r" using rs by (auto simp: find_Some_iff)
    with Some show ?thesis by (simp add: get)
  qed
  have fresh: "\<forall>i \<in> set (concat levels). own_steps i s1 = []"
    using level(4) Cons.prems(4,8) by (metis UnCI concat.simps(2) disjoint_iff distinct_append set_append)
  have "\<forall>i \<in> fin \<union> set level \<union> set (concat levels). \<exists>r. m' i = Some r \<and> succeeded r"
    by (rule Cons.IH [OF rec s1 _ _ _ _ _ fresh level(3)]) (use Cons.prems here in auto)
  then show ?case by auto
qed auto

lemma RunPlan_succeeds:
  assumes run: "RunPlan env e plan scheds s = Some (results, tr, s')" and s: "healthy J s"
    and g: "buildGraph plan = Inr g"
    and reg: "\<forall>n \<in> set (ep_Nodes plan). registry_get (inv_AgentID (pn_Invocation n)) (eng_registry e) \<noteq> None"
  shows "list_all succeeded results"
proof -
  obtain start w where now: "e_now env (sh_world s) = (start, w)" by fastforce
  define s0 where "s0 = s\<lparr>sh_world := w, sh_recorder := NewRecorder (ep_TaskID plan) start\<rparr>"
  have "J w" using now_keeps [of "sh_world s"] s now by (simp add: healthy_def)
  then have s0: "healthy J s0" using s by (simp add: s0_def healthy_def)
  from run obtain m s1 where lv: "run_levels env e g (pg_levels g) scheds Map.empty s0 = Some (m, s1)"
    and res: "results = sort_slice result_id (map (\<lambda>n. map_get empty_result m (node_id n)) (ep_Nodes plan))"
    by (auto simp: RunPlan_def now g s0_def Let_def buildGraph_levels(5) [OF g] split: option.splits)
  note ok = buildGraph_illformed [OF g]
  note levels = buildGraph_levels [OF g]
  have ids: "set (concat (pg_levels g)) = set (plan_ids plan)" using levels(1) by (metis mset_eq_setD)
  have dist: "distinct (concat (pg_levels g))" using levels(1) ok by (metis mset_eq_imp_distinct_iff plan_wellformed_def)
  have known: "pg_nodesByID g d \<noteq> None" if "(d, i) \<in> set (plan_edges plan)" for d i
  proof -
    have "d \<in> set (plan_ids plan)" using ok that by (force simp: plan_wellformed_def)
    then show ?thesis unfolding levels(6) plan_nodesByID_def by (auto simp: plan_ids_def map_of_eq_None_iff image_image)
  qed
  have nodes: "\<forall>i \<in> set (concat (pg_levels g)). node_id (g_node g i) = i
      \<and> registry_get (inv_AgentID (pn_Invocation (g_node g i))) (eng_registry e) \<noteq> None
      \<and> (\<forall>d \<in> set (pn_DependsOn (g_node g i)). (d, i) \<in> set (plan_edges plan) \<and> pg_nodesByID g d \<noteq> None)"
    using plan_graph_nodes [OF g] known reg by blast
  have "\<forall>i \<in> {} \<union> set (concat (pg_levels g)). \<exists>r. m i = Some r \<and> succeeded r"
    by (rule run_levels_succeed [OF lv s0 levels(2) dist levels(4) _ nodes])
      (auto simp: s0_def own_steps_def same_trace_def NewRecorder_def)
  then have all: "\<forall>i \<in> set (plan_ids plan). \<exists>r. m i = Some r \<and> succeeded r" unfolding ids by simp
  have "succeeded (map_get empty_result m (node_id n))" if "n \<in> set (ep_Nodes plan)" for n
  proof -
    have "node_id n \<in> set (plan_ids plan)" using that by (simp add: plan_ids_def)
    with all obtain r where "m (node_id n) = Some r" "succeeded r" by blast
    then show ?thesis by (simp add: map_get_def)
  qed
  then show ?thesis by (auto simp: res list_all_iff)
qed

end

end
