(* ===== verification/AppProps.thy ===== *)
theory AppProps
  imports AppReport EngineWorld
begin

text \<open>
  Properties of whole runs: every run leaves one line in the audit log, a role without permission
  changes nothing else, the lock file of a run is gone at its end, and a pipeline of healthy agents
  succeeds. The engine is the one the application builds, under every schedule.
\<close>

section \<open>What a run leaves alone\<close>

lemma host_ops_files [simp]:
  "h_files (snd (host_now he h)) = h_files h"
  "h_files (snd (host_fault he fop p h)) = h_files h"
  "h_files (snd (read_file he p h)) = h_files h"
  "h_files (snd (in_host f h)) = h_files h"
  by (simp_all add: host_now_def host_fault_def read_file_def in_host_def split: prod.splits option.splits)

lemma buildExecutionPlan_files:
  "h_files (snd (buildExecutionPlan (host_now he) m ns cb h)) = h_files h"
proof -
  have "h_files (snd (plan_nodes (host_now he) node i steps h)) = h_files h" for node i steps h
    by (induction steps arbitrary: i h) (simp_all add: case_prod_beta)
  then show ?thesis by (simp add: buildExecutionPlan_def Let_def case_prod_beta split: sum.splits)
qed

lemma prepare_run_files: "h_files (snd (prepare_run ax p h)) = h_files h"
  by (simp add: prepare_run_def case_prod_beta buildExecutionPlan_files split: sum.splits option.splits)

lemma register_all_get:
  assumes "registry_get a (register_all mk ids r) = Some fn" and "\<And>b f. registry_get b r = Some f \<Longrightarrow> \<exists>c \<in> S. f = mk c"
    and "set ids \<subseteq> S"
  shows "\<exists>c \<in> S. fn = mk c"
  using assms
proof (induction ids arbitrary: r)
  case Nil
  then show ?case by (metis register_all.simps(1))
next
  case (Cons i ids)
  obtain err r1 where reg: "Register i (Some (mk i)) r = (err, r1)" by fastforce
  have "\<exists>c \<in> S. f = mk c" if "registry_get b r1 = Some f" for b f
    using that Cons.prems(2,3) reg registry.register_stored [of i "Some (mk i)" r r1] registry.register_refused [of i "Some (mk i)" r]
    by (cases err) (auto split: if_splits)
  with Cons.IH [of r1] Cons.prems(1,3) reg show ?case by simp
qed

lemma build_registry_all: "build_registry_loop mk as r = Inr r' \<Longrightarrow> r' = register_all mk (map ab_ID as) r"
  by (induction as arbitrary: r) (auto split: option.splits prod.splits)

lemma buildRegistry_generic: "buildRegistry mk m = Inr r \<Longrightarrow> r = newGenericRegistry mk (map ab_ID (mf_Agents m))"
  by (auto simp: buildRegistry_def newGenericRegistry_def dest: build_registry_all)

lemma generic_registry_get:
  assumes "registry_get a (newGenericRegistry mk ids) = Some fn"
  shows "\<exists>c \<in> set ids. fn = mk c"
  using assms unfolding newGenericRegistry_def
  by (rule register_all_get) (auto simp: registry_get_def GetVersion_def NewRegistry_def Let_def)

text \<open>The engine of a run.\<close>

abbreviation app_engine ::
  "('w, 'p, 'c) app_env \<Rightarrow> string list \<Rightarrow> RouterConfig \<Rightarrow> 'p metric_state list Recorder
   \<Rightarrow> ('w host demo_world, 'p metric_state list) Engine" where
  "app_engine ax ids cfg rec \<equiv> SetMetricsRecorder (Some rec) (fst (NewEngine (newGenericRegistry (app_agent ax) ids) cfg))"

lemma app_engine_registry [simp]: "eng_registry (app_engine ax ids cfg rec) = newGenericRegistry (app_agent ax) ids"
  by (simp add: SetMetricsRecorder_def NewEngine_def)

lemma engine_env_files:
  "h_files (dw_env (snd (e_now (engine_env ax) w))) = h_files (dw_env w)"
  "h_files (dw_env (snd (e_wait (engine_env ax) d w))) = h_files (dw_env w)"
  by (simp_all add: engine_env_def case_prod_beta)

lemma app_agent_files: "h_files (dw_env (snd (app_agent ax a d inp w))) = h_files (dw_env w)"
proof -
  have "h_files (snd (in_host f (snd (in_host g h)))) = h_files h" for f :: "'x \<Rightarrow> 'y \<times> 'x" and g :: "'x \<Rightarrow> 'z \<times> 'x" and h
    by simp
  then show ?thesis
    by (auto simp: app_agent_def deterministicAgent_def Let_def split: prod.splits option.splits)
      (metis host_ops_files(4) snd_conv)+
qed

interpretation app_files: world_kept "engine_env ax" "app_engine ax ids cfg rec" "\<lambda>w. h_files (dw_env w) = F"
  for ax ids cfg rec F
  by unfold_locales (auto simp: engine_env_files dest!: generic_registry_get intro: trans [OF app_agent_files])

lemma run_engine_files:
  assumes "run_engine ax scheds (newGenericRegistry (app_agent ax) ids) cfg plan rec ms h = Some (results, tr, snap, h')"
  shows "h_files h' = h_files h"
proof -
  from assms obtain s' where run: "RunPlan (engine_env ax) (app_engine ax ids cfg rec) plan scheds
      \<lparr>sh_breaker = NewCircuitBreaker, sh_metrics = ms, sh_recorder = NewRecorder [] time_zero,
       sh_world = \<lparr>dw_attempts = (\<lambda>_. Map.empty), dw_env = h\<rparr>\<rparr> = Some (results, tr, s')" and h': "h' = dw_env (sh_world s')"
    by (auto simp: run_engine_def NewEngine_def)
  have "h_files (dw_env (sh_world s')) = h_files h" by (rule app_files.RunPlan_keeps [OF run]) simp
  with h' show ?thesis by simp
qed

text \<open>The files a run may write besides the log.\<close>

definition log_path :: "('w, 'p, 'c) app_env \<Rightarrow> string" where
  "log_path ax = trim_space (ax_getenv ax ''AUDIT_LOG_PATH'')"

definition log_apart :: "('w, 'p, 'c) app_env \<Rightarrow> bool" where
  "log_apart ax \<longleftrightarrow> ax_getenv ax ''TRACE_OUTPUT'' \<noteq> log_path ax
     \<and> (trim_space (ax_getenv ax ''ASTRAGRAPH_AUDIT_PATH'') = []
        \<or> (\<forall>taskID. resolve_path (trim_space (ax_getenv ax ''ASTRAGRAPH_AUDIT_PATH'')) taskID \<noteq> log_path ax))"

lemma write_file_other: "q \<noteq> p \<Longrightarrow> h_files (snd (write_file he p b h)) q = h_files h q"
  by (simp add: write_file_def create_file_def write_end_def host_fault_def case_prod_beta split: option.splits)

lemma SaveToFile_other: "q \<noteq> p \<Longrightarrow> h_files (snd (SaveToFile he p tr h)) q = h_files h q"
  by (simp add: SaveToFile_def case_prod_beta write_file_other split: sum.splits option.splits)

lemma entries_files: "h_files (snd (buildAstraGraphEntries he tr ns h)) = h_files h"
proof -
  have "h_files (snd (entry_of he tr ns st h)) = h_files h" for st h
    by (simp add: entry_of_def Let_def case_prod_beta)
  then have "h_files (snd (entries_loop he tr ns steps h)) = h_files h" for steps h
    by (induction steps arbitrary: h) (simp_all add: case_prod_beta)
  then show ?thesis by (simp add: buildAstraGraphEntries_def)
qed

lemma export_file_other: "q \<noteq> p \<Longrightarrow> h_files (snd (export_file he p entries h)) q = h_files h q"
  by (simp add: export_file_def mkdir_all_def case_prod_beta write_file_other split: sum.splits option.splits)

lemma export_post_files: "h_files (snd (export_post hc getenv endpoint entries h)) = h_files h"
  by (simp add: export_post_def Let_def case_prod_beta split: sum.splits option.splits)

lemma export_other:
  assumes "trim_space (getenv ''ASTRAGRAPH_AUDIT_PATH'') = []
    \<or> resolve_path (trim_space (getenv ''ASTRAGRAPH_AUDIT_PATH'')) (t_TaskID tr) \<noteq> q"
  shows "h_files (snd (ExportAstraGraphAudit he hc getenv tr ns h)) q = h_files h q"
  using assms export_file_other [of q "resolve_path (trim_space (getenv ''ASTRAGRAPH_AUDIT_PATH'')) (t_TaskID tr)" he]
  by (auto simp: ExportAstraGraphAudit_def Let_def case_prod_beta entries_files export_post_files split: sum.splits option.splits)

lemma persist_trace_other:
  assumes "log_apart ax"
  shows "h_files (snd (persist_trace ax tr ns h)) (log_path ax) = h_files h (log_path ax)"
  using assms SaveToFile_other [of "log_path ax" "ax_getenv ax ''TRACE_OUTPUT''" "ax_host ax" tr h]
    export_other [of "ax_getenv ax" tr "log_path ax"]
  by (auto simp: persist_trace_def log_apart_def case_prod_beta split: option.splits)

text \<open>The libraries that open listeners read files and write none.\<close>

definition readers_only :: "('w, 'c) server_lib \<Rightarrow> bool" where
  "readers_only sl \<longleftrightarrow> (\<forall>c k h. h_files (snd (sl_LoadX509KeyPair sl c k h)) = h_files h)
     \<and> (\<forall>addr h. h_files (snd (sl_Listen sl addr h)) = h_files h)"

lemma tls_config_files: "readers_only sl \<Longrightarrow> h_files (snd (BuildServerTLSConfig he sl c k ca req h)) = h_files h"
  by (simp add: BuildServerTLSConfig_def readers_only_def Let_def case_prod_beta split: sum.splits)

lemma setup_metrics_files:
  assumes "readers_only (ax_servers ax)"
  shows "h_files (snd (setup_metrics ax h)) = h_files h"
proof -
  have listen: "h_files (snd (listen_metrics (ax_servers ax) addr h)) = h_files h" for addr h
    using assms by (simp add: listen_metrics_def readers_only_def case_prod_beta split: option.splits)
  then have "h_files (snd (metrics_endpoint ax h)) = h_files h"
    using tls_config_files [OF assms]
    by (simp add: metrics_endpoint_def StartPrometheusServer_def StartPrometheusServerTLS_def Let_def case_prod_beta split: sum.splits)
  then show ?thesis by (simp add: setup_metrics_def Let_def case_prod_beta split: sum.splits option.splits)
qed

lemma run_leased_log:
  assumes "run_leased ax scheds ns (newGenericRegistry (app_agent ax) ids) cfg plan h = Some (r, h')" and "log_apart ax"
    and "readers_only (ax_servers ax)"
  shows "h_files h' (log_path ax) = h_files h (log_path ax)"
proof -
  obtain e1 h1 where otel: "in_host (SetupOTelFromEnv (ax_otel ax) (ax_getenv ax) ''fluxroute'') h = (e1, h1)" by fastforce
  obtain m h2 where met: "setup_metrics ax h1 = (m, h2)" by fastforce
  have h1: "h_files h1 = h_files h" using host_ops_files(4) [of "SetupOTelFromEnv (ax_otel ax) (ax_getenv ax) ''fluxroute''" h] otel by simp
  have h2: "h_files h2 = h_files h" using setup_metrics_files [OF assms(3), of h1] met h1 by simp
  have "h_files h4 (log_path ax) = h_files h3 (log_path ax)" if "persist_trace ax tr ns h3 = (e, h4)" for tr h3 e h4
    using persist_trace_other [OF assms(2), of tr ns h3] that by simp
  note persist = this
  show ?thesis
    using assms(1) otel met h1 h2
    by (auto simp: run_leased_def split: option.splits sum.splits prod.splits dest!: run_engine_files persist)
qed

lemma with_world_files [simp]: "h_files (ap_host (with_world a w)) = h_files (ap_host a)"
  by (simp add: with_world_def)

lemma acquire_lease_files: "h_files (ap_host (snd (acquire_lease ax n key ttl a))) = h_files (ap_host a)"
  by (simp add: acquire_lease_def Let_def case_prod_beta split: sum.splits)

lemma lease_files [simp]:
  "h_files (ap_host (snd (acquireLeaseIfEnabled ax n ns task a))) = h_files (ap_host a)"
  "h_files (ap_host (release_lease ax lease a)) = h_files (ap_host a)"
  by (simp_all add: acquireLeaseIfEnabled_def release_lease_def acquire_lease_files case_prod_beta
      split: option.splits sum.splits Lease.splits)

lemma prepare_run_registry:
  "prepare_run ax p h = (Inr (ns, registry, cfg, plan), h') \<Longrightarrow> \<exists>ids. registry = newGenericRegistry (app_agent ax) ids"
  by (auto simp: prepare_run_def split: sum.splits prod.splits option.splits dest: buildRegistry_generic)

lemma run_body_log:
  assumes run: "run_manifest_body ax n scheds p a = Some (r, a')" and "log_apart ax" and "readers_only (ax_servers ax)"
  shows "h_files (ap_host a') (log_path ax) = h_files (ap_host a) (log_path ax)"
proof -
  obtain x h where prep: "prepare_run ax p (ap_host a) = (x, h)" by fastforce
  have h: "h_files h = h_files (ap_host a)" using prepare_run_files [of ax p "ap_host a"] prep by simp
  show ?thesis
  proof (cases x)
    case (Inl e)
    then show ?thesis using run prep h by (auto simp: run_manifest_body_def in_app_def)
  next
    case (Inr y)
    obtain ns registry cfg plan where y: "y = (ns, registry, cfg, plan)" using prod_cases4 by blast
    obtain ids where reg: "registry = newGenericRegistry (app_agent ax) ids"
      using prepare_run_registry prep Inr y by blast
    obtain l a1 where lease: "acquireLeaseIfEnabled ax n ns (ep_TaskID plan) (a\<lparr>ap_host := h\<rparr>) = (l, a1)" by fastforce
    then have a1: "h_files (ap_host a1) = h_files h" using lease_files(1) [of ax n ns "ep_TaskID plan" "a\<lparr>ap_host := h\<rparr>"] by simp
    from run prep Inr y lease h a1 show ?thesis
      by (auto simp: run_manifest_body_def in_app_def reg split: option.splits sum.splits dest!: run_leased_log [OF _ assms(2,3)])
  qed
qed

section \<open>The audit trail\<close>

definition audit_event :: "('w, 'p, 'c) app_env \<Rightarrow> Action \<Rightarrow> string \<Rightarrow> goerr option \<Rightarrow> time \<Rightarrow> Event" where
  "audit_event ax action resource err now =
     \<lparr>ev_Timestamp = format_time now, ev_Actor = currentRole (ax_getenv ax), ev_Action = action, ev_Resource = resource,
      ev_Status = (if err = None then ''success'' else ''error''), ev_Error = error_string err\<rparr>"

lemma audited_log:
  assumes ff: "fault_free (ax_host ax)" and path: "log_path ax \<noteq> []"
  shows "ap_host (audited ax action resource err a) =
    (let h = snd (host_now (ax_host ax) (ap_host a)); now = fst (host_now (ax_host ax) (ap_host a))
     in h\<lparr>h_files := (h_files h)(log_path ax \<mapsto>
          contents (ap_host a) (log_path ax) @ event_text (audit_event ax action resource err now) @ [newline])\<rparr>)"
  using ff path
  by (simp add: audited_def logger_Write_def Enabled_def NewLogger_def host_now_def case_prod_beta Let_def event_marshal
      mkdir_all_def open_append_def host_fault_free write_end_free audit_event_def error_string_def contents_def
      log_path_def split: option.splits)

section \<open>Healthy pipelines\<close>

lemma validated_namespace: "ValidateManifest m = None \<Longrightarrow> \<exists>ns. NamespaceFromManifest m = Inr ns"
  by (auto simp: ValidateManifest_None manifest_ok_def NamespaceFromManifest_def Validate_def Normalize_fixed Let_def)

lemma prepare_run_ok:
  assumes ff: "fault_free (ax_host ax)" and content: "h_files h path = Some b" and yaml: "ax_yaml ax b = Inr m"
    and valid: "ValidateManifest m = None" and policy: "RBACPolicyFromManifest m = Inr policy"
    and allowed: "authorize (ax_getenv ax) policy ActionRun = None"
    and cfg: "RouterConfigFromManifest m (FromEnv (ax_getenv ax)) = Inr cfg"
  shows "\<exists>ns plan h' g. prepare_run ax path h = (Inr (ns, newGenericRegistry (app_agent ax) (map ab_ID (mf_Agents m)), cfg, plan), h')
    \<and> NamespaceFromManifest m = Inr ns \<and> buildGraph plan = Inr g \<and> length (ep_Nodes plan) = length (mf_Pipeline m)
    \<and> (\<forall>n \<in> set (ep_Nodes plan). registry_get (inv_AgentID (pn_Invocation n))
          (newGenericRegistry (app_agent ax) (map ab_ID (mf_Agents m))) \<noteq> None)"
proof -
  obtain ns where ns: "NamespaceFromManifest m = Inr ns" using validated_namespace [OF valid] by blast
  from manifest_runnable [OF valid, of "app_agent ax" "host_now (ax_host ax)" ns "rc_CircuitBreaker cfg" h]
  obtain r plan h' g where built: "buildRegistry (app_agent ax) m = Inr r"
      "buildExecutionPlan (host_now (ax_host ax)) m ns (rc_CircuitBreaker cfg) h = (Inr plan, h')" "buildGraph plan = Inr g"
    and perm: "mset (map (\<lambda>n. inv_AgentID (pn_Invocation n)) (ep_Nodes plan)) = mset (step_names m)"
    and "\<forall>n \<in> set (ep_Nodes plan). registry_get (inv_AgentID (pn_Invocation n)) r = Some (app_agent ax (inv_AgentID (pn_Invocation n)))"
    by (elim exE conjE) (rule that)
  then have reg: "\<forall>n \<in> set (ep_Nodes plan). registry_get (inv_AgentID (pn_Invocation n)) r \<noteq> None" by simp
  note r = buildRegistry_generic [OF built(1)]
  have "length (ep_Nodes plan) = length (mf_Pipeline m)" using perm by (metis length_map size_mset)
  moreover have "prepare_run ax path h = (Inr (ns, r, cfg, plan), h')"
    using ff content yaml valid policy allowed cfg ns built
    by (simp add: prepare_run_def read_file_def host_fault_free LoadManifest_def)
  ultimately show ?thesis using ns built(3) reg r by blast
qed

text \<open>Agents without a special name answer at once, unless their context is done.\<close>

definition plain :: "string \<Rightarrow> bool" where
  "plain a \<longleftrightarrow> \<not> has_prefix a ''panic_'' \<and> \<not> has_prefix a ''fail_'' \<and> \<not> has_prefix a ''flaky_'' \<and> \<not> has_prefix a ''slow_''"

definition never_done :: "('w, 'p, 'c) app_env \<Rightarrow> bool" where
  "never_done ax \<longleftrightarrow> (\<forall>d w. fst (ax_poll ax d w) = None)"

lemma app_agent_plain:
  assumes "plain a" and "never_done ax"
  shows "\<exists>out. fst (app_agent ax a d inp w) = Returned out None"
proof -
  have "fst (ax_poll ax d (h_world (dw_env w))) = None" using assms(2) by (simp add: never_done_def)
  with assms(1) show ?thesis
    by (auto simp: app_agent_def deterministicAgent_def plain_def in_host_def Let_def split: prod.splits)
qed

interpretation healthy_app: healthy_agents "engine_env ax" "app_engine ax ids cfg rec" "\<lambda>w. list_all plain ids \<and> never_done ax"
  for ax ids cfg rec
  by unfold_locales (auto dest!: generic_registry_get simp: list_all_iff intro: app_agent_plain)

lemma run_engine_succeeds:
  assumes run: "run_engine ax scheds (newGenericRegistry (app_agent ax) ids) cfg plan rec ms h = Some (results, tr, snap, h')"
    and ok: "list_all plain ids" "never_done ax" and g: "buildGraph plan = Inr g"
    and reg: "\<forall>n \<in> set (ep_Nodes plan). registry_get (inv_AgentID (pn_Invocation n)) (newGenericRegistry (app_agent ax) ids) \<noteq> None"
  shows "failed_results results = 0 \<and> length results = length (ep_Nodes plan)"
proof -
  let ?s = "\<lparr>sh_breaker = NewCircuitBreaker, sh_metrics = ms, sh_recorder = NewRecorder [] time_zero,
       sh_world = \<lparr>dw_attempts = (\<lambda>_. Map.empty), dw_env = h\<rparr>\<rparr>"
  from run obtain s' where plan: "RunPlan (engine_env ax) (app_engine ax ids cfg rec) plan scheds ?s = Some (results, tr, s')"
    by (auto simp: run_engine_def NewEngine_def)
  have "healthy (\<lambda>w. list_all plain ids \<and> never_done ax) ?s" unfolding healthy_def using ok by (simp add: calm_new)
  from healthy_app.RunPlan_succeeds [OF plan this g] reg
  have "list_all succeeded results" by simp
  moreover have "length results = length (ep_Nodes plan)"
    using RunPlan_spec [OF plan g] by (auto simp: plan_ids_def)
  ultimately show ?thesis
    by (simp add: failed_results_def succeeded_def list_all_iff filter_empty_conv)
qed

text \<open>Nothing besides the agents can make the run fail.\<close>

definition undisturbed :: "('w, 'p, 'c) app_env \<Rightarrow> bool" where
  "undisturbed ax \<longleftrightarrow> \<not> envBool (ax_getenv ax) ''METRICS_ENABLED''
     \<and> ax_getenv ax ''TRACE_OUTPUT'' = [] \<and> \<not> envBool (ax_getenv ax) ''ASTRAGRAPH_EXPORT_STRICT''
     \<and> \<not> trace_envBool (ax_getenv ax) ''TRACE_ENABLED''"

definition lease_granted :: "('w, 'p, 'c) app_env \<Rightarrow> nat \<Rightarrow> 'w app \<Rightarrow> bool" where
  "lease_granted ax n a \<longleftrightarrow> (\<forall>ns task h. \<exists>lease a'. acquireLeaseIfEnabled ax n ns task (a\<lparr>ap_host := h\<rparr>) = (Some (Inr lease), a'))"

lemma lease_granted_disabled: "\<not> envBool (ax_getenv ax) ''COORDINATION_ENABLED'' \<Longrightarrow> lease_granted ax n a"
  by (simp add: lease_granted_def acquireLeaseIfEnabled_def)

lemma persist_undisturbed: "undisturbed ax \<Longrightarrow> fst (persist_trace ax tr ns h) = None"
  by (simp add: undisturbed_def persist_trace_def case_prod_beta split: option.splits)

lemma run_leased_undisturbed:
  assumes "undisturbed ax"
  shows "\<exists>rec ms h'. \<forall>scheds. run_leased ax scheds ns registry cfg plan h =
    map_option (\<lambda>(results, tr, snap, h). (Inr \<lparr>rr_Results = results, rr_Trace = tr, rr_Metrics = snap, rr_Namespace = ns\<rparr>,
        snd (persist_trace ax tr ns h))) (run_engine ax scheds registry cfg plan rec ms h')"
proof -
  have otel: "in_host (SetupOTelFromEnv (ax_otel ax) (ax_getenv ax) ''fluxroute'') h = (None, h)"
    using assms by (simp add: undisturbed_def in_host_def SetupOTelFromEnv_def)
  have met: "setup_metrics ax h = (Inr (multi_recorder [metricRecorder], [InMemory NewInMemoryRecorder]), h)"
    using assms by (simp add: setup_metrics_def undisturbed_def)
  have persist: "persist_trace ax tr ns h = (None, snd (persist_trace ax tr ns h))" for tr h
    using persist_undisturbed [OF assms] by (metis prod.collapse)
  show ?thesis
    by (intro exI [of _ "multi_recorder [metricRecorder]"] exI [of _ "[InMemory NewInMemoryRecorder]"] exI [of _ h] allI,
        subst (1) run_leased_def)
      (simp add: otel met, subst persist, simp split: option.splits)
qed

lemma quiet_run:
  assumes "fault_free (ax_host ax)" and "h_files (ap_host a) path = Some b" and "ax_yaml ax b = Inr m"
    and "ValidateManifest m = None" and "RBACPolicyFromManifest m = Inr policy"
    and "authorize (ax_getenv ax) policy ActionRun = None"
    and "RouterConfigFromManifest m (FromEnv (ax_getenv ax)) = Inr cfg"
    and quiet: "undisturbed ax" and granted: "lease_granted ax n a" and ns: "NamespaceFromManifest m = Inr ns"
  obtains plan g rec ms h finish where "buildGraph plan = Inr g" and "length (ep_Nodes plan) = length (mf_Pipeline m)"
    and "\<forall>n \<in> set (ep_Nodes plan). registry_get (inv_AgentID (pn_Invocation n))
          (newGenericRegistry (app_agent ax) (map ab_ID (mf_Agents m))) \<noteq> None"
    and "\<And>scheds. RunManifestReport ax n scheds path a =
      map_option (\<lambda>(results, tr, snap, h). (Inr \<lparr>rr_Results = results, rr_Trace = tr, rr_Metrics = snap, rr_Namespace = ns\<rparr>, finish tr h))
        (run_engine ax scheds (newGenericRegistry (app_agent ax) (map ab_ID (mf_Agents m))) cfg plan rec ms h)"
proof -
  let ?reg = "newGenericRegistry (app_agent ax) (map ab_ID (mf_Agents m))"
  from prepare_run_ok [OF assms(1-7)] ns obtain plan h g where
    prep: "prepare_run ax path (ap_host a) = (Inr (ns, ?reg, cfg, plan), h)"
    and g: "buildGraph plan = Inr g" and len: "length (ep_Nodes plan) = length (mf_Pipeline m)"
    and reg: "\<forall>n \<in> set (ep_Nodes plan). registry_get (inv_AgentID (pn_Invocation n)) ?reg \<noteq> None"
    by auto
  from granted obtain lease a2 where lease: "acquireLeaseIfEnabled ax n ns (ep_TaskID plan) (a\<lparr>ap_host := h\<rparr>) = (Some (Inr lease), a2)"
    unfolding lease_granted_def by meson
  from run_leased_undisturbed [OF quiet, of ns ?reg cfg plan "ap_host a2"] obtain rec ms h' where
    leased: "run_leased ax scheds ns ?reg cfg plan (ap_host a2) =
      map_option (\<lambda>(results, tr, snap, h). (Inr \<lparr>rr_Results = results, rr_Trace = tr, rr_Metrics = snap, rr_Namespace = ns\<rparr>,
        snd (persist_trace ax tr ns h))) (run_engine ax scheds ?reg cfg plan rec ms h')" for scheds by blast
  define finish where "finish tr h = audited ax ActionRun path None (release_lease ax lease (a2\<lparr>ap_host := snd (persist_trace ax tr ns h)\<rparr>))" for tr h
  have "RunManifestReport ax n scheds path a =
      map_option (\<lambda>(results, tr, snap, h). (Inr \<lparr>rr_Results = results, rr_Trace = tr, rr_Metrics = snap, rr_Namespace = ns\<rparr>, finish tr h))
        (run_engine ax scheds ?reg cfg plan rec ms h')" for scheds
    by (auto simp: RunManifestReport_def run_manifest_body_def in_app_def prep lease leased finish_def result_error_def split: option.splits)
  with g len reg show thesis by (rule that)
qed

lemma run_engine_completable: "\<exists>scheds. run_engine ax scheds (newGenericRegistry (app_agent ax) ids) cfg plan rec ms h \<noteq> None"
proof -
  have "0 < rc_WorkerPoolSize (eng_cfg (app_engine ax ids cfg rec))" by (simp add: engine_pool_size)
  from RunPlan_completable [OF this, of "engine_env ax" plan] show ?thesis
    by (simp add: run_engine_def NewEngine_def)
qed

lemma healthy_run:
  assumes "fault_free (ax_host ax)" and "h_files (ap_host a) path = Some b" and "ax_yaml ax b = Inr m"
    and valid: "ValidateManifest m = None" and "RBACPolicyFromManifest m = Inr policy"
    and "authorize (ax_getenv ax) policy ActionRun = None"
    and "RouterConfigFromManifest m (FromEnv (ax_getenv ax)) = Inr cfg"
    and quiet: "undisturbed ax" "never_done ax" and granted: "lease_granted ax n a" and plain: "list_all plain (map ab_ID (mf_Agents m))"
    and ns: "NamespaceFromManifest m = Inr ns"
  shows "(\<exists>scheds. RunManifestReport ax n scheds path a \<noteq> None)
    \<and> (\<forall>scheds r a'. RunManifestReport ax n scheds path a = Some (r, a') \<longrightarrow>
         (\<exists>report. r = Inr report \<and> failed_results (rr_Results report) = 0
            \<and> length (rr_Results report) = length (mf_Pipeline m) \<and> rr_Namespace report = ns))"
proof -
  obtain plan g rec ms h finish where g: "buildGraph plan = Inr g" "length (ep_Nodes plan) = length (mf_Pipeline m)"
    and reg: "\<forall>n \<in> set (ep_Nodes plan). registry_get (inv_AgentID (pn_Invocation n))
          (newGenericRegistry (app_agent ax) (map ab_ID (mf_Agents m))) \<noteq> None"
    and run: "RunManifestReport ax n scheds path a =
      map_option (\<lambda>(results, tr, snap, h). (Inr \<lparr>rr_Results = results, rr_Trace = tr, rr_Metrics = snap, rr_Namespace = ns\<rparr>, finish tr h))
        (run_engine ax scheds (newGenericRegistry (app_agent ax) (map ab_ID (mf_Agents m))) cfg plan rec ms h)" for scheds
    by (rule quiet_run [OF assms(1-8) granted ns]) (rule that)
  show ?thesis
    using run_engine_completable [of ax "map ab_ID (mf_Agents m)" cfg plan rec ms h]
      run_engine_succeeds [OF _ plain quiet(2) g(1) reg] g(2) by (fastforce simp: run)
qed

text \<open>
  C28: A healthy pipeline succeeds. A validated manifest whose agents have no special name, run by a
  permitted role with a configuration that can be read, given its lease where coordination is on, and
  not disturbed by metrics, tracing or a trace file that must be written, can always be run to its end; and however its
  goroutines are scheduled, \<open>RunManifest\<close> returns no error and announces one invocation per step of the
  pipeline.
\<close>

theorem healthy_pipeline_succeeds:
  assumes "fault_free (ax_host ax)" and "h_files (ap_host a) path = Some b" and "ax_yaml ax b = Inr m"
    and "ValidateManifest m = None" and "RBACPolicyFromManifest m = Inr policy"
    and "authorize (ax_getenv ax) policy ActionRun = None"
    and "RouterConfigFromManifest m (FromEnv (ax_getenv ax)) = Inr cfg"
    and "undisturbed ax" and "never_done ax" and "lease_granted ax n a" and "list_all plain (map ab_ID (mf_Agents m))"
    and "NamespaceFromManifest m = Inr ns"
  shows "(\<exists>scheds. RunManifest ax n scheds path a \<noteq> None)
    \<and> (\<forall>scheds out err a'. RunManifest ax n scheds path a = Some ((out, err), a') \<longrightarrow>
         err = None \<and> has_prefix out (''router executed '' @ decimal (length (mf_Pipeline m)) @ '' invocation(s) from '' @ path
           @ '' (namespace='' @ ns @ '')'' @ [newline]))"
proof (intro conjI allI impI)
  note run = healthy_run [OF assms]
  obtain scheds r a1 where "RunManifestReport ax n scheds path a = Some (r, a1)" using run by fast
  then show "\<exists>scheds. RunManifest ax n scheds path a \<noteq> None"
    by (intro exI [of _ scheds]) (auto simp: RunManifest_def Let_def split: sum.splits prod.splits)
  fix scheds out err a'
  assume ran: "RunManifest ax n scheds path a = Some ((out, err), a')"
  then obtain r a1 where rep: "RunManifestReport ax n scheds path a = Some (r, a1)"
    by (auto simp: RunManifest_def split: option.splits)
  then obtain report where "r = Inr report" "failed_results (rr_Results report) = 0"
    "length (rr_Results report) = length (mf_Pipeline m)" "rr_Namespace report = ns" using run by blast
  with ran rep have "err = None \<and> (\<exists>rest. out = (''router executed '' @ decimal (length (mf_Pipeline m))
      @ '' invocation(s) from '' @ path @ '' (namespace='' @ ns @ '')'' @ [newline]) @ rest)"
    by (auto simp: RunManifest_def Let_def split: prod.splits)
  then show "err = None" "has_prefix out (''router executed '' @ decimal (length (mf_Pipeline m))
      @ '' invocation(s) from '' @ path @ '' (namespace='' @ ns @ '')'' @ [newline])"
    unfolding has_prefix_iff by blast+
qed


section \<open>Roles without permission\<close>

text \<open>
  C30: A role that may not run a manifest changes nothing: the run returns the error of the access
  control, no agent is called, no lock is touched, and no file but the audit log differs afterwards.
\<close>

theorem denied_run_changes_nothing:
  assumes "fault_free (ax_host ax)" and "h_files (ap_host a) path = Some b" and "ax_yaml ax b = Inr m"
    and "ValidateManifest m = None" and "RBACPolicyFromManifest m = Inr policy"
    and "\<not> IsAllowed policy (currentRole (ax_getenv ax)) ActionRun"
  shows "\<exists>a'. RunManifestReport ax n scheds path a = Some (Inl (Errorf (''rbac denied: role ''
      @ fmt_q (currentRole (ax_getenv ax)) @ '' cannot perform '' @ fmt_q ActionRun)), a')
    \<and> ap_locks a' = ap_locks a \<and> (\<forall>q. q \<noteq> log_path ax \<longrightarrow> h_files (ap_host a') q = h_files (ap_host a) q)"
proof -
  have "prepare_run ax path (ap_host a) = (Inl (Errorf (''rbac denied: role ''
      @ fmt_q (currentRole (ax_getenv ax)) @ '' cannot perform '' @ fmt_q ActionRun)), ap_host a)"
    using assms by (simp add: prepare_run_def read_file_def host_fault_free LoadManifest_def authorize_def Let_def)
  moreover have "h_files (ap_host (audited ax ActionRun path err a)) q = h_files (ap_host a) q" if "q \<noteq> log_path ax" for q err
    using that audited_log [OF assms(1)]
    by (cases "log_path ax = []") (auto simp: Let_def audited_def logger_Write_def Enabled_def NewLogger_def log_path_def)
  moreover have "ap_locks (audited ax ActionRun path err a) = ap_locks a" for err by (simp add: audited_def)
  ultimately show ?thesis
    by (simp add: RunManifestReport_def run_manifest_body_def in_app_def)
qed

section \<open>The lock of a run\<close>

lemma file_acquire_lease:
  "fst (run_prog (file_acquire_loop fe n path ttl) s) = Some (Inr lease) \<Longrightarrow> lease = fileLease path"
  by (induction n arbitrary: s)
    (auto simp: co_now_def co_wait_def fs_act_def split: prod.splits if_splits option.splits open_result.splits)

lemma file_lease_of_run:
  assumes "acquireLeaseIfEnabled ax n ns task a = (Some (Inr lease), a1)" and "envBool (ax_getenv ax) ''COORDINATION_ENABLED''"
    and "coordination_mode (ax_getenv ax) \<noteq> ''memory''" and "coordination_mode (ax_getenv ax) \<noteq> ''redis''"
  shows "lease = Some (fileLease (lock_path (NewFileCoordinator (ax_getenv ax) (ax_getenv ax ''COORDINATION_DIR'')) (lease_key ns task)))"
  using assms
  by (auto simp: acquireLeaseIfEnabled_def acquire_lease_def wrap_acquire_def file_Acquire_def fs_act_def Let_def case_prod_beta
      split: option.splits sum.splits prod.splits if_splits dest: file_acquire_lease)

lemma released_lock:
  assumes "\<forall>p w. fst (ax_lock_fault ax Remove p w) = None"
  shows "lf_dir (ap_locks (release_lease ax (Some (fileLease path)) a)) path = None"
  using assms by (simp add: release_lease_def file_Release_def fs_act_def remove_lock_def lock_env_def case_prod_beta with_world_def)

lemma RunPlan_task:
  assumes "RunPlan env e plan scheds s = Some (results, tr, s')"
  shows "t_TaskID tr = ep_TaskID plan"
proof (cases "buildGraph plan")
  case (Inl err)
  then show ?thesis using assms
    by (auto simp: RunPlan_def Let_def finish_run_def Finalize_def AddStep_def NewRecorder_def split: prod.splits)
next
  case (Inr g)
  then show ?thesis using RunPlan_spec [OF assms] by blast
qed

lemma run_leased_report:
  assumes "run_leased ax scheds ns registry cfg plan h = Some (Inr report, h')"
  shows "rr_Namespace report = ns \<and> t_TaskID (rr_Trace report) = ep_TaskID plan"
  using assms by (auto simp: run_leased_def run_engine_def split: option.splits prod.splits sum.splits dest: RunPlan_task)


section \<open>Witnesses\<close>

definition demo_env :: "(string \<Rightarrow> string) \<Rightarrow> (unit, string \<Rightarrow> string list \<Rightarrow> int, unit) app_env" where
  "demo_env getenv =
     \<lparr>ax_host = still_host, ax_getenv = getenv, ax_yaml = (\<lambda>_. Inr sample_manifest), ax_poll = (\<lambda>d w. (None, w)),
      ax_nap = (\<lambda>d n w. (None, w)), ax_sleep = (\<lambda>d w. w), ax_lock_fault = (\<lambda>fop p w. (None, w)),
      ax_redis = \<lparr>rd_ParseURL = (\<lambda>_. None), rd_Ping = (\<lambda>w. (None, w)), rd_SetNX = (\<lambda>k v d w. (Inr True, w)), rd_GET = (\<lambda>k w. None),
        rd_DEL = (\<lambda>k w. w), rd_EvalFault = (\<lambda>w. (None, w)), rd_Rand = (\<lambda>w. (Inr [], w))\<rparr>,
      ax_otel = \<lparr>ot_Resource = (\<lambda>_ w. (None, w)), ot_OTLP = (\<lambda>_ w. (None, w)), ot_Stdout = (\<lambda>w. (None, w))\<rparr>,
      ax_prometheus = function_counters, ax_NewRegistry = (\<lambda>_ _. 0), ax_servers = echo_servers,
      ax_http = \<lparr>hc_NewRequest = (\<lambda>_. None), hc_Do = (\<lambda>url hs b w. (Inr 200, w))\<rparr>\<rparr>"

definition demo_app :: "unit app" where
  "demo_app = \<lparr>ap_host = \<lparr>h_files = [''m.yaml'' \<mapsto> []], h_world = ()\<rparr>,
     ap_locks = \<lparr>lf_dir = Map.empty, lf_data = Map.empty, lf_next = 0\<rparr>\<rparr>"

definition demo_vars :: "string \<Rightarrow> string" where
  "demo_vars = (\<lambda>_. [])(''REQUEST_ROLE'' := ''admin'', ''AUDIT_LOG_PATH'' := ''audit.log'', ''COORDINATION_ENABLED'' := ''1'')"

lemma demo_fault_free: "fault_free (ax_host (demo_env getenv))"
  by (simp add: demo_env_def still_host_def fault_free_def)

lemma demo_fields [simp]:
  "ax_getenv (demo_env getenv) = getenv" "ax_yaml (demo_env getenv) b = Inr sample_manifest"
  "h_files (ap_host demo_app) ''m.yaml'' = Some []"
  by (simp_all add: demo_env_def demo_app_def)

lemma demo_policy: "\<exists>p. RBACPolicyFromManifest sample_manifest = Inr p
    \<and> IsAllowed p RoleAdmin ActionRun \<and> \<not> IsAllowed p RoleOperator ActionRun"
  using ParseRole_fixed [of RoleAdmin]
  by (simp add: RBACPolicyFromManifest_def parseOrDefault_def ParseRoles_def sample_manifest_def known_role_def role_names
      action_names IsAllowed_def NewPolicy_def Let_def)

lemma demo_role: "currentRole demo_vars = RoleAdmin" "currentRole (\<lambda>_. []) = RoleOperator"
proof -
  have "ParseRole ''admin'' = Inr RoleAdmin" using ParseRole_fixed [of RoleAdmin] by (simp add: known_role_def RoleAdmin_def)
  then show "currentRole demo_vars = RoleAdmin" by (simp add: currentRole_def demo_vars_def)
  show "currentRole (\<lambda>_. []) = RoleOperator"
    by (simp add: currentRole_def ParseRole_def role_names trim_space_graphic)
qed

lemma demo_config: "\<exists>cfg. RouterConfigFromManifest sample_manifest base = Inr cfg"
  by (simp add: RouterConfigFromManifest_def sample_manifest_def Let_def)

lemma demo_switches:
  "envBool demo_vars ''COORDINATION_ENABLED''" "\<not> envBool demo_vars ''METRICS_ENABLED''"
  "\<not> envBool demo_vars ''ASTRAGRAPH_EXPORT_STRICT''" "\<not> trace_envBool demo_vars ''TRACE_ENABLED''" "coordination_mode demo_vars = ''file''"
  by (simp_all add: envBool_def trace_envBool_def demo_vars_def coordination_mode_def Let_def trim_space_graphic graphic_def
      to_lower_ascii ascii_def lower_char_def)

lemma demo_quiet: "undisturbed (demo_env demo_vars)" "never_done (demo_env demo_vars)"
  using demo_switches by (simp_all add: undisturbed_def never_done_def demo_env_def demo_vars_def)

lemma demo_plain: "list_all plain (map ab_ID (mf_Agents sample_manifest))"
  by (simp add: sample_manifest_def plain_agent_def plain_def has_prefix_def)

lemma demo_granted: "lease_granted (demo_env demo_vars) (Suc 0) demo_app"
  unfolding lease_granted_def acquireLeaseIfEnabled_def acquire_lease_def file_Acquire_def file_acquire_loop.simps
    fs_act_def co_now_def
  by (simp add: demo_switches Let_def wrap_acquire_def open_excl_def write_expiry_def lock_env_def demo_app_def
      demo_env_def still_host_def)

lemma demo_setup:
  obtains policy cfg ns where "RBACPolicyFromManifest sample_manifest = Inr policy" "authorize demo_vars policy ActionRun = None"
    "\<not> IsAllowed policy RoleOperator ActionRun"
    "RouterConfigFromManifest sample_manifest (FromEnv demo_vars) = Inr cfg" "NamespaceFromManifest sample_manifest = Inr ns"
  using demo_policy demo_config [of "FromEnv demo_vars"] validated_namespace [OF sample_manifest_valid]
  by (auto simp: authorize_def demo_role Let_def)

lemma demo_run:
  "\<exists>scheds report a'. RunManifestReport (demo_env demo_vars) (Suc 0) scheds ''m.yaml'' demo_app = Some (Inr report, a')"
proof -
  obtain policy cfg ns where d: "RBACPolicyFromManifest sample_manifest = Inr policy" "authorize demo_vars policy ActionRun = None"
    "RouterConfigFromManifest sample_manifest (FromEnv demo_vars) = Inr cfg" "NamespaceFromManifest sample_manifest = Inr ns"
    by (rule demo_setup)
  have "authorize (ax_getenv (demo_env demo_vars)) policy ActionRun = None"
    "RouterConfigFromManifest sample_manifest (FromEnv (ax_getenv (demo_env demo_vars))) = Inr cfg" using d by simp_all
  from healthy_run [OF demo_fault_free demo_fields(3) demo_fields(2) sample_manifest_valid d(1) this demo_quiet demo_granted
      demo_plain d(4)] show ?thesis by fast
qed

lemma demo_log: "log_path (demo_env demo_vars) = ''audit.log''" "log_apart (demo_env demo_vars)"
  by (simp_all add: log_apart_def log_path_def demo_vars_def trim_space_graphic graphic_def)

lemma demo_servers: "readers_only (ax_servers (demo_env getenv))"
  by (simp add: readers_only_def demo_env_def echo_servers_def)

theorem healthy_pipeline_succeeds_witness:
  "\<exists>scheds out a'. RunManifest (demo_env demo_vars) (Suc 0) scheds ''m.yaml'' demo_app = Some ((out, None), a')"
proof -
  obtain policy cfg ns where d: "RBACPolicyFromManifest sample_manifest = Inr policy" "authorize demo_vars policy ActionRun = None"
    "RouterConfigFromManifest sample_manifest (FromEnv demo_vars) = Inr cfg" "NamespaceFromManifest sample_manifest = Inr ns"
    by (rule demo_setup)
  have "authorize (ax_getenv (demo_env demo_vars)) policy ActionRun = None"
    "RouterConfigFromManifest sample_manifest (FromEnv (ax_getenv (demo_env demo_vars))) = Inr cfg" using d by simp_all
  from healthy_pipeline_succeeds [OF demo_fault_free demo_fields(3) demo_fields(2) sample_manifest_valid d(1) this demo_quiet
      demo_granted demo_plain d(4)] show ?thesis by fast
qed


theorem denied_run_changes_nothing_witness:
  "\<exists>e a'. RunManifestReport (demo_env (\<lambda>_. [])) 0 [] ''m.yaml'' demo_app = Some (Inl e, a') \<and> ap_locks a' = ap_locks demo_app"
proof -
  obtain policy where p: "RBACPolicyFromManifest sample_manifest = Inr policy" "\<not> IsAllowed policy RoleOperator ActionRun"
    by (rule demo_setup)
  have "\<not> IsAllowed policy (currentRole (ax_getenv (demo_env (\<lambda>_. [])))) ActionRun" using p(2) by (simp add: demo_role)
  from denied_run_changes_nothing [OF demo_fault_free demo_fields(3) demo_fields(2) sample_manifest_valid p(1) this]
  show ?thesis by blast
qed


end
