(* ===== verification/CliProps.thy ===== *)
theory CliProps
  imports Cli AppProps
begin

text \<open>
  Properties of the programs and of the HTTP interface: which requests can change anything, what the
  exit status says, and where two ways to run the same manifest differ.
\<close>

section \<open>The HTTP interface\<close>

text \<open>
  C35: Only a POST can do anything. A request with another method, or for an unknown path, is answered
  at once and leaves the files, the locks and the rest of the process as they are; a route behaves
  the same with and without the version prefix.
\<close>

theorem only_post_acts:
  "(rq_Method r \<noteq> ''POST'' \<or> rq_Path r \<notin> fst ` set (router_mux ax n scheds) \<longrightarrow> (\<exists>resp. RouterHandler ax n scheds r a = Some (resp, a)))
   \<and> (p \<in> {''/healthz'', ''/readyz'', ''/run'', ''/validate'', ''/replay''} \<longrightarrow>
        RouterHandler ax n scheds (r\<lparr>rq_Path := ''/v1'' @ p\<rparr>) a = RouterHandler ax n scheds (r\<lparr>rq_Path := p\<rparr>) a)"
proof (intro conjI impI)
  assume "rq_Method r \<noteq> ''POST'' \<or> rq_Path r \<notin> fst ` set (router_mux ax n scheds)"
  then show "\<exists>resp. RouterHandler ax n scheds r a = Some (resp, a)"
  proof
    assume "rq_Method r \<noteq> ''POST''"
    then have "\<forall>ph \<in> set (router_mux ax n scheds). \<exists>resp. snd ph r a = Some (resp, a)"
      by (auto simp: router_mux_def router_register_def handle_run_def handle_validate_def handle_replay_def post_field_def)
    then show ?thesis by (auto simp: RouterHandler_def split: option.splits dest!: map_of_SomeD)
  next
    assume "rq_Path r \<notin> fst ` set (router_mux ax n scheds)"
    then have "map_of (router_mux ax n scheds) (rq_Path r) = None" by (simp add: map_of_eq_None_iff)
    then show ?thesis by (simp add: RouterHandler_def)
  qed
next
  have body: "post_field ty fld k (r\<lparr>rq_Path := q\<rparr>) = post_field ty fld k r" for ty fld k q
    by (rule ext) (simp add: post_field_def)
  assume "p \<in> {''/healthz'', ''/readyz'', ''/run'', ''/validate'', ''/replay''}"
  then show "RouterHandler ax n scheds (r\<lparr>rq_Path := ''/v1'' @ p\<rparr>) a = RouterHandler ax n scheds (r\<lparr>rq_Path := p\<rparr>) a"
    by (auto simp: RouterHandler_def router_mux_def router_register_def handle_run_def handle_validate_def handle_replay_def body)
qed

theorem only_post_acts_witness:
  "\<exists>resp. RouterHandler (demo_env demo_vars) 0 [] \<lparr>rq_Method = ''GET'', rq_Path = ''/v1/run'', rq_Header = (\<lambda>_. []), rq_Query = (\<lambda>_. []),
     rq_Body = Inl (Errorf ''EOF'')\<rparr> demo_app = Some (resp, demo_app)"
proof -
  let ?r = "\<lparr>rq_Method = ''GET'', rq_Path = ''/v1/run'', rq_Header = (\<lambda>_. []), rq_Query = (\<lambda>_. []), rq_Body = Inl (Errorf ''EOF'')\<rparr>"
  have "rq_Method ?r \<noteq> ''POST''" by simp
  with only_post_acts [of ?r "demo_env demo_vars" 0 "[]" demo_app] show ?thesis by blast
qed

section \<open>The exit status\<close>

lemma encode_line_not_empty: "encodable v \<Longrightarrow> encode_line v \<noteq> []"
  by (simp add: encode_line_def json_Marshal_def line_def)

lemma cli_fail_not_empty: "cli_fail jsonOut command path err \<noteq> []"
  by (simp add: cli_fail_def line_def cliResult_def encode_line_not_empty)

lemma exited_fields [simp]: "oc_status (exited out err c) = c" "oc_stderr (exited out err c) = err" "oc_stdout (exited out err c) = out"
  by (simp_all add: exited_def)

lemma usage_not_empty: "usage \<noteq> []"
  by (simp add: usage_def line_def)

definition reports :: "outcome \<Rightarrow> bool" where
  "reports oc \<longleftrightarrow> (oc_status oc = 0 \<and> oc_stderr oc = []) \<or> (oc_status oc = 1 \<and> oc_stderr oc \<noteq> [])"

lemma reports_exited: "reports (exited out [] 0)" "err \<noteq> [] \<Longrightarrow> reports (exited out err (Suc 0))"
  by (simp_all add: reports_def)

lemma cli_flags_reports: "cli_flags ver j args = Inl oc \<Longrightarrow> reports oc"
proof (induction args arbitrary: j)
  case (Cons arg args)
  have "reports (exited usage [] 0)" "reports (exited (line ver) [] 0)"
    "reports (exited [] (cli_fail j arg [] (Errorf (''unknown flag: '' @ arg))) 1)"
    by (simp_all add: reports_exited cli_fail_not_empty)
  with Cons show ?case by (auto simp only: cli_flags.simps sum.inject sum.distinct split: if_split_asm)
qed simp

lemmas cli_commands = cli_run_def cli_validate_def cli_replay_def cli_audit_export_def cli_scaffold_def cli_debug_def

lemma cli_command_reports:
  assumes "cli_command ax n scheds ver j command rest a = Some (oc, a')"
  shows "reports oc"
proof -
  have "reports oc" if "cli_run ax n scheds j rest a = Some (oc, a')"
    using that by (auto simp: cli_run_def Let_def reports_exited cli_fail_not_empty split: if_splits option.splits sum.splits)
  moreover have "reports oc" if "cli_validate ax j rest a = Some (oc, a')"
    using that by (auto simp: cli_validate_def Let_def reports_exited cli_fail_not_empty split: prod.splits option.splits)
  moreover have "reports oc" if "cli_replay ax j rest a = Some (oc, a')"
    using that by (auto simp: cli_replay_def Let_def reports_exited cli_fail_not_empty split: prod.splits sum.splits)
  moreover have "reports oc" if "cli_audit_export ax j rest a = Some (oc, a')"
    using that by (auto simp: cli_audit_export_def Let_def reports_exited cli_fail_not_empty split: prod.splits option.splits)
  moreover have "reports oc" if "cli_scaffold ax j rest a = Some (oc, a')"
    using that by (auto simp: cli_scaffold_def Let_def reports_exited cli_fail_not_empty split: prod.splits option.splits)
  moreover have "reports oc" if "cli_debug ax j rest a = Some (oc, a')"
    using that by (auto simp: cli_debug_def reports_exited cli_fail_not_empty split: list.splits prod.splits option.splits)
  ultimately show ?thesis
    using assms by (auto simp: cli_command_def reports_exited cli_fail_not_empty split: if_splits)
qed



section \<open>Runs that fail\<close>

lemma called_failing:
  assumes "\<And>d inp w. \<exists>out e. fst (fn d inp w) = Returned out (Some e)" and "called cfg fn cb invoc out err"
  shows "err \<noteq> None"
proof -
  from assms(2) obtain d w raw w' where call: "safeCall fn d (inv_Input invoc) w = ((out, raw), w')"
    and err: "err = normalizeInvocationError raw" by (auto simp: called_def)
  obtain out' e where "fst (fn d (inv_Input invoc) w) = Returned out' (Some e)" using assms(1) by blast
  then have "raw = Some e" using call by (cases "fn d (inv_Input invoc) w") (simp add: safeCall_def)
  with err show ?thesis by (simp add: normalizeInvocationError_def)
qed

lemma node_run_failing:
  assumes "node_run env cfg fn policy cb invoc k ss r" and "\<And>d inp w. \<exists>out e. fst (fn d inp w) = Returned out (Some e)"
  shows "ar_Err r \<noteq> None"
proof -
  have never: "\<not> called cfg fn cb invoc out None" for out
    using called_failing [of fn cfg cb invoc out None] assms(2) by blast
  from assms(1) show ?thesis by (induction rule: node_run.induct) (use never in auto)
qed

lemma RunPlan_all_fail:
  assumes run: "RunPlan env e plan scheds s = Some (results, tr, s')" and g: "buildGraph plan = Inr g"
    and fail: "\<And>a fn d inp w. registry_get a (eng_registry e) = Some fn \<Longrightarrow> \<exists>out err. fst (fn d inp w) = Returned out (Some err)"
  shows "failed_results results = length (ep_Nodes plan)"
proof -
  from RunPlan_spec [OF run g] obtain resm log where pr: "plan_run env e plan g resm log"
    and res: "results = map (\<lambda>i. the (resm i)) (sort_strings (plan_ids plan))" by blast
  have node: "ar_Err r \<noteq> None" if "node_ok env e g resm n ss r" for n ss r
    using that node_run_failing fail by (fastforce simp: node_ok_def Let_def split: option.splits)
  have "ar_Err (the (resm i)) \<noteq> None" if "i \<in> set (plan_ids plan)" for i
    using pr that node by (fastforce simp: plan_run_def plan_ids_def)
  then have "filter (\<lambda>r. ar_Err r \<noteq> None) results = results" by (auto simp: res filter_id_conv)
  then show ?thesis by (simp add: failed_results_def res plan_ids_def)
qed

lemma app_agent_failing:
  assumes "has_prefix a ''fail_''"
  shows "\<exists>out e. fst (app_agent ax a d inp w) = Returned out (Some e)"
proof -
  have "\<not> has_prefix a ''panic_''" using assms by (auto simp: has_prefix_iff)
  with assms show ?thesis
    by (auto simp: app_agent_def deterministicAgent_def Let_def split: prod.splits option.splits)
qed


definition failing_env :: "(unit, string \<Rightarrow> string list \<Rightarrow> int, unit) app_env" where
  "failing_env = (demo_env (\<lambda>_. []))\<lparr>ax_yaml := \<lambda>_. Inr (scaffold_manifest ''fail_x'')\<rparr>"

lemma failing_namespace: "namespacePattern ''fail_x''"
  by (simp add: namespacePattern_def namespace_char_def lower_letter_def)

lemma failing_policy:
  "\<exists>p. RBACPolicyFromManifest (scaffold_manifest ''fail_x'') = Inr p \<and> IsAllowed p RoleOperator ActionRun"
proof -
  have "ParseRole ''operator'' = Inr ''operator''" "ParseRole ''admin'' = Inr ''admin''" "ParseRole ''viewer'' = Inr ''viewer''"
    using ParseRole_fixed [of RoleOperator] ParseRole_fixed [of RoleAdmin] ParseRole_fixed [of RoleViewer]
    by (simp_all add: known_role_def role_names)
  then show ?thesis
    by (simp add: RBACPolicyFromManifest_def parseOrDefault_def ParseRoles_def scaffold_manifest_def role_names
        action_names IsAllowed_def NewPolicy_def Let_def)
qed

lemma failing_config: "\<exists>cfg. RouterConfigFromManifest (scaffold_manifest ''fail_x'') base = Inr cfg"
proof -
  have "\<exists>d. parse_duration ''10s'' = Inr d"
    by (simp add: parse_duration_def split_sign_def duration_loop.simps duration_part_def unit_char_def is_digit_def
        digit_val_def unit_map_def micro_sign_def greek_mu_def byte_string_def Let_def)
  then show ?thesis by (auto simp: RouterConfigFromManifest_def scaffold_manifest_def Let_def)
qed

lemma failing_run:
  "\<exists>scheds report a'. RunManifestReport failing_env 0 scheds ''m.yaml'' demo_app = Some (Inr report, a')
     \<and> failed_results (rr_Results report) = 2"
proof -
  let ?m = "scaffold_manifest ''fail_x''" and ?ids = "map ab_ID (mf_Agents (scaffold_manifest ''fail_x''))"
  have env: "fault_free (ax_host failing_env)" "h_files (ap_host demo_app) ''m.yaml'' = Some []" "ax_yaml failing_env [] = Inr ?m"
    "ax_getenv failing_env = (\<lambda>_. [])"
    using demo_fault_free [of "\<lambda>_. []"] by (simp_all add: failing_env_def demo_app_def demo_env_def)
  obtain p cfg ns where p: "RBACPolicyFromManifest ?m = Inr p" "IsAllowed p RoleOperator ActionRun"
    and cfg: "RouterConfigFromManifest ?m (FromEnv (ax_getenv failing_env)) = Inr cfg" and ns: "NamespaceFromManifest ?m = Inr ns"
    using failing_policy failing_config validated_namespace [OF scaffold_manifest_valid [OF failing_namespace]] by blast
  have auth: "authorize (ax_getenv failing_env) p ActionRun = None" using p(2) by (simp add: authorize_def env demo_role Let_def)
  have off: "\<not> envBool (\<lambda>_. []) key" "\<not> trace_envBool (\<lambda>_. []) key" for key
    by (simp_all add: envBool_def trace_envBool_def trim_space_graphic Let_def)
  then have quiet: "undisturbed failing_env" and granted: "lease_granted failing_env 0 demo_app"
    by (simp_all add: undisturbed_def env lease_granted_disabled)
  obtain plan g rec ms h finish where g: "buildGraph plan = Inr g" "length (ep_Nodes plan) = length (mf_Pipeline ?m)"
    and run: "RunManifestReport failing_env 0 scheds ''m.yaml'' demo_app =
      map_option (\<lambda>(results, tr, snap, h). (Inr \<lparr>rr_Results = results, rr_Trace = tr, rr_Metrics = snap, rr_Namespace = ns\<rparr>, finish tr h))
        (run_engine failing_env scheds (newGenericRegistry (app_agent failing_env) ?ids) cfg plan rec ms h)" for scheds
    by (rule quiet_run [OF env(1-3) scaffold_manifest_valid [OF failing_namespace] p(1) auth cfg quiet granted ns]) (rule that)
  obtain scheds results tr snap h' where eng: "run_engine failing_env scheds (newGenericRegistry (app_agent failing_env) ?ids) cfg plan rec ms h
      = Some (results, tr, snap, h')"
    using run_engine_completable [of failing_env ?ids cfg plan rec ms h] by fast
  have "\<forall>a \<in> set ?ids. has_prefix a ''fail_''" by (simp add: scaffold_manifest_def scaffold_agent_def has_prefix_def Let_def)
  then have fails: "\<exists>out e. fst (fn d inp w) = Returned out (Some e)"
    if "registry_get a (newGenericRegistry (app_agent failing_env) ?ids) = Some fn" for a fn d inp w
    using generic_registry_get [OF that] app_agent_failing by metis
  from eng obtain s' where "RunPlan (engine_env failing_env) (app_engine failing_env ?ids cfg rec) plan scheds
      \<lparr>sh_breaker = NewCircuitBreaker, sh_metrics = ms, sh_recorder = NewRecorder [] time_zero,
       sh_world = \<lparr>dw_attempts = (\<lambda>_. Map.empty), dw_env = h\<rparr>\<rparr> = Some (results, tr, s')"
    by (auto simp: run_engine_def NewEngine_def)
  from RunPlan_all_fail [OF this g(1)] fails have "failed_results results = length (ep_Nodes plan)" by simp
  moreover have "length (mf_Pipeline ?m) = 2" by (simp add: scaffold_manifest_def Let_def)
  ultimately show ?thesis using g(2) eng by (intro exI [of _ scheds]) (simp add: run)
qed


end
