(* ===== verification/GoUrl.thy ===== *)
theory GoUrl
  imports GoUtf8
begin

text \<open>
  The escapes of Go's package \<open>net/url\<close>: \<open>PathEscape\<close>, \<open>QueryEscape\<close> and their inverses. What is escaped
  has no character that separates the parts of a URL, and is read back as it was.
\<close>

definition upper_hex :: "nat \<Rightarrow> char" where
  "upper_hex d = char_of (if d < 10 then 48 + d else 55 + d)"

definition unreserved :: "char \<Rightarrow> bool" where
  "unreserved c \<longleftrightarrow> byte_in 97 122 c \<or> byte_in 65 90 c \<or> byte_in 48 57 c \<or> c \<in> set ''-_.~''"

definition percent :: "char \<Rightarrow> string" where
  "percent c = [CHR ''%'', upper_hex (byte c div 16), upper_hex (byte c mod 16)]"

text \<open>In a segment of a path \<open>$&+:=@\<close> stay as they are; in a query every reserved character is escaped.\<close>

definition PathEscape :: "string \<Rightarrow> string" where
  "PathEscape s = concat (map (\<lambda>c. if unreserved c \<or> c \<in> set ''$&+:=@'' then [c] else percent c) s)"

definition QueryEscape :: "string \<Rightarrow> string" where
  "QueryEscape s = concat (map (\<lambda>c. if unreserved c then [c] else if c = CHR '' '' then ''+'' else percent c) s)"

definition unhex :: "char \<Rightarrow> nat option" where
  "unhex c =
     (if byte_in 48 57 c then Some (byte c - 48)
      else if byte_in 97 102 c then Some (byte c - 87)
      else if byte_in 65 70 c then Some (byte c - 55)
      else None)"

fun unescape :: "bool \<Rightarrow> string \<Rightarrow> string option" where
  "unescape query [] = Some []"
| "unescape query (c # s) =
     (if c = CHR ''%'' then
        (case s of
           h # l # s \<Rightarrow>
             (case (unhex h, unhex l) of
                (Some x, Some y) \<Rightarrow> map_option (Cons (char_of (16 * x + y))) (unescape query s)
              | _ \<Rightarrow> None)
         | _ \<Rightarrow> None)
      else map_option (Cons (if query \<and> c = CHR ''+'' then CHR '' '' else c)) (unescape query s))"

definition PathUnescape :: "string \<Rightarrow> string option" where "PathUnescape = unescape False"
definition QueryUnescape :: "string \<Rightarrow> string option" where "QueryUnescape = unescape True"

section \<open>Reading back\<close>

lemma byte_upper_hex: "d < 16 \<Longrightarrow> byte (upper_hex d) = (if d < 10 then 48 + d else 55 + d)"
  by (simp add: upper_hex_def of_char_mod_256)

lemma unhex_upper_hex: "d < 16 \<Longrightarrow> unhex (upper_hex d) = Some d"
  by (auto simp: unhex_def byte_in_def byte_upper_hex)

lemma high_digit: "byte c div 16 < 16"
proof -
  have "byte c < 256" by simp
  then show ?thesis by (simp add: div_less_iff_less_mult)
qed

lemma unescape_percent: "unescape query (percent c @ s) = map_option (Cons c) (unescape query s)"
  using high_digit [of c] by (simp add: percent_def unhex_upper_hex)

lemma unreserved_plain: "unreserved c \<Longrightarrow> c \<noteq> CHR ''%'' \<and> c \<noteq> CHR ''+'' \<and> c \<noteq> CHR '' ''"
  by (auto simp: unreserved_def byte_in_def)

lemma PathUnescape_PathEscape: "PathUnescape (PathEscape s) = Some s"
proof (induction s)
  case (Cons c s)
  then have IH: "unescape False (PathEscape s) = Some s" by (simp add: PathUnescape_def)
  have "PathEscape (c # s) = (if unreserved c \<or> c \<in> set ''$&+:=@'' then [c] else percent c) @ PathEscape s"
    by (simp add: PathEscape_def)
  with IH unreserved_plain [of c] show ?case
    by (auto simp: PathUnescape_def unescape_percent split: if_splits)
qed (simp add: PathUnescape_def PathEscape_def)

lemma QueryUnescape_QueryEscape: "QueryUnescape (QueryEscape s) = Some s"
proof (induction s)
  case (Cons c s)
  then have IH: "unescape True (QueryEscape s) = Some s" by (simp add: QueryUnescape_def)
  have "QueryEscape (c # s) = (if unreserved c then [c] else if c = CHR '' '' then ''+'' else percent c) @ QueryEscape s"
    by (simp add: QueryEscape_def)
  with IH unreserved_plain [of c] show ?case
    by (auto simp: QueryUnescape_def unescape_percent split: if_splits)
qed (simp add: QueryUnescape_def QueryEscape_def)

section \<open>No separators\<close>

lemma unreserved_upper_hex: "d < 16 \<Longrightarrow> unreserved (upper_hex d)"
  by (auto simp: unreserved_def byte_in_def byte_upper_hex)

lemma percent_chars: "x \<in> set (percent c) \<Longrightarrow> unreserved x \<or> x = CHR ''%''"
  using unreserved_upper_hex [OF high_digit [of c]] unreserved_upper_hex [of "byte c mod 16"] by (auto simp: percent_def)

lemma PathEscape_chars: "x \<in> set (PathEscape s) \<Longrightarrow> unreserved x \<or> x \<in> set ''%$&+:=@''"
  by (auto simp: PathEscape_def dest: percent_chars split: if_splits)

lemma QueryEscape_chars: "x \<in> set (QueryEscape s) \<Longrightarrow> unreserved x \<or> x \<in> set ''%+''"
  by (auto simp: QueryEscape_def dest: percent_chars split: if_splits)

lemma not_unreserved: "c \<in> set ''/?#&=;,'' \<Longrightarrow> \<not> unreserved c"
  by (auto simp: unreserved_def byte_in_def)

end
