(* ===== verification/Adapters.thy ===== *)
theory Adapters
  imports GoJsonDecode GoUrl "HOL-Library.AList" "HOL-Library.Monad_Syntax"
begin

text \<open>
  The clients of three language model services, \<open>src/pkg/adapters\<close>: a generation request is turned into
  one HTTP request, the answer is decoded into text and token counts. The HTTP client is a parameter:
  a function of the time budget, the request and the world, which gives the status and the body, or
  fails while sending or while the body is read.
\<close>

record GenerateRequest =
  gq_Model :: string
  gq_Prompt :: string
  gq_MaxTokens :: go_int
  gq_Temperature :: f64

record GenerateResponse =
  gp_Text :: string
  gp_InputTokens :: go_int
  gp_OutputTokens :: go_int
  gp_Raw :: bytes

record 'w Provider =
  pv_Name :: string
  pv_Generate :: "duration \<Rightarrow> GenerateRequest \<Rightarrow> 'w \<Rightarrow> GenerateResponse result \<times> 'w"

section \<open>Requests\<close>

record http_request =
  hr_Method :: string
  hr_URL :: string
  hr_Header :: "(string \<times> string) list"
  hr_Body :: bytes

type_synonym 'w http_do = "duration \<Rightarrow> http_request \<Rightarrow> 'w \<Rightarrow> (go_int \<times> bytes result) result \<times> 'w"

text \<open>\<open>http.NewRequestWithContext\<close> may refuse a URL; \<open>http.DefaultClient\<close> stands in for a nil client.\<close>

record 'w http_lib =
  hl_NewRequest :: "string \<Rightarrow> goerr option"
  hl_DefaultClient :: "'w http_do"

text \<open>
  \<open>Header.Set\<close> with the canonical form of a name, for names of letters, digits and hyphens: a capital
  at the start and after each hyphen, lower case elsewhere.
\<close>

definition upper_char :: "char \<Rightarrow> char" where
  "upper_char c = (if byte_in 97 122 c then char_of (byte c - 32) else c)"

fun canonical_key :: "bool \<Rightarrow> string \<Rightarrow> string" where
  "canonical_key up [] = []"
| "canonical_key up (c # s) = (if up then upper_char c else lower_char c) # canonical_key (c = CHR ''-'') s"

definition header_Set :: "string \<Rightarrow> string \<Rightarrow> http_request \<Rightarrow> http_request" where
  "header_Set name val rq = rq\<lparr>hr_Header := AList.update (canonical_key True name) val (hr_Header rq)\<rparr>"

definition NewRequest :: "'w http_lib \<Rightarrow> string \<Rightarrow> string \<Rightarrow> http_request result" where
  "NewRequest lib verb url =
     (case hl_NewRequest lib url of
        Some e \<Rightarrow> Inl e
      | None \<Rightarrow> Inr \<lparr>hr_Method = verb, hr_URL = url, hr_Header = [], hr_Body = []\<rparr>)"

definition DoJSON ::
  "'w http_lib \<Rightarrow> duration \<Rightarrow> 'w http_do option \<Rightarrow> http_request \<Rightarrow> jval option \<Rightarrow> 'w \<Rightarrow> bytes result \<times> 'w" where
  "DoJSON lib ctx client req payload w =
     (let client = (case client of None \<Rightarrow> hl_DefaultClient lib | Some c \<Rightarrow> c)
      in case (case payload of
                 None \<Rightarrow> Inr req
               | Some v \<Rightarrow>
                   (case json_Marshal v of
                      Inl e \<Rightarrow> Inl (WrapErr ''marshal request: '' e [])
                    | Inr b \<Rightarrow> Inr (header_Set ''Content-Type'' ''application/json'' (req\<lparr>hr_Body := b\<rparr>)))) of
           Inl e \<Rightarrow> (Inl e, w)
         | Inr req \<Rightarrow>
             (case client ctx req w of
                (Inl e, w) \<Rightarrow> (Inl (WrapErr ''http request failed: '' e []), w)
              | (Inr (status, body), w) \<Rightarrow>
                  (case body of
                     Inl e \<Rightarrow> (Inl (WrapErr ''read response: '' e []), w)
                   | Inr body \<Rightarrow>
                       if 300 \<le> status
                       then (Inl (Errorf (''provider returned status '' @ itoa status @ '': '' @ body)), w)
                       else (Inr body, w))))"

section \<open>Clients\<close>

text \<open>The struct \<open>Client\<close>, the same in the three packages.\<close>

record 'w Client =
  cl_apiKey :: string
  cl_baseURL :: string
  cl_httpClient :: "'w http_do option"

definition trim_slashes :: "string \<Rightarrow> string" where
  "trim_slashes s = rev (dropWhile (\<lambda>c. c = CHR ''/'') (rev s))"

definition new_client :: "string \<Rightarrow> string \<Rightarrow> 'w http_do option \<Rightarrow> string \<Rightarrow> 'w Client" where
  "new_client defaultBaseURL apiKey httpClient baseURL =
     (let baseURL = (if baseURL = [] then defaultBaseURL else baseURL)
      in \<lparr>cl_apiKey = apiKey, cl_baseURL = trim_slashes baseURL, cl_httpClient = httpClient\<rparr>)"

definition openai_NewClient :: "string \<Rightarrow> 'w http_do option \<Rightarrow> string \<Rightarrow> 'w Client" where
  "openai_NewClient = new_client ''https://api.openai.com''"

definition anthropic_NewClient :: "string \<Rightarrow> 'w http_do option \<Rightarrow> string \<Rightarrow> 'w Client" where
  "anthropic_NewClient = new_client ''https://api.anthropic.com''"

definition gemini_NewClient :: "string \<Rightarrow> 'w http_do option \<Rightarrow> string \<Rightarrow> 'w Client" where
  "gemini_NewClient = new_client ''https://generativelanguage.googleapis.com''"

text \<open>The checks and the default values before a request is built.\<close>

definition checked_request :: "string \<Rightarrow> 'w Client \<Rightarrow> GenerateRequest \<Rightarrow> GenerateRequest result" where
  "checked_request model c req =
     (if trim_space (cl_apiKey c) = [] then Inl (Sentinel ErrMissingAPIKey)
      else if trim_space (gq_Prompt req) = [] then Inl (Sentinel ErrEmptyPrompt)
      else
        (let req = (if gq_Model req = [] then req\<lparr>gq_Model := model\<rparr> else req);
             req = (if gq_MaxTokens req \<le> 0 then req\<lparr>gq_MaxTokens := 512\<rparr> else req)
         in Inr req))"

section \<open>Decoding into structs without a name\<close>

definition struct_type :: "(string \<times> string \<times> string) list \<Rightarrow> string" where
  "struct_type fs = ''struct { ''
     @ join_with ''; '' (map (\<lambda>(name, typ, tag). name @ '' '' @ typ @ '' '' @ fmt_q (''json:'' @ fmt_q tag)) fs) @ '' }''"

definition dec_list :: "string \<Rightarrow> 'a \<Rightarrow> 'a decoder \<Rightarrow> 'a list decoder" where
  "dec_list typ zero dec ctx v xs =
     (case v of
        JNull \<Rightarrow> ([], None)
      | JArr vs \<Rightarrow> dec_slice zero dec ctx vs xs
      | _ \<Rightarrow> (xs, Some (type_error ctx (value_name v) (''[]'' @ typ))))"

definition unmarshal :: "'r decoder \<Rightarrow> 'r \<Rightarrow> bytes \<Rightarrow> 'r result" where
  "unmarshal dec zero b =
     (case json_parse b of
        Inl e \<Rightarrow> Inl e
      | Inr v \<Rightarrow> (case dec ([], []) v zero of (r, None) \<Rightarrow> Inr r | (r, Some e) \<Rightarrow> Inl e))"

text \<open>The structs \<open>{Type, Text}\<close> and \<open>{InputTokens, OutputTokens}\<close> of the answers.\<close>

record piece =
  pc_Type :: string
  pc_Text :: string

record tokens =
  tk_In :: go_int
  tk_Out :: go_int

definition empty_piece :: piece where "empty_piece = \<lparr>pc_Type = [], pc_Text = []\<rparr>"
definition no_tokens :: tokens where "no_tokens = \<lparr>tk_In = 0, tk_Out = 0\<rparr>"

definition piece_type :: string where
  "piece_type = struct_type [(''Type'', ''string'', ''type''), (''Text'', ''string'', ''text'')]"

definition dec_piece :: "piece decoder" where
  "dec_piece = dec_object piece_type
     [(''type'', dec_field pc_Type pc_Type_update dec_string), (''text'', dec_field pc_Text pc_Text_update dec_string)]"

definition tokens_type :: string where
  "tokens_type = struct_type [(''InputTokens'', ''int'', ''input_tokens''), (''OutputTokens'', ''int'', ''output_tokens'')]"

definition dec_tokens :: "tokens decoder" where
  "dec_tokens = dec_object tokens_type
     [(''input_tokens'', dec_field tk_In tk_In_update (dec_int ''int'')), (''output_tokens'', dec_field tk_Out tk_Out_update (dec_int ''int''))]"

text \<open>The loops that collect the text of an answer.\<close>

definition pieces_text :: "string \<Rightarrow> piece list \<Rightarrow> string" where
  "pieces_text kind ps = concat (map (\<lambda>p. if pc_Type p = kind \<or> pc_Text p \<noteq> [] then pc_Text p else []) ps)"

definition parsed_or_error :: "'r result \<Rightarrow> ('r \<Rightarrow> GenerateResponse) \<Rightarrow> GenerateResponse result" where
  "parsed_or_error r f = (case r of Inl e \<Rightarrow> Inl (WrapErr ''parse response: '' e []) | Inr p \<Rightarrow> Inr (f p))"

section \<open>OpenAI\<close>

record openai_answer =
  oa_Output :: "piece list list"
  oa_OutputText :: string
  oa_Usage :: tokens

definition openai_payload :: "GenerateRequest \<Rightarrow> jval" where
  "openai_payload req = JObj [(''input'', JStr (gq_Prompt req)), (''max_output_tokens'', JInt (gq_MaxTokens req)),
     (''model'', JStr (gq_Model req)), (''temperature'', JFloat (gq_Temperature req))]"

definition openai_output_type :: string where
  "openai_output_type = struct_type [(''Content'', ''[]'' @ piece_type, ''content'')]"

definition dec_openai_output :: "piece list decoder" where
  "dec_openai_output = dec_object openai_output_type
     [(''content'', dec_field id id (dec_list piece_type empty_piece dec_piece))]"

definition dec_openai :: "openai_answer decoder" where
  "dec_openai = dec_object
     (struct_type [(''Output'', ''[]'' @ openai_output_type, ''output''), (''OutputText'', ''string'', ''output_text''), (''Usage'', tokens_type, ''usage'')])
     [(''output'', dec_field oa_Output oa_Output_update (dec_list openai_output_type [] dec_openai_output)),
      (''output_text'', dec_field oa_OutputText oa_OutputText_update dec_string),
      (''usage'', dec_field oa_Usage oa_Usage_update dec_tokens)]"

definition openai_parse :: "bytes \<Rightarrow> GenerateResponse result" where
  "openai_parse body =
     parsed_or_error (unmarshal dec_openai \<lparr>oa_Output = [], oa_OutputText = [], oa_Usage = no_tokens\<rparr> body)
       (\<lambda>parsed.
          let t = trim_space (oa_OutputText parsed);
              t = (if t = [] then concat (map (pieces_text ''output_text'') (oa_Output parsed)) else t)
          in \<lparr>gp_Text = t, gp_InputTokens = tk_In (oa_Usage parsed), gp_OutputTokens = tk_Out (oa_Usage parsed), gp_Raw = body\<rparr>)"

definition openai_Generate :: "'w http_lib \<Rightarrow> 'w Client \<Rightarrow> duration \<Rightarrow> GenerateRequest \<Rightarrow> 'w \<Rightarrow> GenerateResponse result \<times> 'w" where
  "openai_Generate lib c ctx req w =
     (case checked_request ''gpt-4o-mini'' c req of
        Inl e \<Rightarrow> (Inl e, w)
      | Inr req \<Rightarrow>
          (case NewRequest lib ''POST'' (cl_baseURL c @ ''/v1/responses'') of
             Inl e \<Rightarrow> (Inl (WrapErr ''build request: '' e []), w)
           | Inr hReq \<Rightarrow>
               (let hReq = header_Set ''Authorization'' (''Bearer '' @ cl_apiKey c) hReq
                in case DoJSON lib ctx (cl_httpClient c) hReq (Some (openai_payload req)) w of
                     (Inl e, w) \<Rightarrow> (Inl e, w)
                   | (Inr body, w) \<Rightarrow> (openai_parse body, w))))"

section \<open>Anthropic\<close>

record anthropic_answer =
  an_Content :: "piece list"
  an_Usage :: tokens

definition anthropic_payload :: "GenerateRequest \<Rightarrow> jval" where
  "anthropic_payload req = JObj [(''max_tokens'', JInt (gq_MaxTokens req)),
     (''messages'', JArr [JObj [(''content'', JStr (gq_Prompt req)), (''role'', JStr ''user'')]]),
     (''model'', JStr (gq_Model req)), (''temperature'', JFloat (gq_Temperature req))]"

definition dec_anthropic :: "anthropic_answer decoder" where
  "dec_anthropic = dec_object (struct_type [(''Content'', ''[]'' @ piece_type, ''content''), (''Usage'', tokens_type, ''usage'')])
     [(''content'', dec_field an_Content an_Content_update (dec_list piece_type empty_piece dec_piece)),
      (''usage'', dec_field an_Usage an_Usage_update dec_tokens)]"

definition anthropic_parse :: "bytes \<Rightarrow> GenerateResponse result" where
  "anthropic_parse body =
     parsed_or_error (unmarshal dec_anthropic \<lparr>an_Content = [], an_Usage = no_tokens\<rparr> body)
       (\<lambda>parsed. \<lparr>gp_Text = pieces_text ''text'' (an_Content parsed), gp_InputTokens = tk_In (an_Usage parsed),
                 gp_OutputTokens = tk_Out (an_Usage parsed), gp_Raw = body\<rparr>)"

definition anthropic_Generate :: "'w http_lib \<Rightarrow> 'w Client \<Rightarrow> duration \<Rightarrow> GenerateRequest \<Rightarrow> 'w \<Rightarrow> GenerateResponse result \<times> 'w" where
  "anthropic_Generate lib c ctx req w =
     (case checked_request ''claude-3-5-sonnet-latest'' c req of
        Inl e \<Rightarrow> (Inl e, w)
      | Inr req \<Rightarrow>
          (case NewRequest lib ''POST'' (cl_baseURL c @ ''/v1/messages'') of
             Inl e \<Rightarrow> (Inl (WrapErr ''build request: '' e []), w)
           | Inr hReq \<Rightarrow>
               (let hReq = header_Set ''anthropic-version'' ''2023-06-01'' (header_Set ''x-api-key'' (cl_apiKey c) hReq)
                in case DoJSON lib ctx (cl_httpClient c) hReq (Some (anthropic_payload req)) w of
                     (Inl e, w) \<Rightarrow> (Inl e, w)
                   | (Inr body, w) \<Rightarrow> (anthropic_parse body, w))))"

section \<open>Gemini\<close>

record gemini_answer =
  ga_Candidates :: "string list list"
  ga_UsageMetadata :: tokens

definition gemini_payload :: "GenerateRequest \<Rightarrow> jval" where
  "gemini_payload req = JObj
     [(''contents'', JArr [JObj [(''parts'', JArr [JObj [(''text'', JStr (gq_Prompt req))]]), (''role'', JStr ''user'')]]),
      (''generationConfig'', JObj [(''maxOutputTokens'', JInt (gq_MaxTokens req)), (''temperature'', JFloat (gq_Temperature req))])]"

definition part_type :: string where "part_type = struct_type [(''Text'', ''string'', ''text'')]"

definition parts_type :: string where "parts_type = struct_type [(''Parts'', ''[]'' @ part_type, ''parts'')]"

definition candidate_type :: string where "candidate_type = struct_type [(''Content'', parts_type, ''content'')]"

definition counts_type :: string where
  "counts_type = struct_type [(''PromptTokenCount'', ''int'', ''promptTokenCount''), (''CandidatesTokenCount'', ''int'', ''candidatesTokenCount'')]"

text \<open>A struct with one field is the value of that field.\<close>

definition dec_candidate :: "string list decoder" where
  "dec_candidate = dec_object candidate_type
     [(''content'', dec_field id id (dec_object parts_type
        [(''parts'', dec_field id id (dec_list part_type [] (dec_object part_type [(''text'', dec_field id id dec_string)])))]))]"

definition dec_counts :: "tokens decoder" where
  "dec_counts = dec_object counts_type
     [(''promptTokenCount'', dec_field tk_In tk_In_update (dec_int ''int'')), (''candidatesTokenCount'', dec_field tk_Out tk_Out_update (dec_int ''int''))]"

definition dec_gemini :: "gemini_answer decoder" where
  "dec_gemini = dec_object (struct_type [(''Candidates'', ''[]'' @ candidate_type, ''candidates''), (''UsageMetadata'', counts_type, ''usageMetadata'')])
     [(''candidates'', dec_field ga_Candidates ga_Candidates_update (dec_list candidate_type [] dec_candidate)),
      (''usageMetadata'', dec_field ga_UsageMetadata ga_UsageMetadata_update dec_counts)]"

definition gemini_parse :: "bytes \<Rightarrow> GenerateResponse result" where
  "gemini_parse body =
     parsed_or_error (unmarshal dec_gemini \<lparr>ga_Candidates = [], ga_UsageMetadata = no_tokens\<rparr> body)
       (\<lambda>parsed. \<lparr>gp_Text = concat (map concat (ga_Candidates parsed)), gp_InputTokens = tk_In (ga_UsageMetadata parsed),
                 gp_OutputTokens = tk_Out (ga_UsageMetadata parsed), gp_Raw = body\<rparr>)"

definition gemini_url :: "'w Client \<Rightarrow> GenerateRequest \<Rightarrow> string" where
  "gemini_url c req = cl_baseURL c @ ''/v1beta/models/'' @ PathEscape (gq_Model req) @ '':generateContent?key='' @ QueryEscape (cl_apiKey c)"

definition gemini_Generate :: "'w http_lib \<Rightarrow> 'w Client \<Rightarrow> duration \<Rightarrow> GenerateRequest \<Rightarrow> 'w \<Rightarrow> GenerateResponse result \<times> 'w" where
  "gemini_Generate lib c ctx req w =
     (case checked_request ''gemini-1.5-pro'' c req of
        Inl e \<Rightarrow> (Inl e, w)
      | Inr req \<Rightarrow>
          (case NewRequest lib ''POST'' (gemini_url c req) of
             Inl e \<Rightarrow> (Inl (WrapErr ''build request: '' e []), w)
           | Inr hReq \<Rightarrow>
               (case DoJSON lib ctx (cl_httpClient c) hReq (Some (gemini_payload req)) w of
                  (Inl e, w) \<Rightarrow> (Inl e, w)
                | (Inr body, w) \<Rightarrow> (gemini_parse body, w))))"

section \<open>The three services\<close>

datatype vendor = OpenAI | Anthropic | Gemini

fun vendor_name :: "vendor \<Rightarrow> string" where
  "vendor_name OpenAI = ''openai''"
| "vendor_name Anthropic = ''anthropic''"
| "vendor_name Gemini = ''gemini''"

fun vendor_Generate :: "vendor \<Rightarrow> 'w http_lib \<Rightarrow> 'w Client \<Rightarrow> duration \<Rightarrow> GenerateRequest \<Rightarrow> 'w \<Rightarrow> GenerateResponse result \<times> 'w" where
  "vendor_Generate OpenAI = openai_Generate"
| "vendor_Generate Anthropic = anthropic_Generate"
| "vendor_Generate Gemini = gemini_Generate"

definition provider_of :: "vendor \<Rightarrow> 'w http_lib \<Rightarrow> 'w Client \<Rightarrow> 'w Provider" where
  "provider_of v lib c = \<lparr>pv_Name = vendor_name v, pv_Generate = vendor_Generate v lib c\<rparr>"

definition client_of :: "'w http_lib \<Rightarrow> 'w Client \<Rightarrow> 'w http_do" where
  "client_of lib c = (case cl_httpClient c of None \<Rightarrow> hl_DefaultClient lib | Some f \<Rightarrow> f)"

text \<open>
  The other end, as the services document it: where a request carries the key, the model and the
  prompt, and what an answer with some pieces of text looks like.
\<close>

definition json_member :: "string \<Rightarrow> jval \<Rightarrow> jval option" where
  "json_member k v = (case v of JObj kvs \<Rightarrow> map_of kvs k | _ \<Rightarrow> None)"

definition json_first :: "jval \<Rightarrow> jval option" where
  "json_first v = (case v of JArr (x # _) \<Rightarrow> Some x | _ \<Rightarrow> None)"

definition json_text :: "jval \<Rightarrow> string option" where
  "json_text v = (case v of JStr s \<Rightarrow> Some s | _ \<Rightarrow> None)"

definition after :: "string \<Rightarrow> string \<Rightarrow> string option" where
  "after p s = (if has_prefix s p then Some (drop (length p) s) else None)"

definition before :: "string \<Rightarrow> string \<Rightarrow> string option" where
  "before q s = (if has_prefix (rev s) (rev q) then Some (take (length s - length q) s) else None)"

definition document :: "http_request \<Rightarrow> jval option" where
  "document rq = (if hr_Method rq = ''POST'' then (case json_parse (hr_Body rq) of Inl _ \<Rightarrow> None | Inr v \<Rightarrow> Some v) else None)"

definition asked_openai :: "string \<Rightarrow> http_request \<Rightarrow> (string \<times> string \<times> string) option" where
  "asked_openai base rq =
     do { doc \<leftarrow> document rq;
          _ \<leftarrow> (if hr_URL rq = base @ ''/v1/responses'' then Some () else None);
          auth \<leftarrow> map_of (hr_Header rq) ''Authorization'';
          key \<leftarrow> after ''Bearer '' auth;
          model \<leftarrow> Option.bind (json_member ''model'' doc) json_text;
          prompt \<leftarrow> Option.bind (json_member ''input'' doc) json_text;
          Some (key, model, prompt) }"

definition asked_anthropic :: "string \<Rightarrow> http_request \<Rightarrow> (string \<times> string \<times> string) option" where
  "asked_anthropic base rq =
     do { doc \<leftarrow> document rq;
          _ \<leftarrow> (if hr_URL rq = base @ ''/v1/messages'' \<and> map_of (hr_Header rq) ''Anthropic-Version'' = Some ''2023-06-01'' then Some () else None);
          key \<leftarrow> map_of (hr_Header rq) ''X-Api-Key'';
          model \<leftarrow> Option.bind (json_member ''model'' doc) json_text;
          msgs \<leftarrow> json_member ''messages'' doc;
          msg \<leftarrow> json_first msgs;
          prompt \<leftarrow> Option.bind (json_member ''content'' msg) json_text;
          Some (key, model, prompt) }"

definition asked_gemini :: "string \<Rightarrow> http_request \<Rightarrow> (string \<times> string \<times> string) option" where
  "asked_gemini base rq =
     do { doc \<leftarrow> document rq;
          target \<leftarrow> after (base @ ''/v1beta/models/'') (hr_URL rq);
          query \<leftarrow> after ''?key='' (dropWhile (\<lambda>c. c \<noteq> CHR ''?'') target);
          key \<leftarrow> QueryUnescape query;
          segment \<leftarrow> before '':generateContent'' (takeWhile (\<lambda>c. c \<noteq> CHR ''?'') target);
          model \<leftarrow> PathUnescape segment;
          contents \<leftarrow> json_member ''contents'' doc;
          content \<leftarrow> json_first contents;
          parts \<leftarrow> json_member ''parts'' content;
          part \<leftarrow> json_first parts;
          prompt \<leftarrow> Option.bind (json_member ''text'' part) json_text;
          Some (key, model, prompt) }"

definition text_piece :: "string \<Rightarrow> string \<Rightarrow> jval" where
  "text_piece kind t = JObj [(''type'', JStr kind), (''text'', JStr t)]"

definition usage_json :: "tokens \<Rightarrow> jval" where
  "usage_json tk = JObj [(''input_tokens'', JInt (tk_In tk)), (''output_tokens'', JInt (tk_Out tk))]"

definition answer_openai :: "string list \<Rightarrow> tokens \<Rightarrow> jval" where
  "answer_openai ts tk = JObj [(''output'', JArr [JObj [(''content'', JArr (map (text_piece ''output_text'') ts))]]), (''usage'', usage_json tk)]"

definition answer_anthropic :: "string list \<Rightarrow> tokens \<Rightarrow> jval" where
  "answer_anthropic ts tk = JObj [(''content'', JArr (map (text_piece ''text'') ts)), (''usage'', usage_json tk)]"

definition answer_gemini :: "string list \<Rightarrow> tokens \<Rightarrow> jval" where
  "answer_gemini ts tk = JObj
     [(''candidates'', JArr [JObj [(''content'', JObj [(''parts'', JArr (map (\<lambda>t. JObj [(''text'', JStr t)]) ts))])]]),
      (''usageMetadata'', JObj [(''promptTokenCount'', JInt (tk_In tk)), (''candidatesTokenCount'', JInt (tk_Out tk))])]"

fun asked :: "vendor \<Rightarrow> string \<Rightarrow> http_request \<Rightarrow> (string \<times> string \<times> string) option" where
  "asked OpenAI = asked_openai"
| "asked Anthropic = asked_anthropic"
| "asked Gemini = asked_gemini"

fun answer :: "vendor \<Rightarrow> string list \<Rightarrow> tokens \<Rightarrow> jval" where
  "answer OpenAI = answer_openai"
| "answer Anthropic = answer_anthropic"
| "answer Gemini = answer_gemini"

fun default_model :: "vendor \<Rightarrow> string" where
  "default_model OpenAI = ''gpt-4o-mini''"
| "default_model Anthropic = ''claude-3-5-sonnet-latest''"
| "default_model Gemini = ''gemini-1.5-pro''"

text \<open>An answer whose texts are UTF-8 and whose numbers fit.\<close>

definition sendable :: "string list \<Rightarrow> tokens \<Rightarrow> bool" where
  "sendable ts tk \<longleftrightarrow> list_all utf8_valid ts \<and> int64 (tk_In tk) \<and> int64 (tk_Out tk)"

text \<open>
  A client that is connected to a service: a request that asks, with the key, for a completion is
  answered with status 200 and the document of what \<open>f\<close> makes of model and prompt.
\<close>

definition linked ::
  "(string \<Rightarrow> http_request \<Rightarrow> (string \<times> string \<times> string) option) \<Rightarrow> (string list \<Rightarrow> tokens \<Rightarrow> jval) \<Rightarrow> 'w http_lib \<Rightarrow> 'w Client
   \<Rightarrow> (string \<Rightarrow> string \<Rightarrow> 'w \<Rightarrow> (string list \<times> tokens) \<times> 'w) \<Rightarrow> bool" where
  "linked asked_of answer_of lib c f \<longleftrightarrow>
     (\<forall>url. hl_NewRequest lib url = None)
     \<and> (\<forall>ctx rq w m p ts tk w'.
          asked_of (cl_baseURL c) rq = Some (cl_apiKey c, m, p) \<longrightarrow> f m p w = ((ts, tk), w') \<longrightarrow>
          client_of lib c ctx rq w = (Inr (200, Inr (render (\<lambda>_. []) '':'' 0 (answer_of ts tk))), w'))"

section \<open>One exchange\<close>

lemma DoJSON_payload:
  "DoJSON lib ctx (cl_httpClient c) rq (Some v) w =
     (case json_Marshal v of
        Inl e \<Rightarrow> (Inl (WrapErr ''marshal request: '' e []), w)
      | Inr b \<Rightarrow>
          (case client_of lib c ctx (header_Set ''Content-Type'' ''application/json'' (rq\<lparr>hr_Body := b\<rparr>)) w of
             (Inl e, w) \<Rightarrow> (Inl (WrapErr ''http request failed: '' e []), w)
           | (Inr (status, Inl e), w) \<Rightarrow> (Inl (WrapErr ''read response: '' e []), w)
           | (Inr (status, Inr body), w) \<Rightarrow>
               (if 300 \<le> status then Inl (Errorf (''provider returned status '' @ itoa status @ '': '' @ body)) else Inr body, w)))"
  by (simp add: DoJSON_def client_of_def split: sum.split prod.split)

lemma DoJSON_one_request:
  assumes "DoJSON lib ctx (cl_httpClient c) rq (Some v) w = (r, w')"
  shows "(\<exists>e. r = Inl e) \<and> w' = w
    \<or> (\<exists>rq. w' = snd (client_of lib c ctx rq w)
        \<and> (\<forall>b. r = Inr b \<longrightarrow> (\<exists>status. fst (client_of lib c ctx rq w) = Inr (status, Inr b) \<and> status < 300)))"
proof (cases "json_Marshal v")
  case (Inr b)
  let ?rq = "header_Set ''Content-Type'' ''application/json'' (rq\<lparr>hr_Body := b\<rparr>)"
  from assms Inr have "w' = snd (client_of lib c ctx ?rq w)
      \<and> (\<forall>b. r = Inr b \<longrightarrow> (\<exists>status. fst (client_of lib c ctx ?rq w) = Inr (status, Inr b) \<and> status < 300))"
    by (auto simp: DoJSON_payload split: sum.splits prod.splits if_splits)
  then show ?thesis by blast
qed (use assms in \<open>auto simp: DoJSON_payload\<close>)

section \<open>The contract of a client\<close>

text \<open>
  What the clients share: checks first, then at most one request, whose body the service
  understands, and an answer that is decoded to its text and token counts.
\<close>

locale provider_client =
  fixes gen :: "'w http_lib \<Rightarrow> 'w Client \<Rightarrow> duration \<Rightarrow> GenerateRequest \<Rightarrow> 'w \<Rightarrow> GenerateResponse result \<times> 'w"
    and model :: string
    and request :: "'w Client \<Rightarrow> GenerateRequest \<Rightarrow> http_request"
    and payload :: "GenerateRequest \<Rightarrow> jval"
    and parse :: "bytes \<Rightarrow> GenerateResponse result"
    and asked_of :: "string \<Rightarrow> http_request \<Rightarrow> (string \<times> string \<times> string) option"
    and answer_of :: "string list \<Rightarrow> tokens \<Rightarrow> jval"
  assumes exchange:
      "gen lib c ctx req w =
        (case checked_request model c req of
           Inl e \<Rightarrow> (Inl e, w)
         | Inr req \<Rightarrow>
             (case hl_NewRequest lib (hr_URL (request c req)) of
                Some e \<Rightarrow> (Inl (WrapErr ''build request: '' e []), w)
              | None \<Rightarrow>
                  (case DoJSON lib ctx (cl_httpClient c) (request c req) (Some (payload req)) w of
                     (Inl e, w) \<Rightarrow> (Inl e, w)
                   | (Inr body, w) \<Rightarrow> (parse body, w))))"
    and encodable_payload: "f64_finite (gq_Temperature req) \<Longrightarrow> encodable (payload req)"
    and understood:
      "utf8_valid (gq_Model req) \<Longrightarrow> utf8_valid (gq_Prompt req) \<Longrightarrow> gq_Temperature req = Fin False 0 \<Longrightarrow>
       json_Marshal (payload req) = Inr b \<Longrightarrow>
       asked_of (cl_baseURL c) (header_Set ''Content-Type'' ''application/json'' ((request c req)\<lparr>hr_Body := b\<rparr>))
         = Some (cl_apiKey c, gq_Model req, gq_Prompt req)"
    and readable_answer: "sendable ts tk \<Longrightarrow> readable max_depth (answer_of ts tk)"
    and parse_answer:
      "sendable ts tk \<Longrightarrow> json_parse b = Inr (answer_of ts tk) \<Longrightarrow>
       parse b = Inr \<lparr>gp_Text = concat ts, gp_InputTokens = tk_In tk, gp_OutputTokens = tk_Out tk, gp_Raw = b\<rparr>"
    and parse_raw: "parse b = Inr r \<Longrightarrow> gp_Raw r = b"
    and default_utf8: "utf8_valid model" "model \<noteq> []"
begin

lemma refused:
  "trim_space (cl_apiKey c) = [] \<Longrightarrow> gen lib c ctx req w = (Inl (Sentinel ErrMissingAPIKey), w)"
  "trim_space (cl_apiKey c) \<noteq> [] \<Longrightarrow> trim_space (gq_Prompt req) = [] \<Longrightarrow> gen lib c ctx req w = (Inl (Sentinel ErrEmptyPrompt), w)"
  by (simp_all add: exchange checked_request_def)

text \<open>The world moves only through one call of the HTTP client; an answer comes from a good status.\<close>

lemma one_request:
  assumes "gen lib c ctx req w = (r, w')"
  shows "(\<exists>e. r = Inl e) \<and> w' = w
    \<or> (\<exists>rq. w' = snd (client_of lib c ctx rq w)
        \<and> (\<forall>resp. r = Inr resp \<longrightarrow> (\<exists>status. fst (client_of lib c ctx rq w) = Inr (status, Inr (gp_Raw resp)) \<and> status < 300)))"
proof (cases "checked_request model c req")
  case (Inr rq0)
  show ?thesis
  proof (cases "hl_NewRequest lib (hr_URL (request c rq0))")
    case None
    obtain r1 w1 where do: "DoJSON lib ctx (cl_httpClient c) (request c rq0) (Some (payload rq0)) w = (r1, w1)" by fastforce
    with assms Inr None have r: "w' = w1" "r = (case r1 of Inl e \<Rightarrow> Inl e | Inr body \<Rightarrow> parse body)"
      by (auto simp: exchange split: sum.splits)
    then have "\<forall>resp. r = Inr resp \<longrightarrow> r1 = Inr (gp_Raw resp)" using parse_raw by (auto split: sum.splits)
    with DoJSON_one_request [OF do] r show ?thesis by auto
  qed (use assms Inr in \<open>auto simp: exchange\<close>)
qed (use assms in \<open>auto simp: exchange\<close>)

text \<open>Through a connected client \<open>Generate\<close> is the service.\<close>

lemma served:
  assumes "linked asked_of answer_of lib c f"
    and "trim_space (cl_apiKey c) \<noteq> []" "trim_space (gq_Prompt req) \<noteq> []"
    and "utf8_valid (gq_Model req)" "utf8_valid (gq_Prompt req)" "gq_Temperature req = Fin False 0"
    and f: "f (if gq_Model req = [] then model else gq_Model req) (gq_Prompt req) w = ((ts, tk), w')" and "sendable ts tk"
  shows "\<exists>b. gen lib c ctx req w = (Inr \<lparr>gp_Text = concat ts, gp_InputTokens = tk_In tk, gp_OutputTokens = tk_Out tk, gp_Raw = b\<rparr>, w')"
proof -
  obtain rq where rq: "checked_request model c req = Inr rq" "gq_Model rq = (if gq_Model req = [] then model else gq_Model req)"
    "gq_Prompt rq = gq_Prompt req" "gq_Temperature rq = Fin False 0"
    using assms(2,3,6) by (simp add: checked_request_def Let_def)
  then have utf8: "utf8_valid (gq_Model rq)" "utf8_valid (gq_Prompt rq)" using assms(4,5) default_utf8(1) by auto
  have "encodable (payload rq)" by (rule encodable_payload) (simp add: rq(4))
  then obtain b where b: "json_Marshal (payload rq) = Inr b" by (simp add: json_Marshal_def)
  let ?a = "render (\<lambda>_. []) '':'' 0 (answer_of ts tk)"
  from understood [OF utf8 rq(4) b, of c] assms(1) f have
    "client_of lib c ctx (header_Set ''Content-Type'' ''application/json'' ((request c rq)\<lparr>hr_Body := b\<rparr>)) w = (Inr (200, Inr ?a), w')"
    by (simp add: linked_def rq(2,3))
  then have "gen lib c ctx req w = (parse ?a, w')"
    using assms(1) by (simp add: exchange rq(1) linked_def DoJSON_payload b)
  moreover have "json_parse ?a = Inr (answer_of ts tk)"
    using Marshal_roundtrip [OF readable_answer [OF assms(8)]] by (auto simp: json_Marshal_def split: if_splits)
  ultimately show ?thesis using parse_answer [OF assms(8)] by simp
qed

end

section \<open>The clients keep it\<close>

lemma canonical_names [simp]:
  "canonical_key True ''Content-Type'' = ''Content-Type''" "canonical_key True ''Authorization'' = ''Authorization''"
  "canonical_key True ''x-api-key'' = ''X-Api-Key''" "canonical_key True ''anthropic-version'' = ''Anthropic-Version''"
  by (simp_all add: upper_char_def lower_char_def byte_in_def char_of_def bit_0)

declare canonical_key.simps [simp del]

text \<open>A temperature of zero is written as the integer.\<close>

lemma render_zero: "render ws colon d (JFloat (Fin False 0)) = render ws colon d (JInt 0)"
  by (simp add: float_text_def JInt_def itoa_def decimal.simps digit_def char_of_def bit_0)

lemma read_as:
  assumes "json_Marshal v = Inr b" and "render (\<lambda>_. []) '':'' 0 v = render (\<lambda>_. []) '':'' 0 v'" and "readable max_depth v'"
  shows "json_parse b = Inr v'"
  using assms Marshal_roundtrip [OF assms(3)] by (auto simp: json_Marshal_def split: if_splits)

lemma literal_valid: "list_all (\<lambda>c. byte c < 128) s \<Longrightarrow> utf8_valid s"
  by (rule ascii_valid) (simp add: ascii_def list_all_iff)

lemmas request_simps = header_Set_def document_def json_member_def json_text_def after_def json_first_def has_prefix_def

lemma asked_openai_request:
  assumes "utf8_valid (gq_Model req)" "utf8_valid (gq_Prompt req)" "gq_Temperature req = Fin False 0"
    and "json_Marshal (openai_payload req) = Inr b"
  shows "asked_openai base (header_Set ''Content-Type'' ''application/json''
      \<lparr>hr_Method = ''POST'', hr_URL = base @ ''/v1/responses'', hr_Header = [(''Authorization'', ''Bearer '' @ key)], hr_Body = b\<rparr>)
    = Some (key, gq_Model req, gq_Prompt req)"
proof -
  have "json_parse b = Inr (JObj [(''input'', JStr (gq_Prompt req)), (''max_output_tokens'', JInt (gq_MaxTokens req)),
     (''model'', JStr (gq_Model req)), (''temperature'', JInt 0)])"
    using assms by (intro read_as [OF assms(4)]) (simp_all add: openai_payload_def render_zero max_depth_def literal_valid del: render.simps(4))
  then show ?thesis by (simp add: asked_openai_def request_simps)
qed

lemma asked_anthropic_request:
  assumes "utf8_valid (gq_Model req)" "utf8_valid (gq_Prompt req)" "gq_Temperature req = Fin False 0"
    and "json_Marshal (anthropic_payload req) = Inr b"
  shows "asked_anthropic base (header_Set ''Content-Type'' ''application/json''
      \<lparr>hr_Method = ''POST'', hr_URL = base @ ''/v1/messages'',
       hr_Header = [(''X-Api-Key'', key), (''Anthropic-Version'', ''2023-06-01'')], hr_Body = b\<rparr>)
    = Some (key, gq_Model req, gq_Prompt req)"
proof -
  have "json_parse b = Inr (JObj [(''max_tokens'', JInt (gq_MaxTokens req)),
     (''messages'', JArr [JObj [(''content'', JStr (gq_Prompt req)), (''role'', JStr ''user'')]]),
     (''model'', JStr (gq_Model req)), (''temperature'', JInt 0)])"
    using assms by (intro read_as [OF assms(4)]) (simp_all add: anthropic_payload_def render_zero max_depth_def literal_valid del: render.simps(4))
  then show ?thesis by (simp add: asked_anthropic_def request_simps)
qed

lemma gemini_target:
  "takeWhile (\<lambda>c. c \<noteq> CHR ''?'') (PathEscape m @ '':generateContent?key='' @ QueryEscape k) = PathEscape m @ '':generateContent''"
  "dropWhile (\<lambda>c. c \<noteq> CHR ''?'') (PathEscape m @ '':generateContent?key='' @ QueryEscape k) = ''?key='' @ QueryEscape k"
proof -
  have "\<forall>c \<in> set (PathEscape m). c \<noteq> CHR ''?''" using PathEscape_chars [of _ m] not_unreserved [of "CHR ''?''"] by fastforce
  then show "takeWhile (\<lambda>c. c \<noteq> CHR ''?'') (PathEscape m @ '':generateContent?key='' @ QueryEscape k) = PathEscape m @ '':generateContent''"
    "dropWhile (\<lambda>c. c \<noteq> CHR ''?'') (PathEscape m @ '':generateContent?key='' @ QueryEscape k) = ''?key='' @ QueryEscape k"
    by (simp_all add: takeWhile_append2 dropWhile_append2)
qed

lemma before_append: "before q (s @ q) = Some s"
  by (simp add: before_def has_prefix_def)

lemma after_append: "after p (p @ s) = Some s"
  by (simp add: after_def has_prefix_def)

lemma asked_gemini_request:
  assumes "utf8_valid (gq_Prompt req)" "gq_Temperature req = Fin False 0"
    and "json_Marshal (gemini_payload req) = Inr b"
  shows "asked_gemini (cl_baseURL c) (header_Set ''Content-Type'' ''application/json''
      \<lparr>hr_Method = ''POST'', hr_URL = gemini_url c req, hr_Header = [], hr_Body = b\<rparr>)
    = Some (cl_apiKey c, gq_Model req, gq_Prompt req)"
proof -
  have "json_parse b = Inr (JObj
     [(''contents'', JArr [JObj [(''parts'', JArr [JObj [(''text'', JStr (gq_Prompt req))]]), (''role'', JStr ''user'')]]),
      (''generationConfig'', JObj [(''maxOutputTokens'', JInt (gq_MaxTokens req)), (''temperature'', JInt 0)])])"
    using assms by (intro read_as [OF assms(3)]) (simp_all add: gemini_payload_def render_zero max_depth_def literal_valid del: render.simps(4))
  moreover have "after (cl_baseURL c @ ''/v1beta/models/'') (gemini_url c req)
      = Some (PathEscape (gq_Model req) @ '':generateContent?key='' @ QueryEscape (cl_apiKey c))"
    using after_append [of "cl_baseURL c @ ''/v1beta/models/''"] by (simp add: gemini_url_def)
  ultimately show ?thesis
    by (simp add: asked_gemini_def header_Set_def document_def json_member_def json_text_def json_first_def gemini_target before_append after_append
        PathUnescape_PathEscape QueryUnescape_QueryEscape del: append_Cons append.simps)
qed

lemmas answer_simps = dec_object_def find_decoder_def dec_field_def dec_int_json sendable_def

lemma dec_text_pieces:
  "dec_list piece_type empty_piece dec_piece ctx (JArr (map (text_piece kind) ts)) [] = (map (\<lambda>t. \<lparr>pc_Type = kind, pc_Text = t\<rparr>) ts, None)"
proof -
  have "dec_piece ctx (text_piece kind t) empty_piece = (\<lparr>pc_Type = kind, pc_Text = t\<rparr>, None)" for t ctx
    by (simp add: dec_piece_def text_piece_def empty_piece_def answer_simps)
  then have "dec_slice empty_piece dec_piece ctx (map (text_piece kind) ts) [] = (map (\<lambda>t. \<lparr>pc_Type = kind, pc_Text = t\<rparr>) ts, None)"
    by (induction ts) simp_all
  then show ?thesis by (simp add: dec_list_def)
qed

lemma pieces_text_all: "pieces_text kind (map (\<lambda>t. \<lparr>pc_Type = kind, pc_Text = t\<rparr>) ts) = concat ts"
  by (simp add: pieces_text_def o_def)

lemma dec_usage:
  "int64 (tk_In tk) \<Longrightarrow> int64 (tk_Out tk) \<Longrightarrow> dec_tokens ctx (usage_json tk) no_tokens = (tk, None)"
  by (simp add: dec_tokens_def usage_json_def answer_simps no_tokens_def)

lemma openai_parse_answer:
  assumes "sendable ts tk" and "json_parse b = Inr (answer_openai ts tk)"
  shows "openai_parse b = Inr \<lparr>gp_Text = concat ts, gp_InputTokens = tk_In tk, gp_OutputTokens = tk_Out tk, gp_Raw = b\<rparr>"
proof -
  have "dec_openai ctx (answer_openai ts tk) \<lparr>oa_Output = [], oa_OutputText = [], oa_Usage = no_tokens\<rparr>
      = (\<lparr>oa_Output = [map (\<lambda>t. \<lparr>pc_Type = ''output_text'', pc_Text = t\<rparr>) ts], oa_OutputText = [], oa_Usage = tk\<rparr>, None)" for ctx
    using assms(1) by (simp add: dec_openai_def answer_openai_def answer_simps dec_list_def [of openai_output_type] dec_openai_output_def
        dec_text_pieces dec_usage)
  with assms(2) trim_space_graphic [of "[]"] show ?thesis
    by (simp add: openai_parse_def unmarshal_def parsed_or_error_def pieces_text_all Let_def)
qed

lemma anthropic_parse_answer:
  assumes "sendable ts tk" and "json_parse b = Inr (answer_anthropic ts tk)"
  shows "anthropic_parse b = Inr \<lparr>gp_Text = concat ts, gp_InputTokens = tk_In tk, gp_OutputTokens = tk_Out tk, gp_Raw = b\<rparr>"
proof -
  have "dec_anthropic ctx (answer_anthropic ts tk) \<lparr>an_Content = [], an_Usage = no_tokens\<rparr>
      = (\<lparr>an_Content = map (\<lambda>t. \<lparr>pc_Type = ''text'', pc_Text = t\<rparr>) ts, an_Usage = tk\<rparr>, None)" for ctx
    using assms(1) by (simp add: dec_anthropic_def answer_anthropic_def answer_simps dec_text_pieces dec_usage)
  with assms(2) show ?thesis by (simp add: anthropic_parse_def unmarshal_def parsed_or_error_def pieces_text_all)
qed

lemma gemini_parse_answer:
  assumes "sendable ts tk" and "json_parse b = Inr (answer_gemini ts tk)"
  shows "gemini_parse b = Inr \<lparr>gp_Text = concat ts, gp_InputTokens = tk_In tk, gp_OutputTokens = tk_Out tk, gp_Raw = b\<rparr>"
proof -
  have parts: "dec_slice [] (dec_object part_type [(''text'', dec_field id id dec_string)]) ctx (map (\<lambda>t. JObj [(''text'', JStr t)]) ts) [] = (ts, None)" for ctx
    by (induction ts) (simp_all add: answer_simps)
  have "dec_gemini ctx (answer_gemini ts tk) \<lparr>ga_Candidates = [], ga_UsageMetadata = no_tokens\<rparr>
      = (\<lparr>ga_Candidates = [ts], ga_UsageMetadata = tk\<rparr>, None)" for ctx
    using assms(1) parts
    by (simp add: dec_gemini_def answer_gemini_def dec_candidate_def dec_counts_def dec_list_def no_tokens_def answer_simps)
  with assms(2) show ?thesis by (simp add: gemini_parse_def unmarshal_def parsed_or_error_def)
qed

lemma readable_text_piece: "utf8_valid kind \<Longrightarrow> utf8_valid t \<Longrightarrow> 0 < n \<Longrightarrow> readable n (text_piece kind t)"
  by (simp add: text_piece_def literal_valid)

lemma readable_usage: "0 < n \<Longrightarrow> readable n (usage_json tk)"
  by (simp add: usage_json_def literal_valid)

lemma readable_answers:
  assumes "sendable ts tk"
  shows "readable max_depth (answer_openai ts tk)" "readable max_depth (answer_anthropic ts tk)" "readable max_depth (answer_gemini ts tk)"
  using assms
  by (auto simp: answer_openai_def answer_anthropic_def answer_gemini_def max_depth_def literal_valid readable_text_piece readable_usage
      sendable_def list_all_iff)

lemma parsed_raw:
  "openai_parse b = Inr r \<Longrightarrow> gp_Raw r = b" "anthropic_parse b = Inr r \<Longrightarrow> gp_Raw r = b" "gemini_parse b = Inr r \<Longrightarrow> gp_Raw r = b"
  by (auto simp: openai_parse_def anthropic_parse_def gemini_parse_def parsed_or_error_def Let_def split: sum.splits)

definition openai_request :: "'w Client \<Rightarrow> GenerateRequest \<Rightarrow> http_request" where
  "openai_request c req = \<lparr>hr_Method = ''POST'', hr_URL = cl_baseURL c @ ''/v1/responses'',
     hr_Header = [(''Authorization'', ''Bearer '' @ cl_apiKey c)], hr_Body = []\<rparr>"

definition anthropic_request :: "'w Client \<Rightarrow> GenerateRequest \<Rightarrow> http_request" where
  "anthropic_request c req = \<lparr>hr_Method = ''POST'', hr_URL = cl_baseURL c @ ''/v1/messages'',
     hr_Header = [(''X-Api-Key'', cl_apiKey c), (''Anthropic-Version'', ''2023-06-01'')], hr_Body = []\<rparr>"

definition gemini_request :: "'w Client \<Rightarrow> GenerateRequest \<Rightarrow> http_request" where
  "gemini_request c req = \<lparr>hr_Method = ''POST'', hr_URL = gemini_url c req, hr_Header = [], hr_Body = []\<rparr>"

lemma encodable_payloads:
  assumes "f64_finite (gq_Temperature req)"
  shows "encodable (openai_payload req)" "encodable (anthropic_payload req)" "encodable (gemini_payload req)"
  using assms by (simp_all add: openai_payload_def anthropic_payload_def gemini_payload_def JInt_def)

lemma default_models: "utf8_valid (default_model v)" "default_model v \<noteq> []"
  by (cases v; simp add: literal_valid)+

interpretation openai: provider_client openai_Generate "default_model OpenAI" openai_request openai_payload openai_parse asked_openai answer_openai
proof (unfold_locales, goal_cases)
  case (1 lib c ctx req w)
  show ?case
    by (simp add: openai_Generate_def NewRequest_def openai_request_def header_Set_def split: sum.split option.split)
qed (simp_all only: encodable_payloads default_models readable_answers openai_parse_answer parsed_raw asked_openai_request openai_request_def
    http_request.update_convs not_False_eq_True)

interpretation anthropic: provider_client anthropic_Generate "default_model Anthropic" anthropic_request anthropic_payload anthropic_parse
  asked_anthropic answer_anthropic
proof (unfold_locales, goal_cases)
  case (1 lib c ctx req w)
  show ?case
    by (simp add: anthropic_Generate_def NewRequest_def anthropic_request_def header_Set_def split: sum.split option.split)
qed (simp_all only: encodable_payloads default_models readable_answers anthropic_parse_answer parsed_raw asked_anthropic_request
    anthropic_request_def http_request.update_convs not_False_eq_True)

interpretation gemini: provider_client gemini_Generate "default_model Gemini" gemini_request gemini_payload gemini_parse asked_gemini answer_gemini
proof (unfold_locales, goal_cases)
  case (1 lib c ctx req w)
  show ?case by (simp add: gemini_Generate_def NewRequest_def gemini_request_def split: sum.split option.split)
qed (simp_all only: encodable_payloads default_models readable_answers gemini_parse_answer parsed_raw asked_gemini_request
    gemini_request_def http_request.update_convs not_False_eq_True)

section \<open>All three\<close>

lemma vendor_refused:
  "trim_space (cl_apiKey c) = [] \<Longrightarrow> vendor_Generate v lib c ctx req w = (Inl (Sentinel ErrMissingAPIKey), w)"
  "trim_space (cl_apiKey c) \<noteq> [] \<Longrightarrow> trim_space (gq_Prompt req) = [] \<Longrightarrow> vendor_Generate v lib c ctx req w = (Inl (Sentinel ErrEmptyPrompt), w)"
  by (cases v; simp add: openai.refused anthropic.refused gemini.refused)+

lemma vendor_served:
  assumes "linked (asked v) (answer v) lib c f"
    and "trim_space (cl_apiKey c) \<noteq> []" "trim_space (gq_Prompt req) \<noteq> []"
    and "utf8_valid (gq_Model req)" "utf8_valid (gq_Prompt req)" "gq_Temperature req = Fin False 0"
    and "f (if gq_Model req = [] then default_model v else gq_Model req) (gq_Prompt req) w = ((ts, tk), w')" and "sendable ts tk"
  shows "\<exists>b. vendor_Generate v lib c ctx req w
    = (Inr \<lparr>gp_Text = concat ts, gp_InputTokens = tk_In tk, gp_OutputTokens = tk_Out tk, gp_Raw = b\<rparr>, w')"
proof (cases v)
  case OpenAI
  show ?thesis using assms unfolding OpenAI asked.simps answer.simps vendor_Generate.simps by (rule openai.served)
next
  case Anthropic
  show ?thesis using assms unfolding Anthropic asked.simps answer.simps vendor_Generate.simps by (rule anthropic.served)
next
  case Gemini
  show ?thesis using assms unfolding Gemini asked.simps answer.simps vendor_Generate.simps by (rule gemini.served)
qed

text \<open>
  C40: A client sends nothing that cannot be meant. Without an API key, or with a prompt that is only
  white space, \<open>Generate\<close> of each of the three clients returns its sentinel error and leaves the world
  as it is. Otherwise the world moves at most by one call of the HTTP client, and a response is what
  that call answered, with a status below 300.
\<close>

theorem generate_sends_at_most_once:
  assumes "vendor_Generate v lib c ctx req w = (r, w')"
  shows "if trim_space (cl_apiKey c) = [] then r = Inl (Sentinel ErrMissingAPIKey) \<and> w' = w
    else if trim_space (gq_Prompt req) = [] then r = Inl (Sentinel ErrEmptyPrompt) \<and> w' = w
    else (\<exists>e. r = Inl e) \<and> w' = w
      \<or> (\<exists>rq. w' = snd (client_of lib c ctx rq w)
          \<and> (\<forall>resp. r = Inr resp \<longrightarrow> (\<exists>status. fst (client_of lib c ctx rq w) = Inr (status, Inr (gp_Raw resp)) \<and> status < 300)))"
proof -
  have "(\<exists>e. r = Inl e) \<and> w' = w
      \<or> (\<exists>rq. w' = snd (client_of lib c ctx rq w)
          \<and> (\<forall>resp. r = Inr resp \<longrightarrow> (\<exists>status. fst (client_of lib c ctx rq w) = Inr (status, Inr (gp_Raw resp)) \<and> status < 300)))"
    using assms openai.one_request [of lib c ctx req w r w'] anthropic.one_request [of lib c ctx req w r w']
      gemini.one_request [of lib c ctx req w r w']
    by (cases v) (simp_all only: vendor_Generate.simps)
  with assms vendor_refused [where c = c and v = v and lib = lib and ctx = ctx and req = req and w = w] show ?thesis by auto
qed

text \<open>A service that counts the requests it gets and answers with the prompt, behind one client of each kind.\<close>

definition echo_do :: "vendor \<Rightarrow> nat http_do" where
  "echo_do v ctx rq w =
     (case asked v ''https://x'' rq of
        Some (key, model, prompt) \<Rightarrow> (Inr (200, Inr (render (\<lambda>_. []) '':'' 0 (answer v [prompt] \<lparr>tk_In = 3, tk_Out = 5\<rparr>))), w + 1)
      | None \<Rightarrow> (Inr (400, Inr ''bad request''), w + 1))"

definition echo_lib :: "vendor \<Rightarrow> nat http_lib" where
  "echo_lib v = \<lparr>hl_NewRequest = (\<lambda>_. None), hl_DefaultClient = echo_do v\<rparr>"

definition echo_client :: "string \<Rightarrow> nat Client" where
  "echo_client key = new_client ''https://x/'' key None []"

definition ask :: "string \<Rightarrow> GenerateRequest" where
  "ask prompt = \<lparr>gq_Model = [], gq_Prompt = prompt, gq_MaxTokens = 0, gq_Temperature = Fin False 0\<rparr>"

theorem generate_sends_at_most_once_witness:
  "vendor_Generate Gemini (echo_lib Gemini) (echo_client []) 0 (ask ''hi'') 7 = (Inl (Sentinel ErrMissingAPIKey), 7)"
proof -
  obtain r w' where run: "vendor_Generate Gemini (echo_lib Gemini) (echo_client []) 0 (ask ''hi'') 7 = (r, w')" by fastforce
  have "trim_space [] = []" by (rule trim_space_graphic) simp_all
  with generate_sends_at_most_once [OF run] run show ?thesis by (simp add: echo_client_def new_client_def)
qed

end
