(* ===== verification/ProviderAgent.thy ===== *)
theory ProviderAgent
  imports Adapters Sdk
begin

text \<open>
  Agents that are backed by a language model, \<open>src/pkg/sdk/provider_agent.go\<close>: the prompt is taken from
  the payload, the provider generates, and the completion becomes the payload of the output. The
  check of the context at the start is the parameter \<open>poll\<close>.
\<close>

definition dec_prompt :: "string decoder" where
  "dec_prompt = dec_object ''sdk.PromptPayload'' [(''prompt'', dec_field id id dec_string)]"

record CompletionPayload =
  cm_Text :: string
  cm_InputTokens :: go_int
  cm_OutputTokens :: go_int
  cm_Provider :: string
  cm_Model :: string

definition completion_json :: "CompletionPayload \<Rightarrow> jval" where
  "completion_json c = JObj [(''text'', JStr (cm_Text c)), (''input_tokens'', JInt (cm_InputTokens c)),
     (''output_tokens'', JInt (cm_OutputTokens c)), (''provider'', JStr (cm_Provider c)), (''model'', JStr (cm_Model c))]"

definition extractPrompt :: "bytes option \<Rightarrow> string result" where
  "extractPrompt payload =
     (if slice_bytes payload = [] then Inl (Errorf ''empty payload'')
      else
        (let trimmed = trim_space (slice_bytes payload);
             raw = (if trimmed \<noteq> [] then Inr trimmed else Inl (Errorf ''prompt not found in payload''))
         in case unmarshal dec_prompt [] (slice_bytes payload) of
              Inr prompt \<Rightarrow> if trim_space prompt \<noteq> [] then Inr prompt else raw
            | Inl _ \<Rightarrow> raw))"

definition AgentFromProvider :: "(duration \<Rightarrow> 'w \<Rightarrow> goerr option \<times> 'w) \<Rightarrow> 'w Provider option \<Rightarrow> string \<Rightarrow> 'w AgentFunc" where
  "AgentFromProvider poll provider model ctx inp w =
     (case provider of
        None \<Rightarrow> (Returned empty_output (Some (Errorf ''provider is nil'')), w)
      | Some provider \<Rightarrow>
          (case poll ctx w of
             (Some err, w) \<Rightarrow> (Returned empty_output (Some err), w)
           | (None, w) \<Rightarrow>
               (case extractPrompt (ai_Payload inp) of
                  Inl err \<Rightarrow> (Returned empty_output (Some err), w)
                | Inr prompt \<Rightarrow>
                    (case pv_Generate provider ctx
                            \<lparr>gq_Model = model, gq_Prompt = prompt, gq_MaxTokens = 0, gq_Temperature = Fin False 0\<rparr> w of
                       (Inl err, w) \<Rightarrow> (Returned empty_output (Some err), w)
                     | (Inr resp, w) \<Rightarrow>
                         (case json_Marshal (completion_json
                                 \<lparr>cm_Text = gp_Text resp, cm_InputTokens = gp_InputTokens resp, cm_OutputTokens = gp_OutputTokens resp,
                                  cm_Provider = pv_Name provider, cm_Model = model\<rparr>) of
                            Inl err \<Rightarrow> (Returned empty_output (Some (WrapErr ''marshal completion payload: '' err [])), w)
                          | Inr payload \<Rightarrow>
                              (Returned (empty_output\<lparr>ao_RequestID := ai_RequestID inp, ao_Payload := Some payload\<rparr>) None, w))))))"

section \<open>Prompts\<close>

text \<open>The document a caller writes for a prompt, and the reader of a completion.\<close>

definition prompt_json :: "string \<Rightarrow> jval" where
  "prompt_json p = JObj [(''prompt'', JStr p)]"

definition dec_completion :: "CompletionPayload decoder" where
  "dec_completion = dec_object ''sdk.CompletionPayload''
     [(''text'', dec_field cm_Text cm_Text_update dec_string),
      (''input_tokens'', dec_field cm_InputTokens cm_InputTokens_update (dec_int ''int'')),
      (''output_tokens'', dec_field cm_OutputTokens cm_OutputTokens_update (dec_int ''int'')),
      (''provider'', dec_field cm_Provider cm_Provider_update dec_string),
      (''model'', dec_field cm_Model cm_Model_update dec_string)]"

definition read_completion :: "bytes \<Rightarrow> CompletionPayload result" where
  "read_completion b =
     unmarshal dec_completion \<lparr>cm_Text = [], cm_InputTokens = 0, cm_OutputTokens = 0, cm_Provider = [], cm_Model = []\<rparr> b"

lemma unmarshal_prompt:
  assumes "utf8_valid p" and "json_Marshal (prompt_json p) = Inr b"
  shows "unmarshal dec_prompt [] b = Inr p"
proof -
  have "readable max_depth (prompt_json p)" using assms(1) by (simp add: prompt_json_def literal_valid max_depth_def)
  from read_as [OF assms(2) refl this] show ?thesis by (simp add: unmarshal_def dec_prompt_def prompt_json_def answer_simps)
qed

lemma render_nonempty: "json_Marshal (JObj kvs) = Inr b \<Longrightarrow> b \<noteq> []"
  by (auto simp: json_Marshal_def split: if_splits)

lemma extractPrompt_document:
  assumes "utf8_valid p" "trim_space p \<noteq> []" and "json_Marshal (prompt_json p) = Inr b"
  shows "extractPrompt (Some b) = Inr p"
  using assms unmarshal_prompt [OF assms(1,3)] render_nonempty [of _ b]
  by (auto simp: extractPrompt_def slice_bytes_def prompt_json_def)

lemma completion_roundtrip:
  assumes "utf8_valid (cm_Text c)" "utf8_valid (cm_Provider c)" "utf8_valid (cm_Model c)" "int64 (cm_InputTokens c)" "int64 (cm_OutputTokens c)"
  shows "\<exists>b. json_Marshal (completion_json c) = Inr b \<and> read_completion b = Inr c"
proof -
  have "readable max_depth (completion_json c)" using assms by (simp add: completion_json_def literal_valid max_depth_def)
  from Marshal_roundtrip [OF this] obtain b where b: "json_Marshal (completion_json c) = Inr b" "json_parse b = Inr (completion_json c)" by blast
  have "dec_completion ([], []) (completion_json c) \<lparr>cm_Text = [], cm_InputTokens = 0, cm_OutputTokens = 0, cm_Provider = [], cm_Model = []\<rparr> = (c, None)"
    using assms(4,5) by (simp add: dec_completion_def completion_json_def answer_simps)
  with b show ?thesis by (simp add: read_completion_def unmarshal_def)
qed

section \<open>End to end\<close>

lemma utf8_concat: "list_all utf8_valid ts \<Longrightarrow> utf8_valid (concat ts)"
  by (induction ts) (simp_all add: utf8_valid_append)


definition echo_service :: "string \<Rightarrow> string \<Rightarrow> nat \<Rightarrow> (string list \<times> tokens) \<times> nat" where
  "echo_service m p w = (([p], \<lparr>tk_In = 3, tk_Out = 5\<rparr>), w + 1)"

lemma echo_linked: "linked (asked v) (answer v) (echo_lib v) (echo_client key) echo_service"
  by (auto simp: linked_def echo_lib_def echo_client_def new_client_def trim_slashes_def client_of_def echo_do_def echo_service_def)


section \<open>Blank prompts\<close>

text \<open>
  A document whose prompt is blank is not refused: the text of the document itself is the prompt
  that is sent.
\<close>

lemma blank_prompt_sends_document:
  assumes "utf8_valid p" "trim_space p = []" and "json_Marshal (prompt_json p) = Inr b"
  shows "extractPrompt (Some b) = Inr b"
proof -
  have "hd b = CHR ''{''" "last b = CHR ''}''" using assms(3) by (auto simp: json_Marshal_def prompt_json_def split: if_splits)
  then have "trim_space b = b" by (intro trim_space_graphic) (simp add: graphic_def)
  with assms(2) unmarshal_prompt [OF assms(1,3)] render_nonempty [of _ b] assms(3) show ?thesis
    by (auto simp: extractPrompt_def slice_bytes_def prompt_json_def)
qed

end
