(* ===== verification/StateContext.thy ===== *)
theory StateContext
  imports GoPrelude
begin

text \<open>
  Two helpers that the other packages do not use: request state in a context,
  \<open>src/internal/state/context.go\<close>, and buffered channels, \<open>src/internal/channel/pool.go\<close>.

  A context is a chain of key and value pairs. The key has a type of its own, so it is a constructor
  of its own; a value is a snapshot or a value of another type. A channel is its buffer and the
  values that wait in it, for sizes that the allocator can serve.
\<close>

record state_Snapshot =
  ss_TaskID :: string
  ss_Metadata :: "(string, string) mapping option"

datatype context_key = StateKey string | OtherKey string

datatype 'v context_value = SnapshotValue state_Snapshot | OtherValue 'v

datatype 'v ctx_chain = Background | WithValue "'v ctx_chain" context_key "'v context_value"

fun ctx_Value :: "'v ctx_chain \<Rightarrow> context_key \<Rightarrow> 'v context_value option" where
  "ctx_Value Background key = None"
| "ctx_Value (WithValue parent k v) key = (if k = key then Some v else ctx_Value parent key)"

definition stateKey :: context_key where "stateKey = StateKey ''fluxroute_state''"

definition ToContext :: "'v ctx_chain \<Rightarrow> state_Snapshot \<Rightarrow> 'v ctx_chain" where
  "ToContext ctx s = WithValue ctx stateKey (SnapshotValue s)"

definition FromContext :: "'v ctx_chain \<Rightarrow> state_Snapshot \<times> bool" where
  "FromContext ctx =
     (case ctx_Value ctx stateKey of
        Some (SnapshotValue s) \<Rightarrow> (s, True)
      | _ \<Rightarrow> (\<lparr>ss_TaskID = [], ss_Metadata = None\<rparr>, False))"

record 'a channel =
  ch_cap :: nat
  ch_buf :: "'a list"

definition NewBufferedResultChannel :: "go_int \<Rightarrow> 'a channel" where
  "NewBufferedResultChannel n = (let n = (if n \<le> 0 then 1 else n) in \<lparr>ch_cap = nat n, ch_buf = []\<rparr>)"

text \<open>A send that would block is \<open>None\<close>.\<close>

definition ch_send :: "'a \<Rightarrow> 'a channel \<Rightarrow> 'a channel option" where
  "ch_send x ch = (if length (ch_buf ch) < ch_cap ch then Some (ch\<lparr>ch_buf := ch_buf ch @ [x]\<rparr>) else None)"

text \<open>Values of other packages put on top leave the snapshot, and none of them is taken for one.\<close>

fun with_others :: "'v ctx_chain \<Rightarrow> (string \<times> 'v) list \<Rightarrow> 'v ctx_chain" where
  "with_others ctx [] = ctx"
| "with_others ctx ((k, v) # kvs) = with_others (WithValue ctx (OtherKey k) (OtherValue v)) kvs"

lemma others_hide_nothing: "FromContext (with_others ctx kvs) = FromContext ctx"
  by (induction ctx kvs rule: with_others.induct) (simp_all add: FromContext_def stateKey_def)

lemma snapshot_roundtrip: "FromContext (with_others (ToContext ctx s) kvs) = (s, True)"
  unfolding others_hide_nothing by (simp add: FromContext_def ToContext_def)

lemma no_snapshot: "snd (FromContext (with_others Background kvs)) = False"
  unfolding others_hide_nothing by (simp add: FromContext_def)

lemma fresh_channel_accepts: "\<exists>ch. ch_send x (NewBufferedResultChannel n) = Some ch \<and> ch_buf ch = [x]"
  by (simp add: ch_send_def NewBufferedResultChannel_def Let_def)

end
