(* ===== verification/Spec2Isabelle.thy ===== *)
theory Spec2Isabelle
  imports ControlPlaneProps CliProps ProviderAgent StateContext
begin

text \<open>
  A verification of fluxroute, a router that runs plans of agents: the engine and its parts, the
  configuration that leads to a plan, recording and replay, the lease coordinators, the application
  with its files, audit log and servers, the command line, the control plane with its billing, the
  SDK and the clients of language model services.

  \<^bold>\<open>The program.\<close> A manifest (\<open>config\<close>) is validated and turned into an execution plan (\<open>app\<close>); the
  engine (\<open>router\<close>) checks that the plan is a graph without cycles, runs it level by level with one
  goroutine per node behind a semaphore, retries failed calls (\<open>retry\<close>), stops calling agents whose
  circuit is open, and records every attempt (\<open>trace\<close>, \<open>metrics\<close>). A recorded trace is saved, exported,
  replayed and compared. A lease (\<open>coordinator\<close>) keeps two processes from running the same task; every
  run leaves a line in the audit log (\<open>audit\<close>). The same functions are reached through a command line
  (\<open>cmd/cli\<close>, \<open>cmd/router\<close>) and an HTTP server. The control plane (\<open>controlplane\<close>, \<open>billing\<close>) keeps tenants,
  usage and prices behind an HTTP interface with roles (\<open>security\<close>). The SDK (\<open>pkg/sdk\<close>) is the public
  face of the engine; its agents may be backed by the clients of \<open>pkg/adapters\<close>.

  \<^bold>\<open>The language.\<close> \<open>GoPrelude\<close> (64-bit integers with explicit wrap-around, times, maps, \<open>sort.Slice\<close> as the
  locale \<open>slice_sorter\<close>), \<open>GoStrings\<close>, \<open>GoUtf8\<close>, \<open>GoErrors\<close> (error chains, \<open>errors.Is\<close> and \<open>errors.As\<close>),
  \<open>GoNumbers\<close> (\<open>Atoi\<close>, \<open>ParseDuration\<close>), \<open>GoFloat\<close> (doubles and their rounding error), \<open>GoCalendar\<close> and
  \<open>GoTime\<close> (the UTC calendar, RFC 3339), \<open>GoPaths\<close>, \<open>GoUrl\<close>, \<open>GoFiles\<close> (files that can fail), \<open>GoCsv\<close> (the CSV
  writer and a reader that inverts it), \<open>GoJson\<close>, \<open>GoJsonText\<close> and \<open>GoJsonDecode\<close> (values, the text of documents
  with the scanner of \<open>encoding/json\<close>, and decoding into structs), \<open>GoBase64\<close>, \<open>GoSha256\<close>. Each printer comes with
  the proof that its reader inverts it.

  \<^bold>\<open>The components\<close> (sources under \<open>src/internal\<close> unless a path is given):

  \<^item> \<open>AgentTypes\<close>: the structs of \<open>src/pkg/agentfunc/types.go\<close>. An agent is a function of its time budget, its
    input and the state of the world; it returns or panics.
  \<^item> \<open>Retry\<close>: \<open>retry/retry.go\<close>. \<open>Execute\<close> is the recursive retry specification; the backoff schedule is
    exact up to 37 attempts and overflows after that.
  \<^item> \<open>CircuitBreaker\<close>: \<open>retry/circuit_breaker.go\<close>, against the contract locale \<open>breaker_contract\<close>: it refines
    the Closed / Open / Half-open machine for every sequence of events.
  \<^item> \<open>Registry\<close>: \<open>agent/registry.go\<close>, a write-once store (locale \<open>agent_store\<close>).
  \<^item> \<open>Metrics\<close>, \<open>Telemetry\<close>: \<open>metrics/metrics.go\<close>, \<open>multi.go\<close>, \<open>prometheus.go\<close>, \<open>trace/otel.go\<close>: recorders as records of
    methods; the collectors of the Prometheus library and the exporters are parameters.
  \<^item> \<open>Trace\<close>, \<open>TraceIO\<close>: \<open>trace/trace.go\<close>, \<open>recorder.go\<close>, \<open>io.go\<close>: the finalized trace does not depend on the
    schedule, and a saved trace is loaded as it was.
  \<^item> \<open>Kahn\<close>, \<open>PlanGraph\<close>: \<open>buildGraph\<close> of \<open>router/router.go\<close>. The worklist algorithm is verified once in the
    locale \<open>kahn_source\<close> and used for plans and for manifests.
  \<^item> \<open>Scheduler\<close>, \<open>Engine\<close>, \<open>EngineSpec\<close>, \<open>EngineProps\<close>, \<open>EngineWorld\<close>: the rest of \<open>router/router.go\<close>. The body of
    a goroutine is a tree of atomic actions, a level is a pool of them under a schedule. \<open>RunPlan\<close> takes
    one schedule per level and returns \<open>None\<close> when a schedule stops before its level is done. Statements
    hold for every schedule; that complete schedules exist from every point is proved as well.
    \<open>EngineWorld\<close> carries invariants of the world through a run (locales \<open>world_kept\<close>, \<open>healthy_agents\<close>).
  \<^item> \<open>Security\<close>, \<open>Tenant\<close>, \<open>Manifest\<close>, \<open>Config\<close>: \<open>security/rbac.go\<close>, \<open>tenant/namespace.go\<close>, \<open>config/manifest.go\<close>,
    \<open>config/config.go\<close>: what validation accepts, and that what it accepts can be configured.
  \<^item> \<open>App\<close>, \<open>AppRun\<close>, \<open>AppReport\<close>, \<open>AppProps\<close>: \<open>app/run.go\<close>. \<open>RunManifestReport\<close> as a whole: reading and validating
    the manifest, access control, the lease with its deferred release, telemetry, the engine, the trace
    file, the export and the deferred audit record. The number given to it bounds the rounds of a
    waiting \<open>Acquire\<close>; with too few rounds, or schedules that end early, the result is \<open>None\<close>.
  \<^item> \<open>AuditLog\<close>, \<open>AstraGraph\<close>: \<open>audit/logger.go\<close>, \<open>audit/export.go\<close>, \<open>trace/astragraph_exporter.go\<close>.
  \<^item> \<open>Servers\<close>, \<open>AppServer\<close>: \<open>security/tls.go\<close>, \<open>app/server.go\<close>, \<open>app/tools.go\<close>, the start of the servers, and
    \<open>src/cmd/controlplane/main.go\<close>. Listening and serving are parameters.
  \<^item> \<open>Scaffold\<close>: \<open>scaffold/scaffold.go\<close>, the generated files byte for byte.
  \<^item> \<open>Cli\<close>, \<open>CliProps\<close>: \<open>src/cmd/cli/main.go\<close>, \<open>src/cmd/router/main.go\<close>: streams and exit status.
  \<^item> \<open>Replay\<close>, \<open>TraceDebug\<close>: \<open>trace/replay.go\<close>, \<open>trace/debug.go\<close>: a recorded run replays, and two runs of a
    deterministic plan show no divergence.
  \<^item> \<open>Coordinator\<close>: \<open>coordinator/coordinator.go\<close>, \<open>redis.go\<close>. The contract of a lease store is the locale
    \<open>lease_store\<close>, interpreted for the memory store and for uninterrupted rounds on lock files. An
    \<open>Acquire\<close> takes the number of rounds of its loop; a theorem says how many are enough. Redis is a
    parameter whose documented commands are hypotheses.
  \<^item> \<open>Billing\<close>, \<open>ControlPlane\<close>, \<open>ControlPlaneProps\<close>: \<open>billing/service.go\<close>, \<open>controlplane/service.go\<close>. Requests take
    effect one after the other, as the mutex makes them; a handler that panics gives \<open>None\<close>.
  \<^item> \<open>Sdk\<close>, \<open>Adapters\<close>, \<open>ProviderAgent\<close>: \<open>src/pkg/sdk\<close>, \<open>src/pkg/adapters\<close>. The three clients keep one contract, the
    locale \<open>provider_client\<close>; the HTTP client and the service behind it are parameters.
  \<^item> \<open>StateContext\<close>: \<open>state/context.go\<close>, \<open>channel/pool.go\<close>.

  \<^bold>\<open>What the theorems show.\<close> The engine refines its specification under every interleaving, is
  deterministic for deterministic agents, gates nodes on their dependencies, bounds attempts and
  running goroutines, contains panics, and cannot get stuck. The breaker and the retry loop refine
  their specifications. Validation is characterized exactly and is enough for a run: a permitted run
  of healthy agents ends without error. Every run is audited once, a denied one changes nothing else,
  and the lock of its task is released. Traces are sorted, storable and replayable; the audit log is
  exported as it was written. Leases exclude while they are released in time. The router with TLS
  switched on never serves without it, and only a POST makes it act. The control plane's books
  balance over every history, change only by administrators, and are summed by calendar month. The
  amounts of invoices are accurate to one part in \<open>2^51\<close> and survive their CSV form. A generated
  project validates. An agent made from a language model client is the service behind it.

  \<^bold>\<open>Deviations that are proved\<close>: the overflow of the backoff, a late success that closes an open circuit,
  a lost non-retryable mark, a default timeout that validation does not look at, recorded panics
  that do not replay, a late release that frees another's lease, the race of the file coordinator,
  page numbers that make a listing panic, an export that ignores a failed write, a command line that
  reports success for failed runs when its output is JSON, a TLS switch of the control plane that
  ignores \<open>1\<close>, a generated stub that is not Go, and blank prompts that send their own document.

  \<^bold>\<open>Not modelled.\<close> Third-party libraries are parameters: the YAML decoder, the Redis server, OpenTelemetry,
  Prometheus, parsing of certificates, sockets, the HTTP client. The spans of OpenTelemetry are
  write-only and left out, and so is the shutdown of a server when the process is told to stop.
\<close>

end
